(* ===== verification/Prelude.thy ===== *)
theory Prelude
  imports
    Main
    "HOL-Library.Char_ord"
    "HOL-Library.List_Lexorder"
    "HOL-Library.Sublist"
    "HOL-Library.AList"
begin

text \<open>
  What every component of the model shares: Go strings as byte lists with the functions of the
  packages strings, strconv and fmt the source calls, 64-bit wrap-around, Go maps as association
  lists, and the collections of facts the component proofs use. Nothing here models a file of the
  repository; it models the part of the Go language and of its standard library the code relies on.
\<close>

named_theorems gostr "facts about Go strings"
named_theorems gomap "facts about Go maps as association lists"

section \<open>Integers of fixed width\<close>

text \<open>The value an \<open>int64\<close> (or \<open>int\<close> on a 64-bit machine) holds after arithmetic: two's complement wrap-around.\<close>

definition wrap64 :: "int \<Rightarrow> int" where
  "wrap64 x = (x + 2 ^ 63) mod 2 ^ 64 - 2 ^ 63"

lemma wrap64_id: "- (2 ^ 63) \<le> x \<Longrightarrow> x < 2 ^ 63 \<Longrightarrow> wrap64 x = x"
  by (simp add: wrap64_def)

lemma wrap64_range: "- (2 ^ 63) \<le> wrap64 x" "wrap64 x < 2 ^ 63"
proof -
  have "0 \<le> (x + 2 ^ 63) mod 2 ^ 64" "(x + 2 ^ 63) mod 2 ^ 64 < 2 ^ 64"
    by (rule pos_mod_sign, simp, rule pos_mod_bound, simp)
  then show "- (2 ^ 63) \<le> wrap64 x" "wrap64 x < 2 ^ 63"
    by (simp_all add: wrap64_def)
qed

text \<open>Go's \<open>%\<close> truncates towards zero: the remainder has the sign of the dividend.\<close>

definition go_rem :: "int \<Rightarrow> int \<Rightarrow> int" where
  "go_rem a b = sgn a * (\<bar>a\<bar> mod \<bar>b\<bar>)"

lemma go_rem_nonneg: "0 \<le> a \<Longrightarrow> 0 < b \<Longrightarrow> go_rem a b = a mod b"
  by (cases "a = 0") (simp_all add: go_rem_def)

section \<open>Bytes and strings\<close>

abbreviation byte_of :: "char \<Rightarrow> nat" where
  "byte_of c \<equiv> of_char c"

text \<open>The backtick, which delimits values in Traefik rules.\<close>

abbreviation bq :: char where
  "bq \<equiv> CHR 0x60"

definition is_ascii :: "char \<Rightarrow> bool" where
  "is_ascii c \<longleftrightarrow> byte_of c < 128"

definition is_digit :: "char \<Rightarrow> bool" where
  "is_digit c \<longleftrightarrow> 48 \<le> byte_of c \<and> byte_of c \<le> 57"

definition is_upper :: "char \<Rightarrow> bool" where
  "is_upper c \<longleftrightarrow> 65 \<le> byte_of c \<and> byte_of c \<le> 90"

definition is_lower :: "char \<Rightarrow> bool" where
  "is_lower c \<longleftrightarrow> 97 \<le> byte_of c \<and> byte_of c \<le> 122"

definition lower_char :: "char \<Rightarrow> char" where
  "lower_char c = (if is_upper c then char_of (byte_of c + 32) else c)"

definition upper_char :: "char \<Rightarrow> char" where
  "upper_char c = (if is_lower c then char_of (byte_of c - 32) else c)"

text \<open>
  \<open>strings.ToLower\<close> and \<open>ToUpper\<close>: on an ASCII string byte by byte; on a string with other bytes the
  Unicode tables decide, which are the parameter \<open>uni\<close>.
\<close>

definition to_lower :: "(string \<Rightarrow> string) \<Rightarrow> string \<Rightarrow> string" where
  "to_lower uni s = (if list_all is_ascii s then map lower_char s else uni s)"

definition to_upper :: "(string \<Rightarrow> string) \<Rightarrow> string \<Rightarrow> string" where
  "to_upper uni s = (if list_all is_ascii s then map upper_char s else uni s)"

text \<open>
  \<open>strings.EqualFold\<close> against an ASCII word without the letters k and s, the only ones with a non-ASCII
  case variant: comparison of the ASCII-lowered bytes.
\<close>

definition equal_fold :: "string \<Rightarrow> string \<Rightarrow> bool" where
  "equal_fold s t \<longleftrightarrow> map lower_char s = map lower_char t"

subsection \<open>Prefixes, suffixes, search\<close>

abbreviation has_prefix :: "string \<Rightarrow> string \<Rightarrow> bool" where
  "has_prefix s p \<equiv> prefix p s"

abbreviation has_suffix :: "string \<Rightarrow> string \<Rightarrow> bool" where
  "has_suffix s p \<equiv> suffix p s"

abbreviation str_contains :: "string \<Rightarrow> string \<Rightarrow> bool" where
  "str_contains s sub \<equiv> sublist sub s"

definition trim_prefix :: "string \<Rightarrow> string \<Rightarrow> string" where
  "trim_prefix s p = (if prefix p s then drop (length p) s else s)"

definition trim_suffix :: "string \<Rightarrow> string \<Rightarrow> string" where
  "trim_suffix s p = (if suffix p s then take (length s - length p) s else s)"

text \<open>\<open>strings.Index\<close>: the first position of the substring, None for -1.\<close>

fun str_index :: "string \<Rightarrow> string \<Rightarrow> nat option" where
  "str_index [] sub = (if sub = [] then Some 0 else None)"
| "str_index (c # cs) sub =
     (if prefix sub (c # cs) then Some 0 else map_option Suc (str_index cs sub))"

fun index_byte :: "string \<Rightarrow> char \<Rightarrow> nat option" where
  "index_byte [] d = None"
| "index_byte (c # cs) d = (if c = d then Some 0 else map_option Suc (index_byte cs d))"

fun last_index_byte :: "string \<Rightarrow> char \<Rightarrow> nat option" where
  "last_index_byte [] d = None"
| "last_index_byte (c # cs) d =
     (case last_index_byte cs d of Some i \<Rightarrow> Some (Suc i) | None \<Rightarrow> if c = d then Some 0 else None)"

text \<open>\<open>strings.Split\<close> on a one-byte separator: always at least one part.\<close>

fun split_on :: "char \<Rightarrow> string \<Rightarrow> string list" where
  "split_on d [] = [[]]"
| "split_on d (c # cs) =
     (if c = d then [] # split_on d cs
      else (case split_on d cs of [] \<Rightarrow> [[c]] | p # ps \<Rightarrow> (c # p) # ps))"

text \<open>\<open>strings.SplitN(s, sep, 2)\<close> where the separator occurs: the parts around its first occurrence.\<close>

definition split_first :: "char \<Rightarrow> string \<Rightarrow> (string \<times> string) option" where
  "split_first d s = (case index_byte s d of None \<Rightarrow> None | Some i \<Rightarrow> Some (take i s, drop (Suc i) s))"

fun str_join :: "string \<Rightarrow> string list \<Rightarrow> string" where
  "str_join sep [] = []"
| "str_join sep [x] = x"
| "str_join sep (x # xs) = x @ sep @ str_join sep xs"

subsection \<open>White space\<close>

text \<open>
  The UTF-8 encodings of the runes \<open>unicode.IsSpace\<close> accepts. Their first bytes are ASCII or lead
  bytes, so scanning bytes finds the same spaces as scanning runes.
\<close>

definition space_seqs :: "string list" where
  "space_seqs =
     [[CHR 0x09], [CHR 0x0A], [CHR 0x0B], [CHR 0x0C], [CHR 0x0D], [CHR 0x20],
      [CHR 0xC2, CHR 0x85], [CHR 0xC2, CHR 0xA0], [CHR 0xE1, CHR 0x9A, CHR 0x80],
      [CHR 0xE2, CHR 0x80, CHR 0x80], [CHR 0xE2, CHR 0x80, CHR 0x81], [CHR 0xE2, CHR 0x80, CHR 0x82],
      [CHR 0xE2, CHR 0x80, CHR 0x83], [CHR 0xE2, CHR 0x80, CHR 0x84], [CHR 0xE2, CHR 0x80, CHR 0x85],
      [CHR 0xE2, CHR 0x80, CHR 0x86], [CHR 0xE2, CHR 0x80, CHR 0x87], [CHR 0xE2, CHR 0x80, CHR 0x88],
      [CHR 0xE2, CHR 0x80, CHR 0x89], [CHR 0xE2, CHR 0x80, CHR 0x8A], [CHR 0xE2, CHR 0x80, CHR 0xA8],
      [CHR 0xE2, CHR 0x80, CHR 0xA9], [CHR 0xE2, CHR 0x80, CHR 0xAF], [CHR 0xE2, CHR 0x81, CHR 0x9F],
      [CHR 0xE3, CHR 0x80, CHR 0x80]]"

definition lead_len :: "string list \<Rightarrow> string \<Rightarrow> nat" where
  "lead_len seqs s = (case find (\<lambda>p. prefix p s) seqs of None \<Rightarrow> 0 | Some p \<Rightarrow> length p)"

lemma lead_len_le: "lead_len seqs s \<le> length s"
  by (auto simp: lead_len_def find_Some_iff dest: prefix_length_le split: option.splits)

function trim_lead :: "string list \<Rightarrow> string \<Rightarrow> string" where
  "trim_lead seqs s = (if lead_len seqs s = 0 then s else trim_lead seqs (drop (lead_len seqs s) s))"
  by pat_completeness auto
termination
proof (relation "measure (\<lambda>(seqs, s). length s)", simp)
  fix seqs s assume "lead_len seqs s \<noteq> 0"
  with lead_len_le [of seqs s]
  show "((seqs, drop (lead_len seqs s) s), seqs, s) \<in> measure (\<lambda>(seqs, s). length s)" by simp
qed

declare trim_lead.simps [simp del]

definition trim_space :: "string \<Rightarrow> string" where
  "trim_space s = rev (trim_lead (map rev space_seqs) (rev (trim_lead space_seqs s)))"

lemma trim_space_Nil: "trim_space [] = []"
  by code_simp

definition trim_left_cut :: "char list \<Rightarrow> string \<Rightarrow> string" where
  "trim_left_cut cs s = dropWhile (\<lambda>c. c \<in> set cs) s"

definition trim_right_cut :: "char list \<Rightarrow> string \<Rightarrow> string" where
  "trim_right_cut cs s = rev (dropWhile (\<lambda>c. c \<in> set cs) (rev s))"

definition trim_cut :: "char list \<Rightarrow> string \<Rightarrow> string" where
  "trim_cut cs s = trim_right_cut cs (trim_left_cut cs s)"

text \<open>\<open>strings.Fields\<close>: the maximal runs of non-space.\<close>

function fields_acc :: "string \<Rightarrow> string \<Rightarrow> string list" where
  "fields_acc cur s =
     (case s of
        [] \<Rightarrow> (if cur = [] then [] else [rev cur])
      | c # cs \<Rightarrow>
          (let k = lead_len space_seqs s in
           if k = 0 then fields_acc (c # cur) cs
           else (if cur = [] then [] else [rev cur]) @ fields_acc [] (drop (k - 1) cs)))"
  by pat_completeness auto
termination by (relation "measure (\<lambda>(cur, s). length s)") auto

declare fields_acc.simps [simp del]

definition str_fields :: "string \<Rightarrow> string list" where
  "str_fields s = fields_acc [] s"

text \<open>Printable characters other than the space, which no space encoding begins with.\<close>

definition printable :: "char \<Rightarrow> bool" where
  "printable c \<longleftrightarrow> 33 \<le> byte_of c \<and> byte_of c \<le> 126"

lemma space_not_printable: "\<forall>p \<in> set space_seqs \<union> set (map rev space_seqs). p \<noteq> [] \<and> \<not> printable (hd p)"
  by code_simp

lemma lead_len_printable:
  assumes "seqs = space_seqs \<or> seqs = map rev space_seqs" "printable c"
  shows "lead_len seqs (c # cs) = 0"
proof -
  have "\<not> prefix p (c # cs)" if "p \<in> set seqs" for p
  proof -
    have "p \<noteq> [] \<and> \<not> printable (hd p)" using space_not_printable assms(1) that by blast
    with assms(2) show ?thesis by (cases p) auto
  qed
  then have "find (\<lambda>p. prefix p (c # cs)) seqs = None" by (simp add: find_None_iff)
  then show ?thesis by (simp add: lead_len_def)
qed

lemma trim_lead_printable:
  "seqs = space_seqs \<or> seqs = map rev space_seqs \<Longrightarrow> s \<noteq> [] \<Longrightarrow> printable (hd s) \<Longrightarrow> trim_lead seqs s = s"
  by (subst trim_lead.simps) (cases s; simp add: lead_len_printable)

lemma trim_space_printable: "s \<noteq> [] \<Longrightarrow> printable (hd s) \<Longrightarrow> printable (last s) \<Longrightarrow> trim_space s = s"
  by (simp add: trim_space_def trim_lead_printable hd_rev)

lemma lead_len_blank: "lead_len space_seqs (CHR '' '' # cs) = 1"
proof -
  have blank: "'' '' \<in> set space_seqs" "\<forall>p \<in> set space_seqs. p \<noteq> [] \<and> (hd p = CHR '' '' \<longrightarrow> length p = 1)"
    by code_simp+
  have "find (\<lambda>p. prefix p (CHR '' '' # cs)) space_seqs \<noteq> None"
    using blank(1) by (auto simp: find_None_iff)
  then obtain p where p: "find (\<lambda>p. prefix p (CHR '' '' # cs)) space_seqs = Some p" by blast
  then have "p \<in> set space_seqs" "prefix p (CHR '' '' # cs)" by (auto simp: find_Some_iff)
  with blank(2) have "length p = 1" by (cases p) auto
  with p show ?thesis by (simp add: lead_len_def)
qed

lemma fields_word: "list_all printable w \<Longrightarrow> fields_acc cur (w @ rest) = fields_acc (rev w @ cur) rest"
proof (induction w arbitrary: cur)
  case (Cons c w)
  have "fields_acc cur (c # w @ rest) = fields_acc (c # cur) (w @ rest)"
    using Cons.prems by (subst fields_acc.simps) (simp add: lead_len_printable)
  with Cons show ?case by simp
qed simp

lemma fields_words:
  assumes "\<forall>w \<in> set ws. w \<noteq> [] \<and> list_all printable w"
  shows "str_fields (str_join '' '' ws) = ws"
proof -
  have "fields_acc [] (str_join '' '' ws) = ws"
    using assms
  proof (induction ws)
    case Nil
    then show ?case by (simp add: fields_acc.simps)
  next
    case (Cons w ws)
    show ?case
    proof (cases ws)
      case Nil
      with Cons.prems fields_word [of w "[]" "[]"] show ?thesis
        by simp (subst fields_acc.simps, simp)
    next
      case (Cons w2 ws2)
      have "str_join '' '' (w # ws) = w @ CHR '' '' # str_join '' '' ws" by (simp add: Cons)
      moreover have "fields_acc (rev w) (CHR '' '' # str_join '' '' ws) = w # fields_acc [] (str_join '' '' ws)"
        using Cons.prems by (subst fields_acc.simps) (simp add: lead_len_blank)
      ultimately show ?thesis
        using Cons.IH Cons.prems fields_word [of w "[]" "CHR '' '' # str_join '' '' ws"] by simp
    qed
  qed
  then show ?thesis by (simp add: str_fields_def)
qed

section \<open>Decimal numbers\<close>

definition digit_char :: "nat \<Rightarrow> char" where
  "digit_char d = char_of (48 + d)"

definition digit_val :: "char \<Rightarrow> nat" where
  "digit_val c = byte_of c - 48"

fun show_nat :: "nat \<Rightarrow> string" where
  "show_nat n = (if n < 10 then [digit_char n] else show_nat (n div 10) @ [digit_char (n mod 10)])"

declare show_nat.simps [simp del]

definition show_int :: "int \<Rightarrow> string" where
  "show_int n = (if n < 0 then CHR ''-'' # show_nat (nat (- n)) else show_nat (nat n))"

text \<open>
  \<open>strconv.ParseUint(s, 10, 64)\<close> after the sign: digit by digit, a bad byte is a syntax error with value
  0, an overflow stops at once with the largest value.
\<close>

datatype num_err = NumOk | NumSyntax | NumRange

fun parse_uint :: "nat \<Rightarrow> string \<Rightarrow> nat \<times> num_err" where
  "parse_uint acc [] = (acc, NumOk)"
| "parse_uint acc (c # cs) =
     (if \<not> is_digit c then (0, NumSyntax)
      else if 2 ^ 64 \<le> acc * 10 + digit_val c then (2 ^ 64 - 1, NumRange)
      else parse_uint (acc * 10 + digit_val c) cs)"

text \<open>\<open>strconv.Atoi\<close> and \<open>ParseInt(s, 10, 64)\<close>: the value and whether the error is nil.\<close>

definition atoi_unsigned :: "bool \<Rightarrow> string \<Rightarrow> int \<times> bool" where
  "atoi_unsigned neg ds =
     (if ds = [] then (0, False)
      else (case parse_uint 0 ds of
              (n, NumSyntax) \<Rightarrow> (0, False)
            | (n, e) \<Rightarrow>
                (if neg then (if 2 ^ 63 < n then (- (2 ^ 63), False) else (- int n, e = NumOk))
                 else (if 2 ^ 63 \<le> n then (2 ^ 63 - 1, False) else (int n, e = NumOk)))))"

definition atoi :: "string \<Rightarrow> int \<times> bool" where
  "atoi s =
     (case s of
        [] \<Rightarrow> (0, False)
      | c # cs \<Rightarrow>
          if c = CHR ''+'' then atoi_unsigned False cs
          else if c = CHR ''-'' then atoi_unsigned True cs
          else atoi_unsigned False s)"

lemma of_char_digit_char: "d < 10 \<Longrightarrow> byte_of (digit_char d) = 48 + d"
  by (simp add: digit_char_def)

lemma digit_char_digit: "d < 10 \<Longrightarrow> is_digit (digit_char d)"
  by (simp add: is_digit_def of_char_digit_char)

lemma digit_val_digit_char: "d < 10 \<Longrightarrow> digit_val (digit_char d) = d"
  by (simp add: digit_val_def of_char_digit_char)

lemma show_nat_nonempty: "show_nat n \<noteq> []"
  by (subst show_nat.simps) simp

lemma show_nat_digits: "list_all is_digit (show_nat n)"
proof (induction n rule: show_nat.induct)
  case (1 n)
  then show ?case
    by (subst show_nat.simps) (auto simp: digit_char_digit)
qed

lemma parse_uint_append:
  "parse_uint acc xs = (m, NumOk) \<Longrightarrow> parse_uint acc (xs @ ys) = parse_uint m ys"
  by (induction acc xs rule: parse_uint.induct) (auto split: if_splits)

lemma parse_uint_show_nat: "n < 2 ^ 64 \<Longrightarrow> parse_uint 0 (show_nat n) = (n, NumOk)"
proof (induction n rule: show_nat.induct)
  case (1 n)
  show ?case
  proof (cases "n < 10")
    case True
    then show ?thesis by (subst show_nat.simps) (simp add: digit_char_digit digit_val_digit_char)
  next
    case False
    with 1 have "parse_uint 0 (show_nat (n div 10)) = (n div 10, NumOk)" by simp
    with False 1 show ?thesis
      by (subst show_nat.simps)
        (simp add: parse_uint_append digit_char_digit digit_val_digit_char)
  qed
qed

lemma atoi_unsigned_show_nat:
  assumes "n < 2 ^ 63"
  shows "atoi_unsigned False (show_nat n) = (int n, True)"
    and "atoi_unsigned True (show_nat n) = (- int n, True)"
  using assms parse_uint_show_nat [of n] show_nat_nonempty [of n]
  by (simp_all add: atoi_unsigned_def)

lemma is_digit_not_sign: "is_digit c \<Longrightarrow> c \<noteq> CHR ''+'' \<and> c \<noteq> CHR ''-''"
  by (auto simp: is_digit_def)

lemma atoi_show_nat: "n < 2 ^ 63 \<Longrightarrow> atoi (show_nat n) = (int n, True)"
proof -
  assume n: "n < 2 ^ 63"
  obtain c cs where s: "show_nat n = c # cs"
    using show_nat_nonempty [of n] by (cases "show_nat n") auto
  with show_nat_digits [of n] have "is_digit c" by simp
  with s n show ?thesis
    using is_digit_not_sign [of c] atoi_unsigned_show_nat(1) [OF n] by (simp add: atoi_def)
qed

lemma atoi_show_int: "- (2 ^ 63) < n \<Longrightarrow> n < 2 ^ 63 \<Longrightarrow> atoi (show_int n) = (n, True)"
proof (cases "n < 0")
  case True
  assume "- (2 ^ 63) < n" "n < 2 ^ 63"
  with True have "nat (- n) < 2 ^ 63" by simp
  from atoi_unsigned_show_nat(2) [OF this] True show ?thesis
    by (simp add: show_int_def atoi_def)
next
  case False
  assume "- (2 ^ 63) < n" "n < 2 ^ 63"
  with False have "nat n < 2 ^ 63" by simp
  from atoi_show_nat [OF this] False show ?thesis by (simp add: show_int_def)
qed

section \<open>Go maps\<close>

text \<open>
  A Go map is an association list with distinct keys; the order of the list stands for the order of
  an iteration, which Go leaves open.
\<close>

type_synonym ('k, 'v) gomap = "('k \<times> 'v) list"

abbreviation mget :: "('k, 'v) gomap \<Rightarrow> 'k \<Rightarrow> 'v option" where
  "mget m k \<equiv> map_of m k"

abbreviation mput :: "'k \<Rightarrow> 'v \<Rightarrow> ('k, 'v) gomap \<Rightarrow> ('k, 'v) gomap" where
  "mput k v m \<equiv> AList.update k v m"

abbreviation mdel :: "'k \<Rightarrow> ('k, 'v) gomap \<Rightarrow> ('k, 'v) gomap" where
  "mdel k m \<equiv> AList.delete k m"

abbreviation mkeys :: "('k, 'v) gomap \<Rightarrow> 'k set" where
  "mkeys m \<equiv> fst ` set m"

abbreviation wf_gomap :: "('k, 'v) gomap \<Rightarrow> bool" where
  "wf_gomap m \<equiv> distinct (map fst m)"

lemma mget_mput [simp, gomap]: "mget (mput k v m) k' = (if k' = k then Some v else mget m k')"
  by (simp add: update_conv')

lemma mget_mdel [simp, gomap]: "mget (mdel k m) k' = (if k' = k then None else mget m k')"
  by (simp add: delete_conv')

lemma wf_gomap_mput [simp, intro]: "wf_gomap m \<Longrightarrow> wf_gomap (mput k v m)"
  by (rule distinct_update)

lemma wf_gomap_mdel [simp, intro]: "wf_gomap m \<Longrightarrow> wf_gomap (mdel k m)"
  by (rule distinct_delete)

lemma mkeys_mput [simp, gomap]: "mkeys (mput k v m) = insert k (mkeys m)"
  using dom_update [of k v m] by simp

lemma mkeys_mdel [simp, gomap]: "mkeys (mdel k m) = mkeys m - {k}"
  using delete_keys [of k m] by (simp add: delete_conv' dom_map_of_conv_image_fst [symmetric])

lemma mget_filter:
  "wf_gomap m \<Longrightarrow> mget (filter (\<lambda>(k, v). P k v) m) k =
     (case mget m k of Some v \<Rightarrow> if P k v then Some v else None | None \<Rightarrow> None)"
proof (induction m)
  case (Cons kv m)
  obtain k' v where kv: "kv = (k', v)" by (cases kv)
  have "map_of (filter (\<lambda>(k, v). P k v) m) k' = None" if "k' \<notin> fst ` set m"
    using that by (force simp: map_of_eq_None_iff)
  with Cons show ?case by (auto simp: kv split: option.splits)
qed simp

text \<open>Lookup in a map with a default, Go's zero value for a missing key.\<close>

definition mget_or :: "'v \<Rightarrow> ('k, 'v) gomap \<Rightarrow> 'k \<Rightarrow> 'v" where
  "mget_or d m k = (case mget m k of Some v \<Rightarrow> v | None \<Rightarrow> d)"

end
