(* ===== verification/Models.thy ===== *)
theory Models
  imports Prelude
begin

text \<open>
  The data of \<open>internal/store/models.go\<close>: one record per struct, with the source's field names behind
  a prefix that names the struct. Go's string-based enumerations (\<open>Role\<close>, \<open>HostKind\<close>, \<open>TLSMode\<close>,
  \<open>CertStatus\<close>) are strings at run time, and values outside the listed constants reach the code from
  requests and rows, so they stay strings here with the constants as abbreviations. A \<open>time.Time\<close> is
  its number of nanoseconds since the epoch, a \<open>*time.Time\<close> an option.
\<close>

type_synonym gotime = int
type_synonym duration = int

abbreviation second :: duration where "second \<equiv> 1000000000"
abbreviation minute :: duration where "minute \<equiv> 60000000000"
abbreviation hour :: duration where "hour \<equiv> 3600000000000"

text \<open>\<open>t.Unix()\<close> and \<open>time.Unix(s, 0)\<close>.\<close>

definition unix_of :: "gotime \<Rightarrow> int" where
  "unix_of t = t div second"

definition of_unix :: "int \<Rightarrow> gotime" where
  "of_unix s = s * second"

lemma unix_of_unix [simp]: "unix_of (of_unix s) = s"
  by (simp add: unix_of_def of_unix_def)

text \<open>Values decoded by \<open>encoding/json\<close> into \<open>any\<close>; a number keeps its literal.\<close>

datatype json =
    JNull
  | JBool bool
  | JNum string
  | JStr string
  | JArr "json list"
  | JObj "(string \<times> json) list"

section \<open>Accounts\<close>

type_synonym role = string

abbreviation RoleAdmin :: role where "RoleAdmin \<equiv> ''admin''"
abbreviation RoleOperator :: role where "RoleOperator \<equiv> ''operator''"
abbreviation RoleViewer :: role where "RoleViewer \<equiv> ''viewer''"

record user =
  usr_ID :: string
  usr_Email :: string
  usr_Name :: string
  usr_PasswordHash :: string
  usr_Role :: role
  usr_Disabled :: bool
  usr_CreatedAt :: gotime
  usr_UpdatedAt :: gotime

record session =
  ses_Token :: string
  ses_UserID :: string
  ses_UserAgent :: string
  ses_IP :: string
  ses_CreatedAt :: gotime
  ses_ExpiresAt :: gotime

section \<open>Hosts\<close>

record upstream =
  u_Scheme :: string
  u_Host :: string
  u_Port :: int
  u_Weight :: int

record location =
  loc_PathPrefix :: string
  loc_Upstreams :: "upstream list"
  loc_StripPrefix :: bool

record error_page =
  ep_Status :: string
  ep_HTML :: string

record backend_group =
  bg_Name :: string
  bg_Upstreams :: "upstream list"
  bg_Weight :: int
  bg_Percent :: int

type_synonym host_kind = string

abbreviation HostKindProxy :: host_kind where "HostKindProxy \<equiv> ''proxy''"
abbreviation HostKindRedirection :: host_kind where "HostKindRedirection \<equiv> ''redirection''"
abbreviation HostKindDead :: host_kind where "HostKindDead \<equiv> ''dead''"
abbreviation HostKindStream :: host_kind where "HostKindStream \<equiv> ''stream''"

type_synonym tls_mode = string

abbreviation TLSNone :: tls_mode where "TLSNone \<equiv> ''none''"
abbreviation TLSACME :: tls_mode where "TLSACME \<equiv> ''acme''"
abbreviation TLSCustom :: tls_mode where "TLSCustom \<equiv> ''custom''"
abbreviation TLSExternal :: tls_mode where "TLSExternal \<equiv> ''external''"

record host =
  h_ID :: string
  h_Kind :: host_kind
  h_Enabled :: bool
  h_Domains :: "string list"
  h_Upstreams :: "upstream list"
  h_UpstreamPath :: string
  h_PreservePath :: bool
  h_CacheAssets :: bool
  h_LoadBalancer :: string
  h_Sticky :: bool
  h_HealthCheckURL :: string
  h_Locations :: "location list"
  h_ErrorPages :: "error_page list"
  h_AccessListIDs :: "string list"
  h_ServiceMode :: string
  h_BackendGroups :: "backend_group list"
  h_WAF :: bool
  h_Cache :: bool
  h_RedirectTo :: string
  h_RedirectCode :: int
  h_RedirectKeepPath :: bool
  h_StreamProto :: string
  h_StreamEntryPoint :: string
  h_TLSPassthrough :: bool
  h_TLS :: tls_mode
  h_CertificateID :: string
  h_ForceTLS :: bool
  h_HSTS :: bool
  h_HTTP2On :: bool
  h_CORSEnabled :: bool
  h_CORSAllowOrigins :: "string list"
  h_CORSAllowCredentials :: bool
  h_MiddlewareIDs :: "string list"
  h_RawYAML :: string
  h_Notes :: string
  h_CreatedAt :: gotime
  h_UpdatedAt :: gotime

text \<open>The Go zero value of a host, from which concrete hosts are written.\<close>

definition zero_host :: host where
  "zero_host = \<lparr>
     h_ID = [], h_Kind = [], h_Enabled = False, h_Domains = [], h_Upstreams = [],
     h_UpstreamPath = [], h_PreservePath = False, h_CacheAssets = False, h_LoadBalancer = [],
     h_Sticky = False, h_HealthCheckURL = [], h_Locations = [], h_ErrorPages = [],
     h_AccessListIDs = [], h_ServiceMode = [], h_BackendGroups = [], h_WAF = False,
     h_Cache = False, h_RedirectTo = [], h_RedirectCode = 0, h_RedirectKeepPath = False,
     h_StreamProto = [], h_StreamEntryPoint = [], h_TLSPassthrough = False, h_TLS = [],
     h_CertificateID = [], h_ForceTLS = False, h_HSTS = False, h_HTTP2On = False,
     h_CORSEnabled = False, h_CORSAllowOrigins = [], h_CORSAllowCredentials = False,
     h_MiddlewareIDs = [], h_RawYAML = [], h_Notes = [], h_CreatedAt = 0, h_UpdatedAt = 0 \<rparr>"

section \<open>Middlewares, access lists, certificates\<close>

record middleware =
  mw_ID :: string
  mw_Name :: string
  mw_Type :: string
  mw_Params :: "(string \<times> json) list"
  mw_CreatedAt :: gotime
  mw_UpdatedAt :: gotime

record access_list_user =
  alu_Username :: string
  alu_Hash :: string

record access_list =
  al_ID :: string
  al_Name :: string
  al_Users :: "access_list_user list"
  al_AllowIPs :: "string list"
  al_SatisfyAny :: bool
  al_CreatedAt :: gotime
  al_UpdatedAt :: gotime

type_synonym cert_type = string
type_synonym cert_status = string

abbreviation CertTypeACME :: cert_type where "CertTypeACME \<equiv> ''acme''"
abbreviation CertTypeUploaded :: cert_type where "CertTypeUploaded \<equiv> ''uploaded''"
abbreviation CertStatusPending :: cert_status where "CertStatusPending \<equiv> ''pending''"
abbreviation CertStatusValid :: cert_status where "CertStatusValid \<equiv> ''valid''"
abbreviation CertStatusFailed :: cert_status where "CertStatusFailed \<equiv> ''failed''"
abbreviation CertStatusExpired :: cert_status where "CertStatusExpired \<equiv> ''expired''"

record certificate =
  c_ID :: string
  c_Type :: cert_type
  c_Domains :: "string list"
  c_Status :: cert_status
  c_ChallengeType :: string
  c_DNSProviderID :: string
  c_ACMEAccountID :: string
  c_CertPEM :: string
  c_KeyPEMEnc :: string
  c_IssuedAt :: "gotime option"
  c_ExpiresAt :: "gotime option"
  c_LastError :: string
  c_LastAttemptAt :: "gotime option"
  c_AutoRenew :: bool
  c_CreatedAt :: gotime
  c_UpdatedAt :: gotime

record acme_account =
  acc_ID :: string
  acc_Email :: string
  acc_CADirURL :: string
  acc_Registration :: string
  acc_PrivateKeyEnc :: string
  acc_CreatedAt :: gotime

record dns_provider =
  dp_ID :: string
  dp_Name :: string
  dp_Provider :: string
  dp_ConfigEnc :: string
  dp_ConfigKeys :: "string list"
  dp_CreatedAt :: gotime
  dp_UpdatedAt :: gotime

section \<open>Schedules, audit, snapshots, bans\<close>

record schedule =
  sc_ID :: string
  sc_HostID :: string
  sc_Action :: string
  sc_Cron :: string
  sc_CreatedAt :: gotime

record audit_entry =
  ae_ID :: string
  ae_At :: gotime
  ae_UserID :: string
  ae_UserEmail :: string
  ae_Action :: string
  ae_Target :: string
  ae_Detail :: string

record config_snapshot =
  sn_Version :: int
  sn_JSON :: string
  sn_Hash :: string
  sn_Valid :: bool
  sn_CreatedAt :: gotime

text \<open>\<open>store.Ban\<close> of \<open>internal/store/bans.go\<close>; no expiry means permanent.\<close>

record ban =
  b_IP :: string
  b_Reason :: string
  b_Manual :: bool
  b_Hits :: int
  b_CreatedAt :: gotime
  b_ExpiresAt :: "gotime option"

end
