(* ===== verification/Net.thy ===== *)
theory Net
  imports Prelude
begin

text \<open>
  Internet addresses as the source uses them: \<open>net.ParseIP\<close>, \<open>net.ParseCIDR\<close> and the classification
  methods of \<open>net.IP\<close>, written from the standard library; and \<open>internal/ssrfguard/ssrfguard.go\<close>, which
  decides on them which outbound targets are refused. An \<open>IP\<close> is its 16 bytes, an IPv4 address in its
  mapped form. DNS lookups and URL parsing are parameters.
\<close>

type_synonym ip = "nat list"

section \<open>Parsing addresses\<close>

definition dec_val :: "string \<Rightarrow> nat" where
  "dec_val s = foldl (\<lambda>n c. n * 10 + digit_val c) 0 s"

text \<open>One octet: digits, no leading zero, at most 255.\<close>

definition parse_octet :: "string \<Rightarrow> nat option" where
  "parse_octet s =
     (if s \<noteq> [] \<and> list_all is_digit s \<and> (hd s = CHR ''0'' \<longrightarrow> length s = 1) \<and> length s \<le> 3 \<and> dec_val s \<le> 255
      then Some (dec_val s) else None)"

definition parse_ipv4 :: "string \<Rightarrow> nat list option" where
  "parse_ipv4 s =
     (case map parse_octet (split_on (CHR ''.'') s) of
        [Some a, Some b, Some c, Some d] \<Rightarrow> Some [a, b, c, d]
      | _ \<Rightarrow> None)"

definition hex_val :: "char \<Rightarrow> nat option" where
  "hex_val c =
     (if is_digit c then Some (digit_val c)
      else if 97 \<le> byte_of c \<and> byte_of c \<le> 102 then Some (byte_of c - 87)
      else if 65 \<le> byte_of c \<and> byte_of c \<le> 70 then Some (byte_of c - 55)
      else None)"

definition is_hex :: "char \<Rightarrow> bool" where
  "is_hex c \<longleftrightarrow> hex_val c \<noteq> None"

definition hex_group :: "string \<Rightarrow> nat" where
  "hex_group s = foldl (\<lambda>n c. n * 16 + the (hex_val c)) 0 s"

text \<open>
  The loop of \<open>parseIPv6\<close>: the bytes read, where the ellipsis was seen, the rest. The result is the
  bytes and the ellipsis when the whole string was used.
\<close>

function ipv6_groups :: "nat list \<Rightarrow> nat option \<Rightarrow> string \<Rightarrow> (nat list \<times> nat option) option" where
  "ipv6_groups bs ell s =
     (if 16 \<le> length bs then (if s = [] then Some (bs, ell) else None)
      else
        (let g = takeWhile is_hex s; rest = dropWhile is_hex s; v = hex_group g;
             bs' = bs @ [v div 256, v mod 256] in
         if g = [] \<or> 4 < length g then None
         else
           (case rest of
              [] \<Rightarrow> Some (bs', ell)
            | c # cs \<Rightarrow>
                if c = CHR ''.'' then
                  (if ell = None \<and> length bs \<noteq> 12 \<or> 16 < length bs + 4 then None
                   else map_option (\<lambda>q. (bs @ q, ell)) (parse_ipv4 s))
                else if c \<noteq> CHR '':'' \<or> cs = [] then None
                else if hd cs = CHR '':'' then
                  (if ell \<noteq> None then None
                   else if tl cs = [] then Some (bs', Some (length bs'))
                   else ipv6_groups bs' (Some (length bs')) (tl cs))
                else ipv6_groups bs' ell cs)))"
  by pat_completeness auto
termination
  by (relation "measure (\<lambda>(bs, ell, s). 16 - length bs)") auto

declare ipv6_groups.simps [simp del]

definition parse_ipv6 :: "string \<Rightarrow> nat list option" where
  "parse_ipv6 s =
     (let (ell, s') = (if take 2 s = ''::'' then (Some 0, drop 2 s) else (None, s)) in
      if ell = Some 0 \<and> s' = [] then Some (replicate 16 0)
      else
        (case ipv6_groups [] ell s' of
           None \<Rightarrow> None
         | Some (bs, None) \<Rightarrow> (if length bs = 16 then Some bs else None)
         | Some (bs, Some e) \<Rightarrow>
             (if length bs < 16 then Some (take e bs @ replicate (16 - length bs) 0 @ drop e bs) else None)))"

text \<open>
  \<open>netip.ParseAddr\<close> decides by the first of the bytes dot, colon and percent. An address with a zone is
  refused by both \<open>net.ParseIP\<close> and \<open>net.ParseCIDR\<close>.
\<close>

datatype addr = AddrV4 "nat list" | AddrV6 "nat list"

definition parse_addr :: "string \<Rightarrow> addr option" where
  "parse_addr s =
     (case find (\<lambda>c. c \<in> {CHR ''.'', CHR '':'', CHR 0x25}) s of
        None \<Rightarrow> None
      | Some c \<Rightarrow>
          if c = CHR ''.'' then map_option AddrV4 (parse_ipv4 s)
          else if c = CHR '':'' \<and> CHR 0x25 \<notin> set s then map_option AddrV6 (parse_ipv6 s)
          else None)"

definition as16 :: "addr \<Rightarrow> ip" where
  "as16 a = (case a of AddrV4 q \<Rightarrow> replicate 10 0 @ [255, 255] @ q | AddrV6 bs \<Rightarrow> bs)"

definition ParseIP :: "string \<Rightarrow> ip option" where
  "ParseIP s = map_option as16 (parse_addr s)"

text \<open>\<open>dtoi\<close> on the mask: digits only, at least one.\<close>

definition ParseCIDR :: "string \<Rightarrow> bool" where
  "ParseCIDR s =
     (case split_first (CHR ''/'') s of
        None \<Rightarrow> False
      | Some (a, mk) \<Rightarrow>
          (case parse_addr a of
             None \<Rightarrow> False
           | Some ad \<Rightarrow>
               mk \<noteq> [] \<and> list_all is_digit mk
               \<and> dec_val mk \<le> (case ad of AddrV4 _ \<Rightarrow> 32 | AddrV6 _ \<Rightarrow> 128)))"

section \<open>Classification\<close>

definition to4 :: "ip \<Rightarrow> nat list option" where
  "to4 i = (if take 12 i = replicate 10 0 @ [255, 255] then Some (drop 12 i) else None)"

definition IsLoopback :: "ip \<Rightarrow> bool" where
  "IsLoopback i = (case to4 i of Some q \<Rightarrow> q ! 0 = 127 | None \<Rightarrow> i = replicate 15 0 @ [1])"

definition IsLinkLocalUnicast :: "ip \<Rightarrow> bool" where
  "IsLinkLocalUnicast i =
     (case to4 i of
        Some q \<Rightarrow> q ! 0 = 169 \<and> q ! 1 = 254
      | None \<Rightarrow> length i = 16 \<and> i ! 0 = 254 \<and> i ! 1 div 64 = 2)"

definition IsLinkLocalMulticast :: "ip \<Rightarrow> bool" where
  "IsLinkLocalMulticast i =
     (case to4 i of
        Some q \<Rightarrow> q ! 0 = 224 \<and> q ! 1 = 0 \<and> q ! 2 = 0
      | None \<Rightarrow> length i = 16 \<and> i ! 0 = 255 \<and> i ! 1 mod 16 = 2)"

definition IsInterfaceLocalMulticast :: "ip \<Rightarrow> bool" where
  "IsInterfaceLocalMulticast i \<longleftrightarrow> length i = 16 \<and> i ! 0 = 255 \<and> i ! 1 mod 16 = 1"

definition IsUnspecified :: "ip \<Rightarrow> bool" where
  "IsUnspecified i \<longleftrightarrow> to4 i = Some [0, 0, 0, 0] \<or> i = replicate 16 0"

section \<open>The guard on outbound targets\<close>

definition blocked :: "ip \<Rightarrow> bool" where
  "blocked i \<longleftrightarrow>
     IsLoopback i \<or> IsLinkLocalUnicast i \<or> IsLinkLocalMulticast i
     \<or> IsInterfaceLocalMulticast i \<or> IsUnspecified i"

datatype ssrf_err =
    InvalidURL | NoHost | EmptyHost | DisallowedAddress ip | InvalidDial | NotResolved

text \<open>\<open>CheckHost\<close>; the resolver is \<open>lookup\<close>, None a failed lookup. None is the nil error.\<close>

definition CheckHost :: "(string \<Rightarrow> ip list option) \<Rightarrow> string \<Rightarrow> ssrf_err option" where
  "CheckHost lookup h =
     (let host = trim_cut [CHR ''['', CHR '']''] (trim_space h) in
      if host = [] then Some EmptyHost
      else
        (case ParseIP host of
           Some i \<Rightarrow> map_option DisallowedAddress (find blocked [i])
         | None \<Rightarrow>
             (case lookup host of
                None \<Rightarrow> None
              | Some ips \<Rightarrow> map_option DisallowedAddress (find blocked ips))))"

text \<open>
  \<open>CheckURL\<close>; \<open>parse\<close> stands for \<open>url.Parse\<close> and gives the host with its port and the host name, None a
  parse error.
\<close>

definition CheckURL ::
  "(string \<Rightarrow> (string \<times> string) option) \<Rightarrow> (string \<Rightarrow> ip list option) \<Rightarrow> string \<Rightarrow> ssrf_err option" where
  "CheckURL parse lookup raw =
     (case parse (trim_space raw) of
        None \<Rightarrow> Some InvalidURL
      | Some (host, hostname) \<Rightarrow> if host = [] then Some NoHost else CheckHost lookup hostname)"

text \<open>
  \<open>net.SplitHostPort\<close>: the port follows the last colon; a bracketed host may hold colons, another one
  may not, and brackets occur nowhere else.
\<close>

definition SplitHostPort :: "string \<Rightarrow> (string \<times> string) option" where
  "SplitHostPort hp =
     (case last_index_byte hp (CHR '':'') of
        None \<Rightarrow> None
      | Some i \<Rightarrow>
          if hp \<noteq> [] \<and> hd hp = CHR ''['' then
            (case index_byte hp (CHR '']'') of
               None \<Rightarrow> None
             | Some e \<Rightarrow>
                 if Suc e \<noteq> i then None
                 else if CHR ''['' \<in> set (drop 1 hp) \<or> CHR '']'' \<in> set (drop (Suc e) hp) then None
                 else Some (drop 1 (take e hp), drop (Suc i) hp))
          else if CHR '':'' \<in> set (take i hp) then None
          else if CHR ''['' \<in> set hp \<or> CHR '']'' \<in> set hp then None
          else Some (take i hp, drop (Suc i) hp))"

definition CheckAddr :: "string \<Rightarrow> ssrf_err option" where
  "CheckAddr address =
     (case SplitHostPort address of
        None \<Rightarrow> Some InvalidDial
      | Some (host, _) \<Rightarrow>
          (case ParseIP host of
             None \<Rightarrow> Some NotResolved
           | Some i \<Rightarrow> if blocked i then Some (DisallowedAddress i) else None))"

definition DialControl :: "string \<Rightarrow> ssrf_err option" where
  "DialControl address = CheckAddr address"

section \<open>Facts\<close>

lemma split_on_nonempty: "split_on d s \<noteq> []"
  by (induction s) (auto split: list.split)

lemma split_on_no_sep: "d \<notin> set s \<Longrightarrow> split_on d s = [s]"
  by (induction s) auto

lemma split_on_append: "d \<notin> set s \<Longrightarrow> split_on d (s @ d # t) = s # split_on d t"
  by (induction s) auto

lemma split_on_str_join: "ps \<noteq> [] \<Longrightarrow> \<forall>s \<in> set ps. d \<notin> set s \<Longrightarrow> split_on d (str_join [d] ps) = ps"
proof (induction ps rule: list_nonempty_induct)
  case (single p)
  then show ?case by (simp add: split_on_no_sep)
next
  case (cons p ps)
  then obtain q qs where ps: "ps = q # qs" by (cases ps) auto
  with cons show ?case by (simp add: split_on_append)
qed

lemma foldl_dec_append: "dec_val (s @ [c]) = dec_val s * 10 + digit_val c"
  by (simp add: dec_val_def)

lemma dec_val_show_nat: "dec_val (show_nat n) = n"
proof (induction n rule: show_nat.induct)
  case (1 n)
  show ?case
  proof (cases "n < 10")
    case True
    then show ?thesis by (subst show_nat.simps) (simp add: dec_val_def digit_val_digit_char)
  next
    case False
    with 1 show ?thesis
      by (subst show_nat.simps) (simp add: foldl_dec_append digit_val_digit_char)
  qed
qed

lemma show_nat_small: "n < 10 \<Longrightarrow> show_nat n = [digit_char n]"
  by (subst show_nat.simps) simp

lemma show_nat_big: "10 \<le> n \<Longrightarrow> show_nat n = show_nat (n div 10) @ [digit_char (n mod 10)]"
  by (subst show_nat.simps) simp

lemma hd_show_nat: "0 < n \<Longrightarrow> hd (show_nat n) \<noteq> CHR ''0''"
proof (induction n rule: show_nat.induct)
  case (1 n)
  show ?case
  proof (cases "n < 10")
    case True
    with 1 have "byte_of (digit_char n) \<noteq> 48" by (simp add: of_char_digit_char)
    then have "digit_char n \<noteq> CHR ''0''" by auto
    with True show ?thesis by (simp add: show_nat_small)
  next
    case False
    with 1 show ?thesis using show_nat_nonempty by (simp add: show_nat_big hd_append)
  qed
qed

lemma show_nat_length: "n < 1000 \<Longrightarrow> length (show_nat n) \<le> 3"
  by (cases "n < 10"; cases "n < 100") (simp_all add: show_nat_small show_nat_big)

lemma parse_octet_show: "n < 256 \<Longrightarrow> parse_octet (show_nat n) = Some n"
  using show_nat_nonempty [of n] show_nat_digits [of n] hd_show_nat [of n] show_nat_length [of n]
  by (cases "n = 0")
    (simp_all add: parse_octet_def dec_val_show_nat [unfolded dec_val_def] show_nat_small digit_char_digit dec_val_def
      digit_val_digit_char)

definition dotted :: "nat \<Rightarrow> nat \<Rightarrow> nat \<Rightarrow> nat \<Rightarrow> string" where
  "dotted a b c d = show_nat a @ ''.'' @ show_nat b @ ''.'' @ show_nat c @ ''.'' @ show_nat d"

lemma not_digit_notin: "\<not> is_digit c \<Longrightarrow> c \<notin> set (show_nat n)"
  using show_nat_digits [of n] by (auto simp: list_all_iff)

lemma sep_not_digit: "\<not> is_digit (CHR ''.'')" "\<not> is_digit (CHR '':'')" "\<not> is_digit (CHR 0x25)"
    "\<not> is_digit (CHR ''['')" "\<not> is_digit (CHR '']'')"
  by (simp_all add: is_digit_def)

lemmas show_nat_seps = sep_not_digit [THEN not_digit_notin]

lemma parse_ipv4_dotted:
  assumes "a < 256" "b < 256" "c < 256" "d < 256"
  shows "parse_ipv4 (dotted a b c d) = Some [a, b, c, d]"
  using assms
  by (simp add: parse_ipv4_def dotted_def split_on_append split_on_no_sep show_nat_seps parse_octet_show)

lemma find_after_digits:
  "\<forall>x \<in> set s. \<not> P x \<Longrightarrow> find P (s @ t) = find P t"
  by (induction s) auto

lemma ParseIP_dotted:
  assumes "a < 256" "b < 256" "c < 256" "d < 256"
  shows "ParseIP (dotted a b c d) = Some (replicate 10 0 @ [255, 255, a, b, c, d])"
proof -
  have "find (\<lambda>c. c \<in> {CHR ''.'', CHR '':'', CHR 0x25}) (dotted a b c d) = Some (CHR ''.'')"
    unfolding dotted_def by (subst find_after_digits) (use show_nat_seps in auto)
  then show ?thesis using parse_ipv4_dotted [OF assms] by (simp add: ParseIP_def parse_addr_def as16_def)
qed

lemma last_index_byte_append:
  "last_index_byte (s @ d # t) d = Some (length s)" if "d \<notin> set t"
  using that
proof (induction s)
  case Nil
  then have "last_index_byte t d = None" by (induction t) auto
  then show ?case by simp
qed simp

lemma SplitHostPort_plain:
  assumes "h \<noteq> []" "CHR '':'' \<notin> set h" "CHR ''['' \<notin> set h" "CHR '']'' \<notin> set h"
  shows "SplitHostPort (h @ CHR '':'' # show_nat p) = Some (h, show_nat p)"
proof -
  from assms have "hd (h @ CHR '':'' # show_nat p) \<noteq> CHR ''[''" by (cases h) auto
  with assms show ?thesis
    using last_index_byte_append [OF show_nat_seps(2), of h p] show_nat_seps [of p]
    by (simp add: SplitHostPort_def)
qed

lemma dotted_seps:
  "dotted a b c d \<noteq> []" "CHR '':'' \<notin> set (dotted a b c d)" "CHR ''['' \<notin> set (dotted a b c d)"
  "CHR '']'' \<notin> set (dotted a b c d)"
  using show_nat_seps by (auto simp: dotted_def)

lemma CheckAddr_dotted:
  assumes "a < 256" "b < 256" "c < 256" "d < 256"
  shows "CheckAddr (dotted a b c d @ CHR '':'' # show_nat p) =
    (let i = replicate 10 0 @ [255, 255, a, b, c, d] in if blocked i then Some (DisallowedAddress i) else None)"
  using SplitHostPort_plain [OF dotted_seps, of a b c d p] ParseIP_dotted [OF assms]
  by (simp add: CheckAddr_def Let_def)

lemma blocked_v4:
  "blocked (replicate 10 0 @ [255, 255, a, b, c, d]) \<longleftrightarrow>
    a = 127 \<or> a = 169 \<and> b = 254 \<or> a = 224 \<and> b = 0 \<and> c = 0 \<or> a = 0 \<and> b = 0 \<and> c = 0 \<and> d = 0"
proof -
  let ?i = "replicate 10 0 @ [255, 255, a, b, c, d]"
  have zeros: "replicate 10 (0 :: nat) = [0, 0, 0, 0, 0, 0, 0, 0, 0, 0]" by (simp add: numeral_eq_Suc)
  have "to4 ?i = Some [a, b, c, d]" by (simp add: to4_def)
  moreover have "?i ! 0 = 0" by (simp add: zeros)
  moreover have "?i \<noteq> replicate 16 0"
  proof
    assume "?i = replicate 16 0"
    then have "?i ! 10 = replicate 16 0 ! 10" by (rule arg_cong)
    then show False by (simp add: nth_append nth_replicate del: replicate.simps)
  qed
  ultimately show ?thesis
    unfolding blocked_def IsLoopback_def IsLinkLocalUnicast_def IsLinkLocalMulticast_def
      IsInterfaceLocalMulticast_def IsUnspecified_def
    by (simp del: append_replicate_commute replicate.simps)
qed

text \<open>
  The dial guard on IPv4 targets: for every address and every port, written as the dialer passes
  them, the connection is refused exactly when the address is in 127/8, in 169.254/16 (which holds the
  metadata endpoint), in 224.0.0/24, or unspecified. Private ranges pass.
\<close>

theorem dial_guard_v4:
  assumes "a < 256" "b < 256" "c < 256" "d < 256"
  shows "DialControl (dotted a b c d @ CHR '':'' # show_nat p) \<noteq> None \<longleftrightarrow>
    a = 127 \<or> a = 169 \<and> b = 254 \<or> a = 224 \<and> b = 0 \<and> c = 0 \<or> a = 0 \<and> b = 0 \<and> c = 0 \<and> d = 0"
  using CheckAddr_dotted [OF assms] by (simp add: DialControl_def Let_def blocked_v4 del: replicate.simps)

lemma dial_guard_v4_witness:
  "DialControl (dotted 169 254 169 254 @ CHR '':'' # show_nat 80) \<noteq> None
    \<and> DialControl (dotted 192 168 0 10 @ CHR '':'' # show_nat 443) = None"
  using dial_guard_v4 [of 169 254 169 254 80] dial_guard_v4 [of 192 168 0 10 443] by simp

lemma check_host_literal:
  "ParseIP (trim_cut [CHR ''['', CHR '']''] (trim_space h)) = Some i \<Longrightarrow>
   trim_cut [CHR ''['', CHR '']''] (trim_space h) \<noteq> [] \<Longrightarrow>
   CheckHost lookup h = (if blocked i then Some (DisallowedAddress i) else None)"
  by (simp add: CheckHost_def)

end
