(* ===== verification/Rules.thy ===== *)
theory Rules
  imports Models Net "HOL-Library.Multiset"
begin

text \<open>
  The values that end up inside Traefik rule strings: the checks of
  \<open>internal/traefikcfg/validate.go\<close> that run when a host is saved, and \<open>ruleQuote\<close> and \<open>hostRule\<close> of
  \<open>render.go\<close> that build the rules. The lemmas show that no value can leave its backtick-delimited
  place, whether it was validated or not. Unicode letter and digit tables beyond ASCII and
  \<open>url.ParseRequestURI\<close> are parameters.
\<close>

section \<open>Runes\<close>

text \<open>\<open>for _, r := range s\<close>: UTF-8 decoding, where every byte of an invalid encoding is the rune U+FFFD.\<close>

definition cont :: "nat \<Rightarrow> bool" where
  "cont b \<longleftrightarrow> 128 \<le> b \<and> b \<le> 191"

fun decode_rune :: "nat list \<Rightarrow> nat \<times> nat" where
  "decode_rune [] = (0xFFFD, 0)"
| "decode_rune (a # bs) =
     (if a < 128 then (a, 1)
      else if 0xC2 \<le> a \<and> a \<le> 0xDF then
        (case bs of
           b # _ \<Rightarrow> if cont b then ((a - 0xC0) * 64 + (b - 128), 2) else (0xFFFD, 1)
         | _ \<Rightarrow> (0xFFFD, 1))
      else if 0xE0 \<le> a \<and> a \<le> 0xEF then
        (case bs of
           b # c # _ \<Rightarrow>
             if cont b \<and> cont c \<and> (a = 0xE0 \<longrightarrow> 0xA0 \<le> b) \<and> (a = 0xED \<longrightarrow> b \<le> 0x9F)
             then ((a - 0xE0) * 4096 + (b - 128) * 64 + (c - 128), 3) else (0xFFFD, 1)
         | _ \<Rightarrow> (0xFFFD, 1))
      else if 0xF0 \<le> a \<and> a \<le> 0xF4 then
        (case bs of
           b # c # d # _ \<Rightarrow>
             if cont b \<and> cont c \<and> cont d \<and> (a = 0xF0 \<longrightarrow> 0x90 \<le> b) \<and> (a = 0xF4 \<longrightarrow> b \<le> 0x8F)
             then ((a - 0xF0) * 262144 + (b - 128) * 4096 + (c - 128) * 64 + (d - 128), 4)
             else (0xFFFD, 1)
         | _ \<Rightarrow> (0xFFFD, 1))
      else (0xFFFD, 1))"

lemma decode_rune_width: "0 < snd (decode_rune (a # bs)) \<and> snd (decode_rune (a # bs)) \<le> Suc (length bs)"
  by (auto split: list.split)

declare decode_rune.simps(2) [simp del]

function runes_of :: "nat list \<Rightarrow> nat list" where
  "runes_of bs =
     (case bs of
        [] \<Rightarrow> []
      | a # as \<Rightarrow> fst (decode_rune (a # as)) # runes_of (drop (snd (decode_rune (a # as)) - 1) as))"
  by pat_completeness auto
termination by (relation "measure length") auto

declare runes_of.simps [simp del]

definition runes :: "string \<Rightarrow> nat list" where
  "runes s = runes_of (map of_char s)"

text \<open>The bytes a rune takes after its first are no ASCII.\<close>

lemma decode_rune_tail:
  assumes "\<not> a < 128" "x \<in> set (take (snd (decode_rune (a # bs)) - 1) bs)"
  shows "128 \<le> x"
proof (cases bs)
  case Nil
  with assms(2) show ?thesis by simp
next
  case (Cons b cs)
  show ?thesis
  proof (cases cs)
    case Nil
    with assms Cons show ?thesis by (simp add: decode_rune.simps(2) cont_def split: if_splits)
  next
    case cs: (Cons c ds)
    show ?thesis
      using assms unfolding Cons cs decode_rune.simps(2) cont_def by (cases ds) (simp_all split: if_splits; auto)+
  qed
qed

lemma decode_ascii_skip:
  assumes "c < 128" "c \<in> set (take (snd (decode_rune (a # bs))) (a # bs))"
  shows "c = fst (decode_rune (a # bs))"
proof (cases "a < 128")
  case True
  with assms show ?thesis by (simp add: decode_rune.simps(2))
next
  case False
  let ?ok = "\<forall>x \<in> set (take (snd (decode_rune (a # bs)) - 1) bs). 128 \<le> x"
  have ?ok using decode_rune_tail [OF False] by blast
  moreover have "take (snd (decode_rune (a # bs))) (a # bs) = a # take (snd (decode_rune (a # bs)) - 1) bs"
    using decode_rune_width [of a bs] by (cases "snd (decode_rune (a # bs))") auto
  ultimately show ?thesis using assms False by auto
qed

text \<open>An ASCII byte of a string is one of its runes: it is never hidden inside a longer encoding.\<close>

lemma ascii_byte_is_rune: "c < 128 \<Longrightarrow> c \<in> set bs \<Longrightarrow> c \<in> set (runes_of bs)"
proof (induction bs rule: runes_of.induct)
  case (1 bs)
  show ?case
  proof (cases bs)
    case (Cons a as)
    let ?w = "snd (decode_rune (a # as))"
    have w: "drop ?w (a # as) = drop (?w - 1) as"
      using decode_rune_width [of a as] by (cases ?w) auto
    from 1(3) Cons have "c \<in> set (take ?w (a # as)) \<union> set (drop ?w (a # as))"
      by (metis append_take_drop_id set_append)
    then show ?thesis
    proof
      assume "c \<in> set (take ?w (a # as))"
      with decode_ascii_skip 1(2) Cons show ?thesis by (subst runes_of.simps) auto
    next
      assume "c \<in> set (drop ?w (a # as))"
      with 1 Cons w show ?thesis by (subst runes_of.simps) auto
    qed
  qed (use 1 in simp)
qed

lemma rune_of_ascii_char: "is_ascii c \<Longrightarrow> c \<in> set s \<Longrightarrow> byte_of c \<in> set (runes s)"
  unfolding runes_def is_ascii_def by (rule ascii_byte_is_rune) auto

section \<open>Checks on saved values\<close>

text \<open>
  \<open>unicode.IsLetter(r) || unicode.IsDigit(r)\<close>: the ASCII part written out, \<open>uni\<close> the tables for the other
  code points, which hold neither U+FFFD nor a space.
\<close>

definition letter_or_digit :: "(nat \<Rightarrow> bool) \<Rightarrow> nat \<Rightarrow> bool" where
  "letter_or_digit uni r =
     (if r < 128 then 48 \<le> r \<and> r \<le> 57 \<or> 65 \<le> r \<and> r \<le> 90 \<or> 97 \<le> r \<and> r \<le> 122 else uni r)"

definition IsSpace :: "nat \<Rightarrow> bool" where
  "IsSpace r \<longleftrightarrow> r \<in> {9, 10, 11, 12, 13, 32, 0x85, 0xA0, 0x1680, 0x2028, 0x2029, 0x202F, 0x205F, 0x3000}
     \<or> 0x2000 \<le> r \<and> r \<le> 0x200A"

definition validDomain :: "(nat \<Rightarrow> bool) \<Rightarrow> string \<Rightarrow> bool" where
  "validDomain uni d \<longleftrightarrow>
     trim_space d \<noteq> []
     \<and> list_all (\<lambda>r. letter_or_digit uni r \<or> r \<in> {46, 45, 95, 42}) (runes d)"

definition validPathPrefix :: "string \<Rightarrow> bool" where
  "validPathPrefix p \<longleftrightarrow>
     has_prefix p ''/'' \<and> list_all (\<lambda>r. \<not> (r = 0x60 \<or> r < 0x20 \<or> IsSpace r)) (runes p)"

text \<open>A \<open>ValidationIssue\<close>: field and message.\<close>

datatype issue = Issue string string

abbreviation em_dash :: string where
  "em_dash \<equiv> [CHR 0xE2, CHR 0x80, CHR 0x94]"

definition domain_issues :: "(nat \<Rightarrow> bool) \<Rightarrow> nat \<times> string \<Rightarrow> issue list" where
  "domain_issues uni = (\<lambda>(i, d).
     if d = [] \<or> validDomain uni d then []
     else [Issue (''domains['' @ show_nat i @ '']'')
            (''invalid domain '' @ em_dash @ '' letters, digits, '' @ [CHR 0x27] @ ''.'' @ [CHR 0x27]
             @ '', '' @ [CHR 0x27] @ ''-'' @ [CHR 0x27] @ '', '' @ [CHR 0x27] @ ''_'' @ [CHR 0x27]
             @ '' and '' @ [CHR 0x27] @ ''*'' @ [CHR 0x27] @ '' only'')])"

definition path_issues :: "nat \<times> string \<Rightarrow> issue list" where
  "path_issues = (\<lambda>(i, p).
     if p = [] \<or> validPathPrefix p then []
     else [Issue (''locations['' @ show_nat i @ ''].pathPrefix'')
            (''path must start with '' @ [CHR 0x27] @ ''/'' @ [CHR 0x27]
             @ '' and contain no backticks or whitespace'')])"

definition ValidateRuleInputs :: "(nat \<Rightarrow> bool) \<Rightarrow> string list \<Rightarrow> string list \<Rightarrow> issue list" where
  "ValidateRuleInputs uni domains pathPrefixes =
     concat (map (domain_issues uni) (enumerate 0 domains))
     @ concat (map path_issues (enumerate 0 pathPrefixes))"

definition allow_ip_ok :: "string \<Rightarrow> bool" where
  "allow_ip_ok c \<longleftrightarrow> ParseIP c \<noteq> None \<or> ParseCIDR c"

fun ParseAllowIPs :: "string list \<Rightarrow> string list \<times> string list" where
  "ParseAllowIPs [] = ([], [])"
| "ParseAllowIPs (s # rest) =
     (let c = trim_space s; (valid, invalid) = ParseAllowIPs rest in
      if c = [] then (valid, invalid)
      else if ParseIP c \<noteq> None then (c # valid, invalid)
      else if ParseCIDR c then (c # valid, invalid)
      else (valid, c # invalid))"

definition upstream_issues :: "nat \<times> upstream \<Rightarrow> issue list" where
  "upstream_issues = (\<lambda>(i, u).
     (if u_Host u = [] then [Issue (''upstreams['' @ show_nat i @ ''].host'') ''host is required''] else [])
     @ (if u_Scheme u \<notin> {[], ''http'', ''https'', ''h2c''}
        then [Issue (''upstreams['' @ show_nat i @ ''].scheme'') ''scheme must be http, https, or h2c'']
        else []))"

definition ValidateHostInputs ::
  "(string \<Rightarrow> bool) \<Rightarrow> string \<Rightarrow> string list \<Rightarrow> upstream list \<Rightarrow> string \<Rightarrow> issue list" where
  "ValidateHostInputs uri_ok kind domains upstreams redirectTo =
     (if kind = ''proxy'' then
        (if domains = [] then [Issue ''domains'' ''at least one domain is required''] else [])
        @ (if upstreams = [] then [Issue ''upstreams'' ''at least one upstream is required''] else [])
        @ concat (map upstream_issues (enumerate 0 upstreams))
      else if kind = ''redirection'' then
        (if domains = [] then [Issue ''domains'' ''at least one domain is required''] else [])
        @ (if redirectTo = [] then [Issue ''redirectTo'' ''redirect target is required'']
           else if \<not> uri_ok redirectTo then [Issue ''redirectTo'' ''must be a valid absolute URL'']
           else [])
      else [])"

lemma validDomain_no_bq: "validDomain uni d \<Longrightarrow> bq \<notin> set d"
  using rune_of_ascii_char [of bq d]
  by (auto simp: validDomain_def list_all_iff letter_or_digit_def is_ascii_def dest!: bspec [of _ _ 96])

lemma validPathPrefix_no_bq: "validPathPrefix p \<Longrightarrow> bq \<notin> set p"
  using rune_of_ascii_char [of bq p] by (auto simp: validPathPrefix_def list_all_iff is_ascii_def)

lemma all_enumerate: "(\<forall>p \<in> set (enumerate n xs). P (snd p)) \<longleftrightarrow> (\<forall>x \<in> set xs. P x)"
  by (induction xs arbitrary: n) simp_all

lemma ValidateRuleInputs_ok:
  "ValidateRuleInputs uni ds ps = [] \<longleftrightarrow>
    (\<forall>d \<in> set ds. d \<noteq> [] \<longrightarrow> validDomain uni d) \<and> (\<forall>p \<in> set ps. p \<noteq> [] \<longrightarrow> validPathPrefix p)"
proof -
  have "domain_issues uni p = [] \<longleftrightarrow> (snd p \<noteq> [] \<longrightarrow> validDomain uni (snd p))"
    and "path_issues p = [] \<longleftrightarrow> (snd p \<noteq> [] \<longrightarrow> validPathPrefix (snd p))" for p
    by (auto simp: domain_issues_def path_issues_def split_beta)
  then show ?thesis
    using all_enumerate [of 0 ds "\<lambda>d. d \<noteq> [] \<longrightarrow> validDomain uni d"]
      all_enumerate [of 0 ps "\<lambda>p. p \<noteq> [] \<longrightarrow> validPathPrefix p"]
    by (simp add: ValidateRuleInputs_def concat_eq_Nil_conv)
qed

lemma ParseAllowIPs_filter:
  "ParseAllowIPs ss =
    (let cs = filter (\<lambda>c. c \<noteq> []) (map trim_space ss) in
     (filter allow_ip_ok cs, filter (\<lambda>c. \<not> allow_ip_ok c) cs))"
  by (induction ss) (auto simp: Let_def allow_ip_ok_def split: prod.splits)

section \<open>Building rules\<close>

definition ruleQuote :: "string \<Rightarrow> string" where
  "ruleQuote s = filter (\<lambda>c. c \<noteq> bq) s"

definition matcher :: "string \<Rightarrow> string \<Rightarrow> string" where
  "matcher name v = name @ ''('' @ [bq] @ ruleQuote v @ [bq] @ '')''"

definition hostRule :: "string list \<Rightarrow> string" where
  "hostRule domains =
     (if domains = [] then ''PathPrefix('' @ [bq] @ ''/'' @ [bq] @ '')''
      else str_join '' || '' (sort (map (matcher ''Host'') domains)))"

definition mwName :: "middleware \<Rightarrow> string" where
  "mwName m = ''mw-'' @ mw_ID m"

lemma ruleQuote_no_bq: "bq \<notin> set (ruleQuote s)"
  by (simp add: ruleQuote_def)

lemma ruleQuote_id: "bq \<notin> set s \<Longrightarrow> ruleQuote s = s"
  by (auto simp: ruleQuote_def filter_id_conv)

text \<open>
  A rule alternates between structure and backtick-delimited values. \<open>rule_parts\<close> separates the two
  the way Traefik's rule lexer does: it splits at the backticks.
\<close>

fun evens :: "'a list \<Rightarrow> 'a list" where
  "evens [] = []"
| "evens [x] = [x]"
| "evens (x # y # zs) = x # evens zs"

definition odds :: "'a list \<Rightarrow> 'a list" where
  "odds xs = (case xs of [] \<Rightarrow> [] | _ # ys \<Rightarrow> evens ys)"

definition rule_structure :: "string \<Rightarrow> string list" where
  "rule_structure r = evens (split_on bq r)"

definition rule_values :: "string \<Rightarrow> string list" where
  "rule_values r = odds (split_on bq r)"

lemma split_value: "bq \<notin> set a \<Longrightarrow> bq \<notin> set v \<Longrightarrow>
    split_on bq (a @ [bq] @ v @ [bq] @ t) = a # v # split_on bq t"
  by (simp add: split_on_append)

lemma evens_Cons2 [simp]: "xs \<noteq> [] \<Longrightarrow> odds (x # y # xs) = y # odds xs"
  by (cases xs) (auto simp: odds_def)

lemma split_on_prepend: "bq \<notin> set a \<Longrightarrow> split_on bq (a @ t) = (a @ hd (split_on bq t)) # tl (split_on bq t)"
  using split_on_nonempty [of bq t] by (induction a) (auto split: list.split)

text \<open>The skeleton of a disjunction of n matchers: what a rule without any value injected looks like.\<close>

definition or_skeleton :: "string \<Rightarrow> nat \<Rightarrow> string list" where
  "or_skeleton name n = (name @ ''('') # replicate (n - 1) ('') || '' @ name @ ''('') @ [ '')'']"

lemma join_matchers:
  assumes "bq \<notin> set name" "vs \<noteq> []"
  shows "split_on bq (str_join '' || '' (map (matcher name) vs)) =
    (name @ ''('') # concat (map (\<lambda>v. [ruleQuote v, '') || '' @ name @ ''('']) (butlast vs))
      @ [ruleQuote (last vs), '')'']"
  using assms(2,1)
proof (induction vs rule: list_nonempty_induct)
  case (single v)
  then show ?case
    using ruleQuote_no_bq split_value [of "name @ ''(''" "ruleQuote v" "'')''"] by (simp add: matcher_def)
next
  case (cons v vs)
  obtain w ws where vs: "vs = w # ws" using cons.hyps by (cases vs) auto
  let ?rest = "str_join '' || '' (map (matcher name) vs)"
  have "str_join '' || '' (map (matcher name) (v # vs)) =
      (name @ ''('') @ [bq] @ ruleQuote v @ [bq] @ ('') || '' @ ?rest)"
    by (simp add: vs matcher_def)
  moreover have "split_on bq ('') || '' @ ?rest) =
      ('') || '' @ hd (split_on bq ?rest)) # tl (split_on bq ?rest)"
    by (rule split_on_prepend) simp
  ultimately show ?case
    using cons ruleQuote_no_bq [of v] split_value [of "name @ ''(''" "ruleQuote v"] by simp
qed

lemma evens_pairs:
  "evens (s # concat (map (\<lambda>v. [f v, g]) vs) @ [x, e]) = s # replicate (length vs) g @ [e]"
  "odds (s # concat (map (\<lambda>v. [f v, g]) vs) @ [x, e]) = map f vs @ [x]"
  by (induction vs arbitrary: s) (simp_all add: odds_def)

lemma join_structure:
  assumes "bq \<notin> set name" "vs \<noteq> []"
  shows "rule_structure (str_join '' || '' (map (matcher name) vs)) = or_skeleton name (length vs)"
    and "rule_values (str_join '' || '' (map (matcher name) vs)) = map ruleQuote vs"
proof -
  show "rule_structure (str_join '' || '' (map (matcher name) vs)) = or_skeleton name (length vs)"
    using join_matchers [OF assms] evens_pairs(1) [where vs = "butlast vs"]
    by (simp add: rule_structure_def or_skeleton_def)
  have "rule_values (str_join '' || '' (map (matcher name) vs)) = map ruleQuote (butlast vs) @ [ruleQuote (last vs)]"
    using join_matchers [OF assms] evens_pairs(2) [where vs = "butlast vs"] by (simp add: rule_values_def)
  also have "\<dots> = map ruleQuote vs" using assms(2) by (metis append_butlast_last_id list.simps(8,9) map_append)
  finally show "rule_values (str_join '' || '' (map (matcher name) vs)) = map ruleQuote vs" .
qed

lemma sort_map: "sort (map f xs) = map f (sort_key f xs)"
  by (rule properties_for_sort) simp_all

lemma hostRule_join: "ds \<noteq> [] \<Longrightarrow>
    hostRule ds = str_join '' || '' (map (matcher ''Host'') (sort_key (matcher ''Host'') ds))"
  by (simp add: hostRule_def sort_map)

text \<open>
  C4: No rule injection: whatever the domains of a host contain, backticks and rule operators
  included, the rule built from them is a disjunction of exactly as many Host matchers as there are
  domains, whose values are the domains without backticks. And for domains that pass the save-time
  check nothing is stripped.
\<close>

theorem hostRule_no_injection:
  assumes "ds \<noteq> []"
  shows "rule_structure (hostRule ds) = or_skeleton ''Host'' (length ds)
    \<and> mset (rule_values (hostRule ds)) = mset (map ruleQuote ds)
    \<and> (ValidateRuleInputs uni ds [] = [] \<longrightarrow> mset (rule_values (hostRule ds)) = mset ds)"
proof -
  have ne: "sort_key (matcher ''Host'') ds \<noteq> []" using assms by (metis length_0_conv length_sort)
  have q: "mset (rule_values (hostRule ds)) = image_mset ruleQuote (mset ds)"
    using join_structure(2) [OF _ ne] hostRule_join [OF assms] by simp
  moreover have "rule_structure (hostRule ds) = or_skeleton ''Host'' (length ds)"
    using join_structure(1) [OF _ ne] hostRule_join [OF assms] by simp
  moreover have "image_mset ruleQuote (mset ds) = mset ds" if "ValidateRuleInputs uni ds [] = []"
  proof -
    have "bq \<notin> set d" if "d \<in> set ds" for d
      using that \<open>ValidateRuleInputs uni ds [] = []\<close>
      by (cases "d = []") (auto simp: ValidateRuleInputs_ok dest: validDomain_no_bq)
    then have "map ruleQuote ds = ds" by (simp add: map_idI ruleQuote_id)
    then show ?thesis by (metis mset_map)
  qed
  ultimately show ?thesis by simp
qed

definition evil_domains :: "string list" where
  "evil_domains = [''b.org'', ''a`) || PathPrefix(`/'']"

lemma hostRule_no_injection_witness:
  "rule_structure (hostRule evil_domains) = or_skeleton ''Host'' 2"
proof -
  have "evil_domains \<noteq> []" "length evil_domains = 2" by (simp_all add: evil_domains_def)
  with hostRule_no_injection [of evil_domains] show ?thesis by simp
qed

end
