(* ===== verification/Dyn.thy ===== *)
theory Dyn
  imports Rules
begin

text \<open>
  The dynamic configuration: the part of Traefik's \<open>dynamic\<close> and \<open>tls\<close> packages the renderer fills in,
  and the checks of \<open>internal/traefikcfg/validate.go\<close> on parsed configurations. A Go map of pointers is
  an association list of options, a nil pointer None. Traefik's decoders, the YAML decoder, JSON
  encoding and SHA-256 are the fields of \<open>libs\<close>.
\<close>

section \<open>Traefik's structures\<close>

record server =
  sv_URL :: string
  sv_Weight :: "int option"

record cookie =
  ck_Name :: string
  ck_HTTPOnly :: bool
  ck_Secure :: bool
  ck_SameSite :: string

record servers_lb =
  lb_Servers :: "server list"
  lb_PassHostHeader :: "bool option"
  lb_Strategy :: string
  lb_HealthCheck :: "string option"
  lb_Sticky :: "cookie option"

record wrr =
  wrr_Services :: "(string \<times> int) list"
  wrr_Sticky :: "cookie option"

text \<open>A failover's service and fallback; a mirroring's service and its mirrors with their percentages.\<close>

record dyn_service =
  svc_LoadBalancer :: "servers_lb option"
  svc_Weighted :: "wrr option"
  svc_Failover :: "(string \<times> string) option"
  svc_Mirroring :: "(string \<times> (string \<times> int) list) option"

definition zero_service :: dyn_service where
  "zero_service = \<lparr>svc_LoadBalancer = None, svc_Weighted = None, svc_Failover = None, svc_Mirroring = None\<rparr>"

definition lb_service :: "servers_lb \<Rightarrow> dyn_service" where
  "lb_service lb = zero_service\<lparr>svc_LoadBalancer := Some lb\<rparr>"

definition one_server :: "string \<Rightarrow> bool option \<Rightarrow> servers_lb" where
  "one_server url pass = \<lparr>lb_Servers = [\<lparr>sv_URL = url, sv_Weight = None\<rparr>], lb_PassHostHeader = pass,
     lb_Strategy = [], lb_HealthCheck = None, lb_Sticky = None\<rparr>"

record headers =
  hd_CustomRequestHeaders :: "(string \<times> string) list"
  hd_CustomResponseHeaders :: "(string \<times> string) list"
  hd_STSSeconds :: "int option"
  hd_STSIncludeSubdomains :: bool
  hd_STSPreload :: bool
  hd_AllowOriginList :: "string list"
  hd_AllowMethods :: "string list"
  hd_AllowHeaders :: "string list"
  hd_AllowCredentials :: bool
  hd_MaxAge :: int
  hd_AddVaryHeader :: bool

definition zero_headers :: headers where
  "zero_headers = \<lparr>hd_CustomRequestHeaders = [], hd_CustomResponseHeaders = [], hd_STSSeconds = None,
     hd_STSIncludeSubdomains = False, hd_STSPreload = False, hd_AllowOriginList = [],
     hd_AllowMethods = [], hd_AllowHeaders = [], hd_AllowCredentials = False, hd_MaxAge = 0,
     hd_AddVaryHeader = False\<rparr>"

text \<open>The middlewares the renderer makes; \<open>MwDecoded\<close> is one a user wrote, kept as its JSON.\<close>

datatype dyn_middleware =
    MwBasicAuth "string list"
  | MwIPAllowList "string list"
  | MwHeaders headers
  | MwReplacePath string
  | MwErrors "string list" string string
  | MwRedirectScheme string bool
  | MwRedirectRegex string string bool
  | MwStripPrefix "string list"
  | MwDecoded json

text \<open>A router's TLS section is None when absent and Some of its content, empty for \<open>RouterTLSConfig{}\<close>.\<close>

record router =
  rt_EntryPoints :: "string list"
  rt_Middlewares :: "string list"
  rt_Service :: string
  rt_Rule :: string
  rt_Priority :: int
  rt_TLS :: "string option"

record tcp_router =
  tr_EntryPoints :: "string list"
  tr_Service :: string
  tr_Rule :: string
  tr_Priority :: int
  tr_Passthrough :: "bool option"

record udp_router =
  ur_EntryPoints :: "string list"
  ur_Service :: string

type_synonym 'a ptr_map = "(string, 'a option) gomap"

record http_section =
  hs_Routers :: "router ptr_map"
  hs_Services :: "dyn_service ptr_map"
  hs_Middlewares :: "dyn_middleware ptr_map"

text \<open>A TCP or UDP service is the list of its servers' addresses.\<close>

record tcp_section =
  ts_Routers :: "tcp_router ptr_map"
  ts_Services :: "string list ptr_map"

record udp_section =
  us_Routers :: "udp_router ptr_map"
  us_Services :: "string list ptr_map"

record tls_section =
  ls_Certificates :: "(string \<times> string) list"
  ls_Options :: "(string, string) gomap"
  ls_Stores :: "(string, string) gomap"

record dyn_config =
  dc_HTTP :: "http_section option"
  dc_TCP :: "tcp_section option"
  dc_UDP :: "udp_section option"
  dc_TLS :: "tls_section option"

section \<open>Code outside the repository\<close>

text \<open>
  \<open>lib_decode_mw\<close> strictly decodes a middleware object, \<open>lib_yaml\<close> a YAML document with known fields
  only, \<open>lib_json\<close> and \<open>lib_sha\<close> are \<open>json.Marshal\<close> and the hexadecimal SHA-256, and \<open>lib_recode\<close> is the
  error of decoding an encoded configuration strictly.
\<close>

record libs =
  lib_decode_mw :: "json \<Rightarrow> string + dyn_middleware"
  lib_yaml :: "string \<Rightarrow> string + dyn_config"
  lib_json :: "dyn_config \<Rightarrow> string + string"
  lib_recode :: "string \<Rightarrow> string option"
  lib_sha :: "string \<Rightarrow> string"

section \<open>Checks on configurations\<close>

definition humanizeJSONErr :: "string \<Rightarrow> string" where
  "humanizeJSONErr msg = trim_prefix msg ''json: ''"

definition strictDecodeMiddleware :: "libs \<Rightarrow> json \<Rightarrow> string + dyn_middleware" where
  "strictDecodeMiddleware L raw =
     (case lib_decode_mw L raw of Inl e \<Rightarrow> Inl (humanizeJSONErr e) | Inr mw \<Rightarrow> Inr mw)"

definition BuildMiddleware :: "libs \<Rightarrow> string \<Rightarrow> (string \<times> json) list \<Rightarrow> string + dyn_middleware" where
  "BuildMiddleware L mwType params =
     (if mwType = [] then Inl ''middleware type is required''
      else (case strictDecodeMiddleware L (JObj [(mwType, JObj params)]) of
              Inl e \<Rightarrow> Inl (''invalid '' @ mwType @ '' middleware: '' @ e)
            | Inr mw \<Rightarrow> Inr mw))"

definition ValidateMiddleware :: "libs \<Rightarrow> string \<Rightarrow> (string \<times> json) list \<Rightarrow> issue list" where
  "ValidateMiddleware L mwType params =
     (case BuildMiddleware L mwType params of Inl e \<Rightarrow> [Issue mwType e] | Inr _ \<Rightarrow> [])"

definition ValidateConfig :: "libs \<Rightarrow> dyn_config \<Rightarrow> string option" where
  "ValidateConfig L cfg =
     (case lib_json L cfg of Inl e \<Rightarrow> Some e | Inr raw \<Rightarrow> map_option humanizeJSONErr (lib_recode L raw))"

definition ReservedRouterPriority :: int where
  "ReservedRouterPriority = 1000000"

definition reserved_msg :: "string \<Rightarrow> string \<Rightarrow> int \<Rightarrow> string" where
  "reserved_msg kind name p =
     kind @ '' '' @ [CHR 0x22] @ name @ [CHR 0x22] @ '': priority '' @ show_int p
       @ '' is reserved for xgress system routers; use a value below 1000000''"

fun first_reserved :: "string \<Rightarrow> ('r \<Rightarrow> int) \<Rightarrow> 'r ptr_map \<Rightarrow> string option" where
  "first_reserved kind prio [] = None"
| "first_reserved kind prio ((name, None) # m) = first_reserved kind prio m"
| "first_reserved kind prio ((name, Some r) # m) =
     (if prio r \<ge> ReservedRouterPriority then Some (reserved_msg kind name (prio r))
      else first_reserved kind prio m)"

definition checkReservedPriorities :: "dyn_config \<Rightarrow> string option" where
  "checkReservedPriorities cfg =
     (case (case dc_HTTP cfg of Some s \<Rightarrow> first_reserved ''router'' rt_Priority (hs_Routers s) | None \<Rightarrow> None) of
        Some e \<Rightarrow> Some e
      | None \<Rightarrow>
          (case dc_TCP cfg of Some s \<Rightarrow> first_reserved ''tcp router'' tr_Priority (ts_Routers s) | None \<Rightarrow> None))"

definition ParseRawConfig :: "libs \<Rightarrow> string \<Rightarrow> string + dyn_config option" where
  "ParseRawConfig L rawYAML =
     (if trim_space rawYAML = [] then Inr None
      else
        (case lib_yaml L rawYAML of
           Inl e \<Rightarrow> Inl (''invalid config: '' @ humanizeJSONErr e)
         | Inr cfg \<Rightarrow>
             (case ValidateConfig L cfg of
                Some e \<Rightarrow> Inl e
              | None \<Rightarrow>
                  (case checkReservedPriorities cfg of
                     Some e \<Rightarrow> Inl e
                   | None \<Rightarrow> Inr (Some cfg)))))"

text \<open>
  \<open>CheckRawServiceTargets\<close>: the first load-balancer server whose URL the guard refuses. Nil services
  and services without a load balancer are skipped, as are servers without a URL.
\<close>

definition service_urls :: "dyn_service option \<Rightarrow> string list" where
  "service_urls svc =
     (case svc of
        None \<Rightarrow> []
      | Some s \<Rightarrow> (case svc_LoadBalancer s of None \<Rightarrow> [] | Some lb \<Rightarrow> filter (\<lambda>u. u \<noteq> []) (map sv_URL (lb_Servers lb))))"

definition CheckRawServiceTargets :: "(string \<Rightarrow> ssrf_err option) \<Rightarrow> dyn_config option \<Rightarrow> (string \<times> ssrf_err) option" where
  "CheckRawServiceTargets check cfg =
     (case cfg of
        None \<Rightarrow> None
      | Some cfg \<Rightarrow>
          (case dc_HTTP cfg of
             None \<Rightarrow> None
           | Some s \<Rightarrow>
               (case concat (map (\<lambda>(name, svc). List.map_filter (\<lambda>u. map_option (Pair name) (check u)) (service_urls svc))
                       (hs_Services s)) of
                  [] \<Rightarrow> None
                | e # _ \<Rightarrow> Some e)))"

lemma first_reserved_None:
  "first_reserved kind prio m = None \<Longrightarrow> (n, Some r) \<in> set m \<Longrightarrow> prio r < ReservedRouterPriority"
  by (induction kind prio m rule: first_reserved.induct) (auto split: if_splits)

lemma checkReservedPriorities_ok:
  assumes "checkReservedPriorities cfg = None"
  shows "dc_HTTP cfg = Some s \<Longrightarrow> (n, Some r) \<in> set (hs_Routers s) \<Longrightarrow> rt_Priority r < ReservedRouterPriority"
    and "dc_TCP cfg = Some t \<Longrightarrow> (n, Some q) \<in> set (ts_Routers t) \<Longrightarrow> tr_Priority q < ReservedRouterPriority"
  using assms
  by (auto simp: checkReservedPriorities_def split: option.splits dest: first_reserved_None)

lemma ParseRawConfig_reserved:
  "ParseRawConfig L y = Inr (Some cfg) \<Longrightarrow> checkReservedPriorities cfg = None \<and> lib_yaml L y = Inr cfg"
  by (auto simp: ParseRawConfig_def split: if_splits sum.splits option.splits)

end
