(* ===== verification/Render.thy ===== *)
theory Render
  imports Dyn
begin

text \<open>
  \<open>internal/traefikcfg/render.go\<close>: from the database state to the dynamic configuration Traefik polls.
  Each step of \<open>Render\<close> and each function it calls is a definition that takes the configuration built
  so far and returns it extended, in the order of the source.
\<close>

section \<open>Inputs and the configuration under construction\<close>

record entry_points =
  ep_HTTP :: string
  ep_HTTPS :: string

record inputs =
  in_Hosts :: "host list"
  in_Middlewares :: "middleware list"
  in_Certificates :: "certificate list"
  in_AccessLists :: "access_list list"
  in_EntryPoints :: entry_points
  in_ChallengeBackend :: string
  in_ContentBackend :: string
  in_DefaultSiteEnabled :: bool
  in_RawConfig :: "dyn_config option"
  in_WAFEnabled :: bool
  in_CacheEnabled :: bool
  in_CacheBackend :: string
  in_CacheToken :: string
  in_ExternalCerts :: "(string \<times> string) list"
  in_BannedIPs :: "string list"

record cfg_build =
  cb_Routers :: "router ptr_map"
  cb_Services :: "dyn_service ptr_map"
  cb_Middlewares :: "dyn_middleware ptr_map"
  cb_TCPRouters :: "tcp_router ptr_map"
  cb_TCPServices :: "string list ptr_map"
  cb_UDPRouters :: "udp_router ptr_map"
  cb_UDPServices :: "string list ptr_map"
  cb_Certs :: "(string \<times> string) list"
  cb_Options :: "(string, string) gomap"
  cb_Stores :: "(string, string) gomap"

definition empty_cfg :: cfg_build where
  "empty_cfg = \<lparr>cb_Routers = [], cb_Services = [], cb_Middlewares = [], cb_TCPRouters = [],
     cb_TCPServices = [], cb_UDPRouters = [], cb_UDPServices = [], cb_Certs = [], cb_Options = [],
     cb_Stores = []\<rparr>"

definition put_router :: "string \<Rightarrow> router \<Rightarrow> cfg_build \<Rightarrow> cfg_build" where
  "put_router n r cfg = cfg\<lparr>cb_Routers := mput n (Some r) (cb_Routers cfg)\<rparr>"

definition put_service :: "string \<Rightarrow> dyn_service \<Rightarrow> cfg_build \<Rightarrow> cfg_build" where
  "put_service n s cfg = cfg\<lparr>cb_Services := mput n (Some s) (cb_Services cfg)\<rparr>"

definition put_mw :: "string \<Rightarrow> dyn_middleware \<Rightarrow> cfg_build \<Rightarrow> cfg_build" where
  "put_mw n m cfg = cfg\<lparr>cb_Middlewares := mput n (Some m) (cb_Middlewares cfg)\<rparr>"

definition mk_router :: "string \<Rightarrow> string \<Rightarrow> string list \<Rightarrow> string list \<Rightarrow> int \<Rightarrow> bool \<Rightarrow> router" where
  "mk_router rule svc eps mws prio tls = \<lparr>rt_EntryPoints = eps, rt_Middlewares = mws, rt_Service = svc,
     rt_Rule = rule, rt_Priority = prio, rt_TLS = (if tls then Some [] else None)\<rparr>"

abbreviation cacheTokenMW :: string where
  "cacheTokenMW \<equiv> ''xgress-cache-token''"

section \<open>Names\<close>

definition host_name :: "host \<Rightarrow> string" where "host_name h = ''host-'' @ h_ID h"
definition svc_name :: "host \<Rightarrow> string" where "svc_name h = ''svc-'' @ h_ID h"

section \<open>Services\<close>

definition server_of :: "upstream \<Rightarrow> server" where
  "server_of u =
     (let scheme = (if u_Scheme u = [] then ''http'' else u_Scheme u);
          url = (if u_Port u \<noteq> 0 then scheme @ ''://'' @ u_Host u @ '':'' @ show_int (u_Port u)
                 else scheme @ ''://'' @ u_Host u) in
      \<lparr>sv_URL = url, sv_Weight = (if u_Weight u > 0 then Some (u_Weight u) else None)\<rparr>)"

definition buildServersLB :: "host \<Rightarrow> upstream list \<Rightarrow> servers_lb" where
  "buildServersLB h upstreams = \<lparr>
     lb_Servers = map server_of upstreams,
     lb_PassHostHeader = Some True,
     lb_Strategy = (if h_LoadBalancer h = ''p2c'' then ''p2c''
                    else if h_LoadBalancer h = ''leasttime'' then ''leasttime'' else []),
     lb_HealthCheck = (if h_HealthCheckURL h \<noteq> [] then Some (h_HealthCheckURL h) else None),
     lb_Sticky = (if h_Sticky h
                  then Some \<lparr>ck_Name = ''xgress_lb'', ck_HTTPOnly = True, ck_Secure = (h_TLS h \<noteq> TLSNone),
                             ck_SameSite = ''lax''\<rparr>
                  else None)\<rparr>"

definition routesToEdge :: "host \<Rightarrow> inputs \<Rightarrow> bool" where
  "routesToEdge h inp \<longleftrightarrow>
     in_CacheBackend inp \<noteq> [] \<and> (h_WAF h \<and> in_WAFEnabled inp \<or> h_Cache h \<and> in_CacheEnabled inp)"

definition group_name :: "host \<Rightarrow> nat \<Rightarrow> string" where
  "group_name h i = ''svc-'' @ h_ID h @ ''-g'' @ show_nat i"

definition put_groups :: "host \<Rightarrow> cfg_build \<Rightarrow> cfg_build" where
  "put_groups h cfg =
     fold (\<lambda>(i, g). put_service (group_name h i) (lb_service (buildServersLB h (bg_Upstreams g))))
       (enumerate 0 (h_BackendGroups h)) cfg"

definition composed_service :: "host \<Rightarrow> dyn_service" where
  "composed_service h =
     (let groups = enumerate 0 (h_BackendGroups h); mode = h_ServiceMode h in
      if mode = ''weighted'' then
        zero_service\<lparr>svc_Weighted := Some \<lparr>
          wrr_Services = map (\<lambda>(i, g). (group_name h i, if bg_Weight g \<le> 0 then 1 else bg_Weight g)) groups,
          wrr_Sticky = (if h_Sticky h
                        then Some \<lparr>ck_Name = ''xgress_canary'', ck_HTTPOnly = True,
                                   ck_Secure = (h_TLS h \<noteq> TLSNone), ck_SameSite = ''lax''\<rparr>
                        else None)\<rparr>\<rparr>
      else if mode = ''failover'' then
        zero_service\<lparr>svc_Failover :=
          Some (group_name h 0, if length groups > 1 then group_name h 1 else [])\<rparr>
      else if mode = ''mirroring'' then
        zero_service\<lparr>svc_Mirroring :=
          Some (group_name h 0, map (\<lambda>(i, g). (group_name h i, bg_Percent g)) (tl groups))\<rparr>
      else lb_service (buildServersLB h (h_Upstreams h)))"

definition buildHostService :: "inputs \<Rightarrow> host \<Rightarrow> cfg_build \<Rightarrow> cfg_build" where
  "buildHostService inp h cfg =
     (if routesToEdge h inp then
        put_service (svc_name h) (lb_service (one_server (in_CacheBackend inp) (Some True))) cfg
      else if h_ServiceMode h = [] \<or> h_ServiceMode h = ''single'' \<or> h_BackendGroups h = [] then
        put_service (svc_name h) (lb_service (buildServersLB h (h_Upstreams h))) cfg
      else put_service (svc_name h) (composed_service h) (put_groups h cfg))"

section \<open>Middleware chains\<close>

definition acl_ip :: "access_list \<Rightarrow> string" where "acl_ip a = ''acl-'' @ al_ID a @ ''-ip''"
definition acl_auth :: "access_list \<Rightarrow> string" where "acl_auth a = ''acl-'' @ al_ID a @ ''-auth''"

definition accessListMiddlewares :: "(string, access_list) gomap \<Rightarrow> host \<Rightarrow> string list" where
  "accessListMiddlewares aclByID h =
     concat (map (\<lambda>id. case mget aclByID id of
                    None \<Rightarrow> []
                  | Some a \<Rightarrow>
                      (if al_AllowIPs a \<noteq> [] then [acl_ip a] else [])
                      @ (if al_Users a \<noteq> [] then [acl_auth a] else []))
       (h_AccessListIDs h))"

definition collectMiddlewareNames ::
  "(string, middleware) gomap \<Rightarrow> host \<Rightarrow> cfg_build \<Rightarrow> string list \<times> cfg_build" where
  "collectMiddlewareNames mwByID h cfg =
     (let hsts = host_name h @ ''-hsts''; cors = host_name h @ ''-cors'';
          (names1, cfg1) =
            (if h_HSTS h then
               ([hsts], put_mw hsts (MwHeaders (zero_headers\<lparr>hd_STSSeconds := Some 31536000,
                  hd_STSIncludeSubdomains := True, hd_STSPreload := True\<rparr>)) cfg)
             else ([], cfg));
          (names2, cfg2) =
            (if h_CORSEnabled h \<and> h_CORSAllowOrigins h \<noteq> [] then
               (names1 @ [cors], put_mw cors (MwHeaders (zero_headers\<lparr>
                  hd_AllowOriginList := h_CORSAllowOrigins h,
                  hd_AllowMethods := [''GET'', ''POST'', ''PUT'', ''PATCH'', ''DELETE'', ''OPTIONS''],
                  hd_AllowHeaders := [''Origin'', ''Accept'', ''Content-Type'', ''Authorization'', ''X-Requested-With''],
                  hd_AllowCredentials := h_CORSAllowCredentials h,
                  hd_MaxAge := 600, hd_AddVaryHeader := True\<rparr>)) cfg1)
             else (names1, cfg1)) in
      (names2 @ map mwName (List.map_filter (mget mwByID) (h_MiddlewareIDs h)), cfg2))"

definition errorPagesMiddleware :: "host \<Rightarrow> string \<Rightarrow> cfg_build \<Rightarrow> string \<times> cfg_build" where
  "errorPagesMiddleware h contentBackend cfg =
     (let statuses = filter (\<lambda>s. s \<noteq> []) (map ep_Status (h_ErrorPages h)); name = host_name h @ ''-errors'' in
      if h_ErrorPages h = [] \<or> contentBackend = [] then ([], cfg)
      else if statuses = [] then ([], cfg)
      else (name, put_mw name
             (MwErrors statuses ''xgress-content'' (''/__xgress/error/'' @ h_ID h @ ''/{status}'')) cfg))"

definition raw_ns :: "host \<Rightarrow> string \<Rightarrow> string" where
  "raw_ns h n = ''host-'' @ h_ID h @ ''-raw-'' @ n"

definition perHostRawMiddlewares :: "libs \<Rightarrow> host \<Rightarrow> cfg_build \<Rightarrow> string list \<times> cfg_build" where
  "perHostRawMiddlewares L h cfg =
     (if trim_space (h_RawYAML h) = [] then ([], cfg)
      else
        (case ParseRawConfig L (h_RawYAML h) of
           Inl _ \<Rightarrow> ([], cfg)
         | Inr None \<Rightarrow> ([], cfg)
         | Inr (Some frag) \<Rightarrow>
             (case dc_HTTP frag of
                None \<Rightarrow> ([], cfg)
              | Some s \<Rightarrow>
                  (sort (map (raw_ns h \<circ> fst) (hs_Middlewares s)),
                   cfg\<lparr>cb_Services := fold (\<lambda>(n, v). mput (raw_ns h n) v) (hs_Services s) (cb_Services cfg),
                       cb_Middlewares :=
                         fold (\<lambda>(n, v). mput (raw_ns h n) v) (hs_Middlewares s) (cb_Middlewares cfg)\<rparr>))))"

text \<open>The access lists a satisfy-any bypass is built from.\<close>

definition bypass_lists :: "(string, access_list) gomap \<Rightarrow> host \<Rightarrow> access_list list" where
  "bypass_lists aclByID h =
     filter (\<lambda>a. al_SatisfyAny a \<and> al_AllowIPs a \<noteq> [] \<and> al_Users a \<noteq> [])
       (List.map_filter (mget aclByID) (h_AccessListIDs h))"

definition addSatisfyAnyBypass ::
  "(string, access_list) gomap \<Rightarrow> host \<Rightarrow> string list \<Rightarrow> string \<Rightarrow> string \<Rightarrow> bool \<Rightarrow> cfg_build \<Rightarrow> cfg_build" where
  "addSatisfyAnyBypass aclByID h mws svcName entryPoint tls cfg =
     (let as = bypass_lists aclByID h; ips = concat (map al_AllowIPs as);
          dropped = concat (map (\<lambda>a. [acl_auth a, acl_ip a]) as);
          keep = filter (\<lambda>m. m \<notin> set dropped) mws in
      if ips = [] then cfg
      else put_router (host_name h @ ''-trusted'')
             (mk_router
               (''('' @ hostRule (h_Domains h) @ '') && ('' @ str_join '' || '' (map (matcher ''ClientIP'') ips) @ '')'')
               svcName [entryPoint] keep 2000 tls) cfg)"

section \<open>Hosts\<close>

definition staticAssetRegex :: string where
  "staticAssetRegex = [CHR 0x5C] @ ''.(?:js|mjs|css|png|jpe?g|gif|ico|svg|webp|avif|woff2?|ttf|eot|otf|mp4|webm|map)$''"

definition tls_enabled :: "host \<Rightarrow> bool" where
  "tls_enabled h \<longleftrightarrow> h_TLS h = TLSACME \<or> h_TLS h = TLSCustom \<or> h_TLS h = TLSExternal"

definition entry_of :: "inputs \<Rightarrow> bool \<Rightarrow> string" where
  "entry_of inp tls = (if tls then ep_HTTPS (in_EntryPoints inp) else ep_HTTP (in_EntryPoints inp))"

text \<open>The middleware chain of a proxy host, before the edge token is appended.\<close>

definition proxy_chain ::
  "libs \<Rightarrow> (string, middleware) gomap \<Rightarrow> (string, access_list) gomap \<Rightarrow> inputs \<Rightarrow> host \<Rightarrow> cfg_build
    \<Rightarrow> string list \<times> cfg_build" where
  "proxy_chain L mwByID aclByID inp h cfg =
     (let acl = accessListMiddlewares aclByID h;
          (own, cfg1) = collectMiddlewareNames mwByID h cfg;
          (ep, cfg2) = errorPagesMiddleware h (in_ContentBackend inp) cfg1;
          (raw, cfg3) = perHostRawMiddlewares L h cfg2 in
      (acl @ own @ (if ep \<noteq> [] then [ep] else []) @ raw, cfg3))"

definition with_token :: "inputs \<Rightarrow> host \<Rightarrow> string list \<Rightarrow> string list" where
  "with_token inp h mws =
     (if routesToEdge h inp \<and> in_CacheToken inp \<noteq> [] then mws @ [cacheTokenMW] else mws)"

definition proxy_static :: "inputs \<Rightarrow> host \<Rightarrow> string list \<Rightarrow> cfg_build \<Rightarrow> cfg_build" where
  "proxy_static inp h mws cfg =
     (if h_CacheAssets h then
        put_router (host_name h @ ''-static'')
          (mk_router (''('' @ hostRule (h_Domains h) @ '') && PathRegexp('' @ [bq] @ staticAssetRegex @ [bq] @ '')'')
             (svc_name h) [entry_of inp (tls_enabled h)] (mws @ [host_name h @ ''-cache'']) 900 (tls_enabled h))
          (put_mw (host_name h @ ''-cache'')
             (MwHeaders (zero_headers\<lparr>hd_CustomResponseHeaders := [(''Cache-Control'', ''public, max-age=2592000'')]\<rparr>))
             cfg)
      else cfg)"

definition loc_svc :: "host \<Rightarrow> nat \<Rightarrow> string" where
  "loc_svc h i = ''svc-'' @ h_ID h @ ''-loc'' @ show_nat i"

definition loc_router :: "host \<Rightarrow> nat \<Rightarrow> string" where
  "loc_router h i = ''host-'' @ h_ID h @ ''-loc'' @ show_nat i"

definition proxy_location :: "inputs \<Rightarrow> host \<Rightarrow> string list \<Rightarrow> nat \<times> location \<Rightarrow> cfg_build \<Rightarrow> cfg_build" where
  "proxy_location inp h base = (\<lambda>(i, loc) cfg.
     if (h_WAF h \<and> in_WAFEnabled inp) \<or> loc_PathPrefix loc = [] \<or> loc_Upstreams loc = [] then cfg
     else
       (let sp = loc_router h i @ ''-strip'';
            cfg1 = put_service (loc_svc h i) (lb_service (buildServersLB h (loc_Upstreams loc))) cfg;
            (locMws, cfg2) =
              (if loc_StripPrefix loc then (base @ [sp], put_mw sp (MwStripPrefix [loc_PathPrefix loc]) cfg1)
               else (base, cfg1)) in
        put_router (loc_router h i)
          (mk_router (''('' @ hostRule (h_Domains h) @ '') && '' @ matcher ''PathPrefix'' (loc_PathPrefix loc))
             (loc_svc h i) [entry_of inp (tls_enabled h)] locMws (1000 + int (length (loc_PathPrefix loc))) (tls_enabled h))
          cfg2))"

definition proxy_locations :: "inputs \<Rightarrow> host \<Rightarrow> string list \<Rightarrow> cfg_build \<Rightarrow> cfg_build" where
  "proxy_locations inp h base cfg = fold (proxy_location inp h base) (enumerate 0 (h_Locations h)) cfg"

definition proxy_redirect :: "inputs \<Rightarrow> host \<Rightarrow> cfg_build \<Rightarrow> cfg_build" where
  "proxy_redirect inp h cfg =
     (if tls_enabled h \<and> h_ForceTLS h then
        put_router (host_name h @ ''-http'')
          (mk_router (hostRule (h_Domains h)) (svc_name h) [ep_HTTP (in_EntryPoints inp)]
             [host_name h @ ''-redirect-mw''] 0 False)
          (put_mw (host_name h @ ''-redirect-mw'') (MwRedirectScheme ''https'' True) cfg)
      else cfg)"

definition proxy_main :: "inputs \<Rightarrow> host \<Rightarrow> string list \<Rightarrow> cfg_build \<Rightarrow> cfg_build" where
  "proxy_main inp h mws =
     put_router (host_name h)
       (mk_router (hostRule (h_Domains h)) (svc_name h) [entry_of inp (tls_enabled h)] mws 0 (tls_enabled h))"

definition renderProxyHost ::
  "libs \<Rightarrow> (string, middleware) gomap \<Rightarrow> (string, access_list) gomap \<Rightarrow> inputs \<Rightarrow> host \<Rightarrow> cfg_build \<Rightarrow> cfg_build" where
  "renderProxyHost L mwByID aclByID inp h cfg =
     (let cfg1 = buildHostService inp h cfg;
          (base, cfg2) = proxy_chain L mwByID aclByID inp h cfg1;
          mws = with_token inp h base;
          cfg3 = proxy_main inp h mws cfg2;
          cfg4 = addSatisfyAnyBypass aclByID h mws (svc_name h) (entry_of inp (tls_enabled h)) (tls_enabled h) cfg3;
          cfg5 = proxy_static inp h mws cfg4;
          cfg6 = proxy_locations inp h base cfg5 in
      proxy_redirect inp h cfg6)"

definition put_noop :: "cfg_build \<Rightarrow> cfg_build" where
  "put_noop cfg =
     (if mget (cb_Services cfg) ''noop'' = None
      then put_service ''noop'' (lb_service (one_server ''http://127.0.0.1:1'' None)) cfg else cfg)"

definition renderRedirectionHost :: "(string, middleware) gomap \<Rightarrow> inputs \<Rightarrow> host \<Rightarrow> cfg_build \<Rightarrow> cfg_build" where
  "renderRedirectionHost mwByID inp h cfg =
     (let code = (if h_RedirectCode h = 0 then 308 else h_RedirectCode h);
          name = host_name h @ ''-redirect'';
          replacement = (if h_RedirectKeepPath h then trim_right_cut [CHR ''/''] (h_RedirectTo h) @ ''${1}''
                         else h_RedirectTo h);
          cfg1 = put_noop (put_mw name (MwRedirectRegex ''^https?://[^/]+(.*)'' replacement
                   (code = 301 \<or> code = 308)) cfg);
          (own, cfg2) = collectMiddlewareNames mwByID h cfg1;
          tls = (h_TLS h \<noteq> TLSNone) in
      put_router (host_name h)
        (mk_router (hostRule (h_Domains h)) ''noop'' [entry_of inp tls] (name # own) 0 tls) cfg2)"

definition renderDeadHost :: "inputs \<Rightarrow> host \<Rightarrow> cfg_build \<Rightarrow> cfg_build" where
  "renderDeadHost inp h cfg =
     put_router (host_name h)
       (mk_router (hostRule (h_Domains h)) ''noop'' [ep_HTTP (in_EntryPoints inp), ep_HTTPS (in_EntryPoints inp)] [] 1 False)
       (put_noop cfg)"

definition renderStreamHost :: "(string \<Rightarrow> string) \<Rightarrow> host \<Rightarrow> cfg_build \<Rightarrow> cfg_build" where
  "renderStreamHost uni h cfg =
     (if h_Upstreams h = [] \<or> h_StreamEntryPoint h = [] then cfg
      else
        (let u = hd (h_Upstreams h); addr = u_Host u @ '':'' @ show_int (u_Port u) in
         if to_lower uni (h_StreamProto h) = ''udp'' then
           cfg\<lparr>cb_UDPServices := mput (svc_name h) (Some [addr]) (cb_UDPServices cfg),
               cb_UDPRouters := mput (host_name h)
                 (Some \<lparr>ur_EntryPoints = [h_StreamEntryPoint h], ur_Service = svc_name h\<rparr>) (cb_UDPRouters cfg)\<rparr>
         else
           cfg\<lparr>cb_TCPServices := mput (svc_name h) (Some [addr]) (cb_TCPServices cfg),
               cb_TCPRouters := mput (host_name h)
                 (Some \<lparr>tr_EntryPoints = [h_StreamEntryPoint h], tr_Service = svc_name h,
                   tr_Rule = (if h_Domains h = [] then ''HostSNI('' @ [bq] @ ''*'' @ [bq] @ '')''
                              else str_join '' || '' (map (matcher ''HostSNI'') (h_Domains h))),
                   tr_Priority = 0,
                   tr_Passthrough = (if h_TLSPassthrough h \<and> h_Domains h \<noteq> [] then Some True else None)\<rparr>)
                 (cb_TCPRouters cfg)\<rparr>))"

section \<open>Render\<close>

definition render_challenge :: "inputs \<Rightarrow> cfg_build \<Rightarrow> cfg_build" where
  "render_challenge inp cfg =
     (if in_ChallengeBackend inp \<noteq> [] then
        put_router ''acme-http-challenge''
          (mk_router (''PathPrefix('' @ [bq] @ ''/.well-known/acme-challenge/'' @ [bq] @ '')'') ''acme-http-challenge''
             [ep_HTTP (in_EntryPoints inp)] [] 1000000 False)
          (put_service ''acme-http-challenge'' (lb_service (one_server (in_ChallengeBackend inp) (Some True))) cfg)
      else cfg)"

fun render_middlewares ::
  "libs \<Rightarrow> middleware list \<Rightarrow> (string, middleware) gomap \<Rightarrow> cfg_build \<Rightarrow> string + ((string, middleware) gomap \<times> cfg_build)" where
  "render_middlewares L [] byID cfg = Inr (byID, cfg)"
| "render_middlewares L (m # ms) byID cfg =
     (case BuildMiddleware L (mw_Type m) (mw_Params m) of
        Inl e \<Rightarrow> Inl (''middleware '' @ [CHR 0x22] @ mw_Name m @ [CHR 0x22] @ '': '' @ e)
      | Inr mw \<Rightarrow> render_middlewares L ms (mput (mw_ID m) m byID) (put_mw (mwName m) mw cfg))"

definition acl_users :: "access_list \<Rightarrow> string list" where
  "acl_users a = map (\<lambda>u. alu_Username u @ '':'' @ alu_Hash u)
     (filter (\<lambda>u. alu_Username u \<noteq> [] \<and> alu_Hash u \<noteq> []) (al_Users a))"

definition render_access_list :: "access_list \<Rightarrow> cfg_build \<Rightarrow> cfg_build" where
  "render_access_list a cfg =
     (let cfg1 = (if al_Users a \<noteq> [] \<and> acl_users a \<noteq> [] then put_mw (acl_auth a) (MwBasicAuth (acl_users a)) cfg else cfg) in
      if al_AllowIPs a \<noteq> [] then put_mw (acl_ip a) (MwIPAllowList (al_AllowIPs a)) cfg1 else cfg1)"

definition acl_index :: "access_list list \<Rightarrow> (string, access_list) gomap" where
  "acl_index as = fold (\<lambda>a. mput (al_ID a) a) as []"

definition render_token :: "inputs \<Rightarrow> cfg_build \<Rightarrow> cfg_build" where
  "render_token inp cfg =
     (if in_CacheBackend inp \<noteq> [] \<and> in_CacheToken inp \<noteq> [] \<and> (in_CacheEnabled inp \<or> in_WAFEnabled inp) then
        put_mw cacheTokenMW
          (MwHeaders (zero_headers\<lparr>hd_CustomRequestHeaders := [(''X-xgress-Cache-Token'', in_CacheToken inp)]\<rparr>)) cfg
      else cfg)"

definition render_content :: "inputs \<Rightarrow> cfg_build \<Rightarrow> cfg_build" where
  "render_content inp cfg =
     (if in_ContentBackend inp \<noteq> []
      then put_service ''xgress-content'' (lb_service (one_server (in_ContentBackend inp) (Some False))) cfg
      else cfg)"

definition external_certs :: "inputs \<Rightarrow> (string \<times> string) list" where
  "external_certs inp = filter (\<lambda>(c, k). c \<noteq> [] \<and> k \<noteq> []) (in_ExternalCerts inp)"

definition inline_certs :: "inputs \<Rightarrow> (string \<times> string) list" where
  "inline_certs inp = map (\<lambda>c. (c_CertPEM c, ''@@KEY:'' @ c_ID c))
     (filter (\<lambda>c. c_Status c = CertStatusValid \<and> c_CertPEM c \<noteq> []) (in_Certificates inp))"

definition render_certs :: "inputs \<Rightarrow> cfg_build \<Rightarrow> cfg_build" where
  "render_certs inp cfg = cfg\<lparr>cb_Certs := cb_Certs cfg @ external_certs inp @ inline_certs inp\<rparr>"

definition render_host ::
  "libs \<Rightarrow> (string \<Rightarrow> string) \<Rightarrow> (string, middleware) gomap \<Rightarrow> (string, access_list) gomap \<Rightarrow> inputs \<Rightarrow> host
    \<Rightarrow> cfg_build \<Rightarrow> cfg_build" where
  "render_host L uni mwByID aclByID inp h cfg =
     (if \<not> h_Enabled h then cfg
      else if h_Kind h = HostKindProxy then renderProxyHost L mwByID aclByID inp h cfg
      else if h_Kind h = HostKindRedirection then renderRedirectionHost mwByID inp h cfg
      else if h_Kind h = HostKindStream then renderStreamHost uni h cfg
      else if h_Kind h = HostKindDead then renderDeadHost inp h cfg
      else cfg)"

abbreviation any_path :: string where
  "any_path \<equiv> ''PathPrefix('' @ [bq] @ ''/'' @ [bq] @ '')''"

definition render_default_site :: "inputs \<Rightarrow> cfg_build \<Rightarrow> cfg_build" where
  "render_default_site inp cfg =
     (if in_DefaultSiteEnabled inp \<and> in_ContentBackend inp \<noteq> [] then
        put_router ''xgress-default-site-https''
          (mk_router any_path ''xgress-content'' [ep_HTTPS (in_EntryPoints inp)] [''xgress-default-path''] 1 True)
          (put_router ''xgress-default-site-http''
            (mk_router any_path ''xgress-content'' [ep_HTTP (in_EntryPoints inp)] [''xgress-default-path''] 1 False)
            (put_mw ''xgress-default-path'' (MwReplacePath ''/__xgress/default'') cfg))
      else cfg)"

definition ban_rule :: "string list \<Rightarrow> string" where
  "ban_rule ips =
     ''(ClientIP('' @ str_join '', '' (map (\<lambda>i. [bq] @ ruleQuote i @ [bq]) ips) @ '')) && '' @ any_path"

definition render_banned :: "inputs \<Rightarrow> cfg_build \<Rightarrow> cfg_build" where
  "render_banned inp cfg =
     (if in_BannedIPs inp \<noteq> [] \<and> in_ContentBackend inp \<noteq> [] then
        put_router ''xgress-banned-https''
          (mk_router (ban_rule (in_BannedIPs inp)) ''xgress-content'' [ep_HTTPS (in_EntryPoints inp)]
             [''xgress-banned-path''] 2000000 True)
          (put_router ''xgress-banned-http''
            (mk_router (ban_rule (in_BannedIPs inp)) ''xgress-content'' [ep_HTTP (in_EntryPoints inp)]
               [''xgress-banned-path''] 2000000 False)
            (put_mw ''xgress-banned-path'' (MwReplacePath ''/__xgress/banned'') cfg))
      else cfg)"

text \<open>\<open>mergeMap\<close>: keys that exist win.\<close>

definition mergeMap :: "('k, 'v) gomap \<Rightarrow> ('k, 'v) gomap \<Rightarrow> ('k, 'v) gomap" where
  "mergeMap dst src = fold (\<lambda>(k, v) m. if mget m k = None then mput k v m else m) src dst"

definition mergeConfig :: "cfg_build \<Rightarrow> dyn_config \<Rightarrow> cfg_build" where
  "mergeConfig dst src =
     (let c1 = (case dc_HTTP src of None \<Rightarrow> dst | Some s \<Rightarrow>
            dst\<lparr>cb_Routers := mergeMap (cb_Routers dst) (hs_Routers s),
                cb_Services := mergeMap (cb_Services dst) (hs_Services s),
                cb_Middlewares := mergeMap (cb_Middlewares dst) (hs_Middlewares s)\<rparr>);
          c2 = (case dc_TCP src of None \<Rightarrow> c1 | Some s \<Rightarrow>
            c1\<lparr>cb_TCPRouters := mergeMap (cb_TCPRouters c1) (ts_Routers s),
               cb_TCPServices := mergeMap (cb_TCPServices c1) (ts_Services s)\<rparr>) in
      (case dc_TLS src of None \<Rightarrow> c2 | Some s \<Rightarrow>
         (if ls_Options s \<noteq> [] then c2\<lparr>cb_Options := mergeMap (cb_Options c2) (ls_Options s)\<rparr> else c2)))"

text \<open>The last step drops every section that was not populated.\<close>

definition prune :: "cfg_build \<Rightarrow> dyn_config" where
  "prune c = \<lparr>
     dc_HTTP = (if cb_Routers c = [] \<and> cb_Services c = [] \<and> cb_Middlewares c = [] then None
                else Some \<lparr>hs_Routers = cb_Routers c, hs_Services = cb_Services c, hs_Middlewares = cb_Middlewares c\<rparr>),
     dc_TCP = (if cb_TCPRouters c = [] \<and> cb_TCPServices c = [] then None
               else Some \<lparr>ts_Routers = cb_TCPRouters c, ts_Services = cb_TCPServices c\<rparr>),
     dc_UDP = (if cb_UDPRouters c = [] \<and> cb_UDPServices c = [] then None
               else Some \<lparr>us_Routers = cb_UDPRouters c, us_Services = cb_UDPServices c\<rparr>),
     dc_TLS = (if cb_Certs c = [] \<and> cb_Options c = [] \<and> cb_Stores c = [] then None
               else Some \<lparr>ls_Certificates = cb_Certs c, ls_Options = cb_Options c, ls_Stores = cb_Stores c\<rparr>)\<rparr>"

record render_result =
  rr_Config :: dyn_config
  rr_JSON :: string
  rr_Hash :: string

text \<open>Everything before the hosts, the hosts, and everything after them.\<close>

definition render_shared :: "inputs \<Rightarrow> cfg_build \<Rightarrow> cfg_build" where
  "render_shared inp cfg =
     render_certs inp (render_content inp (render_token inp (fold render_access_list (in_AccessLists inp) cfg)))"

definition render_hosts ::
  "libs \<Rightarrow> (string \<Rightarrow> string) \<Rightarrow> (string, middleware) gomap \<Rightarrow> inputs \<Rightarrow> cfg_build \<Rightarrow> cfg_build" where
  "render_hosts L uni mwByID inp cfg =
     fold (render_host L uni mwByID (acl_index (in_AccessLists inp)) inp) (in_Hosts inp) cfg"

definition render_tail :: "inputs \<Rightarrow> cfg_build \<Rightarrow> cfg_build" where
  "render_tail inp cfg =
     (let c = render_banned inp (render_default_site inp cfg) in
      case in_RawConfig inp of None \<Rightarrow> c | Some raw \<Rightarrow> mergeConfig c raw)"

definition Render :: "libs \<Rightarrow> (string \<Rightarrow> string) \<Rightarrow> inputs \<Rightarrow> string + render_result" where
  "Render L uni inp =
     (case render_middlewares L (in_Middlewares inp) [] (render_challenge inp empty_cfg) of
        Inl e \<Rightarrow> Inl e
      | Inr (mwByID, cfg) \<Rightarrow>
          (let doc = prune (render_tail inp (render_hosts L uni mwByID inp (render_shared inp cfg))) in
           case lib_json L doc of
             Inl e \<Rightarrow> Inl e
           | Inr raw \<Rightarrow> Inr \<lparr>rr_Config = doc, rr_JSON = raw, rr_Hash = lib_sha L raw\<rparr>))"

end
