(* ===== verification/RenderRefs.thy ===== *)
theory RenderRefs
  imports Render
begin

text \<open>
  Reference integrity of the rendered configuration: every router names a service and middlewares the
  document defines. \<open>cfg_le\<close> says that a step only adds names, \<open>refs_ok\<close> is the invariant, and each
  function of \<open>Render\<close> has a lemma for both.
\<close>

definition svcs :: "cfg_build \<Rightarrow> string set" where "svcs c = mkeys (cb_Services c)"
definition mwns :: "cfg_build \<Rightarrow> string set" where "mwns c = mkeys (cb_Middlewares c)"

definition cfg_le :: "cfg_build \<Rightarrow> cfg_build \<Rightarrow> bool" where
  "cfg_le c c' \<longleftrightarrow> svcs c \<subseteq> svcs c' \<and> mwns c \<subseteq> mwns c'"

definition refs_ok :: "cfg_build \<Rightarrow> bool" where
  "refs_ok c \<longleftrightarrow> (\<forall>n r. mget (cb_Routers c) n = Some (Some r) \<longrightarrow>
     rt_Service r \<in> svcs c \<and> set (rt_Middlewares r) \<subseteq> mwns c)"

lemma cfg_le_refl [simp]: "cfg_le c c"
  by (simp add: cfg_le_def)

lemma cfg_le_trans [trans]: "cfg_le c d \<Longrightarrow> cfg_le d e \<Longrightarrow> cfg_le c e"
  by (auto simp: cfg_le_def)

lemma refs_ok_le: "refs_ok c \<Longrightarrow> cfg_le c c' \<Longrightarrow> cb_Routers c' = cb_Routers c \<Longrightarrow> refs_ok c'"
  unfolding refs_ok_def cfg_le_def by (metis subset_iff)

lemma put_fields [simp]:
  "cb_Services (put_router n r c) = cb_Services c" "cb_Middlewares (put_router n r c) = cb_Middlewares c"
  "cb_Routers (put_router n r c) = mput n (Some r) (cb_Routers c)"
  "cb_Routers (put_service n s c) = cb_Routers c" "cb_Middlewares (put_service n s c) = cb_Middlewares c"
  "cb_Services (put_service n s c) = mput n (Some s) (cb_Services c)"
  "cb_Routers (put_mw n m c) = cb_Routers c" "cb_Services (put_mw n m c) = cb_Services c"
  "cb_Middlewares (put_mw n m c) = mput n (Some m) (cb_Middlewares c)"
  by (simp_all add: put_router_def put_service_def put_mw_def)

lemma put_names [simp]:
  "svcs (put_router n r c) = svcs c" "mwns (put_router n r c) = mwns c"
  "svcs (put_service n s c) = insert n (svcs c)" "mwns (put_service n s c) = mwns c"
  "svcs (put_mw n m c) = svcs c" "mwns (put_mw n m c) = insert n (mwns c)"
  by (simp_all only: svcs_def mwns_def put_fields mkeys_mput)

lemma put_le [simp]:
  "cfg_le c (put_router n r c)" "cfg_le c (put_service n s c)" "cfg_le c (put_mw n m c)"
  by (auto simp: cfg_le_def)

lemma put_refs_ok [simp]:
  "refs_ok c \<Longrightarrow> refs_ok (put_service n s c)" "refs_ok c \<Longrightarrow> refs_ok (put_mw n m c)"
  by (rule refs_ok_le, assumption, simp_all)+

lemma put_router_refs_ok:
  "refs_ok c \<Longrightarrow> rt_Service r \<in> svcs c \<Longrightarrow>
   set (rt_Middlewares r) \<subseteq> mwns c \<Longrightarrow> refs_ok (put_router n r c)"
  by (auto simp: refs_ok_def)

lemma mk_router_fields [simp]:
  "rt_Service (mk_router rule svc eps mws prio tls) = svc"
  "rt_Middlewares (mk_router rule svc eps mws prio tls) = mws"
  "rt_Rule (mk_router rule svc eps mws prio tls) = rule"
  "rt_Priority (mk_router rule svc eps mws prio tls) = prio"
  by (simp_all add: mk_router_def)

lemma in_keys_le:
  "cfg_le c c' \<Longrightarrow> x \<in> svcs c \<Longrightarrow> x \<in> svcs c'"
  "cfg_le c c' \<Longrightarrow> y \<in> mwns c \<Longrightarrow> y \<in> mwns c'"
  by (auto simp: cfg_le_def)

section \<open>Steps that leave the routers alone\<close>

lemma put_groups_fields [simp]: "cb_Routers (put_groups h c) = cb_Routers c" "cb_Middlewares (put_groups h c) = cb_Middlewares c"
proof -
  have "cb_Routers (fold (\<lambda>(i, g). put_service (group_name h i) (k g)) xs c) = cb_Routers c
      \<and> cb_Middlewares (fold (\<lambda>(i, g). put_service (group_name h i) (k g)) xs c) = cb_Middlewares c"
    for k :: "backend_group \<Rightarrow> dyn_service" and xs
    by (induction xs arbitrary: c) (auto simp: split_beta)
  then show "cb_Routers (put_groups h c) = cb_Routers c" "cb_Middlewares (put_groups h c) = cb_Middlewares c"
    unfolding put_groups_def by simp_all
qed

lemma put_groups_services:
  "svcs (put_groups h c) = svcs c \<union> group_name h ` {..<length (h_BackendGroups h)}"
proof -
  have "svcs ((fold (\<lambda>(i, g). put_service (group_name h i) (k g)) (enumerate n xs) c)) =
      svcs c \<union> group_name h ` {n..<n + length xs}" for k n and xs :: "backend_group list"
  proof (induction xs arbitrary: n c)
    case (Cons x xs)
    have "{n..<n + length (x # xs)} = insert n {Suc n..<Suc n + length xs}" by auto
    with Cons show ?case by simp
  qed simp
  from this [of _ 0] show ?thesis unfolding put_groups_def by (simp add: lessThan_atLeast0)
qed

lemma buildHostService_fields [simp]:
  "cb_Routers (buildHostService inp h c) = cb_Routers c"
  "cb_Middlewares (buildHostService inp h c) = cb_Middlewares c"
  by (simp_all add: buildHostService_def)

lemma put_groups_mwns [simp]: "mwns (put_groups h c) = mwns c"
  by (simp add: mwns_def)

lemma buildHostService_le: "cfg_le c (buildHostService inp h c)"
  using put_groups_services [of h c] by (auto simp: buildHostService_def cfg_le_def)

lemma buildHostService_svc: "svc_name h \<in> svcs (buildHostService inp h c)"
  by (simp add: buildHostService_def)

lemma collect_fields:
  assumes "collectMiddlewareNames byID h c = (ns, c')"
  shows "cb_Routers c' = cb_Routers c" "cb_Services c' = cb_Services c" "cfg_le c c'"
    and "\<forall>id m. mget byID id = Some m \<longrightarrow> mwName m \<in> mwns c \<Longrightarrow>
      set ns \<subseteq> mwns c'"
proof -
  show "cb_Routers c' = cb_Routers c" "cb_Services c' = cb_Services c" "cfg_le c c'"
    using assms by (auto simp: collectMiddlewareNames_def Let_def cfg_le_def split: if_splits)
  assume by_id: "\<forall>id m. mget byID id = Some m \<longrightarrow> mwName m \<in> mwns c"
  have "mwns c \<subseteq> mwns c'" using \<open>cfg_le c c'\<close> by (simp add: cfg_le_def)
  moreover have "set (map mwName (List.map_filter (mget byID) (h_MiddlewareIDs h))) \<subseteq> mwns c"
    using by_id by (auto simp: List.map_filter_def split: option.splits)
  moreover have "set ns \<subseteq> set (map mwName (List.map_filter (mget byID) (h_MiddlewareIDs h))) \<union> mwns c'"
    using assms by (auto simp: collectMiddlewareNames_def Let_def split: if_splits)
  ultimately show "set ns \<subseteq> mwns c'" by blast
qed

lemma errorPages_fields:
  assumes "errorPagesMiddleware h cb c = (n, c')"
  shows "cb_Routers c' = cb_Routers c" "cb_Services c' = cb_Services c" "cfg_le c c'"
    "n \<noteq> [] \<Longrightarrow> n \<in> mwns c'"
  using assms by (auto simp: errorPagesMiddleware_def Let_def cfg_le_def split: if_splits)

lemma mkeysI: "(a, b) \<in> set m \<Longrightarrow> a \<in> mkeys m"
  by (rule image_eqI [where x = "(a, b)"]) simp_all

lemma fold_mput_keys:
  "mkeys (fold (\<lambda>(n, v). mput (f n) v) xs m) = mkeys m \<union> (f \<circ> fst) ` set xs"
proof (induction xs arbitrary: m)
  case (Cons x xs)
  have "mkeys (fold (\<lambda>(n, v). mput (f n) v) (x # xs) m) = insert (f (fst x)) (mkeys m) \<union> (f \<circ> fst) ` set xs"
    using Cons.IH [of "mput (f (fst x)) (snd x) m"] by (cases x) simp
  then show ?case by simp
qed simp

lemma perHostRaw_fields:
  assumes "perHostRawMiddlewares L h c = (ns, c')"
  shows "cb_Routers c' = cb_Routers c" "cfg_le c c'" "set ns \<subseteq> mwns c'"
proof -
  show "cb_Routers c' = cb_Routers c"
    using assms by (auto simp: perHostRawMiddlewares_def split: if_splits sum.splits option.splits)
  show "cfg_le c c'" "set ns \<subseteq> mwns c'"
    using assms unfolding perHostRawMiddlewares_def
    by (auto simp: cfg_le_def svcs_def mwns_def fold_mput_keys intro: mkeysI
        simp del: split_paired_All split: if_splits sum.splits option.splits)
qed

section \<open>What the hosts rely on\<close>

text \<open>
  The shared middlewares a host may attach are defined before any host is rendered. An access list
  with users must have one with a name and a hash, otherwise its basic-auth middleware is missing.
\<close>

definition shared_ok ::
  "(string, middleware) gomap \<Rightarrow> (string, access_list) gomap \<Rightarrow> inputs \<Rightarrow> cfg_build \<Rightarrow> bool" where
  "shared_ok mwByID aclByID inp c \<longleftrightarrow>
     (\<forall>id m. mget mwByID id = Some m \<longrightarrow> mwName m \<in> mwns c) \<and>
     (\<forall>id a. mget aclByID id = Some a \<longrightarrow>
        (al_AllowIPs a \<noteq> [] \<longrightarrow> acl_ip a \<in> mwns c) \<and> (al_Users a \<noteq> [] \<longrightarrow> acl_auth a \<in> mwns c)) \<and>
     (in_CacheBackend inp \<noteq> [] \<and> in_CacheToken inp \<noteq> [] \<and> (in_CacheEnabled inp \<or> in_WAFEnabled inp)
        \<longrightarrow> cacheTokenMW \<in> mwns c)"

lemma shared_ok_le: "shared_ok by al inp c \<Longrightarrow> cfg_le c c' \<Longrightarrow> shared_ok by al inp c'"
  unfolding shared_ok_def cfg_le_def by blast

lemma acl_chain:
  "shared_ok by al inp c \<Longrightarrow> set (accessListMiddlewares al h) \<subseteq> mwns c"
  by (auto simp: accessListMiddlewares_def shared_ok_def split: option.splits if_splits)

lemma proxy_chain_fields:
  assumes ok: "shared_ok by al inp c" and ch: "proxy_chain L by al inp h c = (base, c')"
  shows "cb_Routers c' = cb_Routers c" "cfg_le c c'" "set base \<subseteq> mwns c'"
proof -
  obtain own c1 where 1: "collectMiddlewareNames by h c = (own, c1)" by fastforce
  obtain ep c2 where 2: "errorPagesMiddleware h (in_ContentBackend inp) c1 = (ep, c2)" by fastforce
  obtain raw c3 where 3: "perHostRawMiddlewares L h c2 = (raw, c3)" by fastforce
  have c': "c' = c3" and base: "base = accessListMiddlewares al h @ own @ (if ep \<noteq> [] then [ep] else []) @ raw"
    using ch by (simp_all add: proxy_chain_def 1 2 3)
  note f = collect_fields [OF 1] errorPages_fields [OF 2] perHostRaw_fields [OF 3]
  show "cb_Routers c' = cb_Routers c" using f by (simp add: c')
  have le: "cfg_le c c1" "cfg_le c1 c2" "cfg_le c2 c'" using f c' by simp_all
  then show "cfg_le c c'" using cfg_le_trans by blast
  have "set own \<subseteq> mwns c1" using f(4) ok by (simp add: shared_ok_def mwns_def)
  moreover have "set (accessListMiddlewares al h) \<subseteq> mwns c" using ok by (rule acl_chain)
  moreover have "mwns c1 \<subseteq> mwns c'" "mwns c2 \<subseteq> mwns c'" "mwns c \<subseteq> mwns c1"
    using le unfolding cfg_le_def by blast+
  moreover have "set (if ep \<noteq> [] then [ep] else []) \<subseteq> mwns c2" "set raw \<subseteq> mwns c'"
    using f(8,11) by (auto simp: c')
  ultimately have "set own \<subseteq> mwns c'" "set (accessListMiddlewares al h) \<subseteq> mwns c'"
      "set (if ep \<noteq> [] then [ep] else []) \<subseteq> mwns c'" "set raw \<subseteq> mwns c'"
    by blast+
  then show "set base \<subseteq> mwns c'" unfolding base set_append by blast
qed

lemma with_token_ok:
  "shared_ok by al inp c \<Longrightarrow> set base \<subseteq> mwns c \<Longrightarrow> set (with_token inp h base) \<subseteq> mwns c"
  by (auto simp: with_token_def routesToEdge_def shared_ok_def)

section \<open>Each kind of host\<close>

definition good_step :: "cfg_build \<Rightarrow> cfg_build \<Rightarrow> bool" where
  "good_step c c' \<longleftrightarrow> cfg_le c c' \<and> (refs_ok c \<longrightarrow> refs_ok c')"

lemma good_mwns: "good_step c c' \<Longrightarrow> mwns c \<subseteq> mwns c'"
  by (simp add: good_step_def cfg_le_def)

lemma good_step_refl [simp]: "good_step c c"
  by (simp add: good_step_def)

lemma good_step_trans: "good_step c d \<Longrightarrow> good_step d e \<Longrightarrow> good_step c e"
  unfolding good_step_def using cfg_le_trans by blast

lemma good_same_routers: "cfg_le c c' \<Longrightarrow> cb_Routers c' = cb_Routers c \<Longrightarrow> good_step c c'"
  by (simp add: good_step_def refs_ok_le)

lemma good_put_router:
  "svc \<in> svcs c \<Longrightarrow> set mws \<subseteq> mwns c \<Longrightarrow> good_step c (put_router n (mk_router rule svc eps mws prio tls) c)"
  by (simp add: good_step_def refs_ok_def svcs_def mwns_def)

lemma good_put_mw: "good_step c (put_mw n m c)"
  by (rule good_same_routers) simp_all

lemma good_put_service: "good_step c (put_service n s c)"
  by (rule good_same_routers) simp_all

lemma good_mw_router:
  assumes "svc \<in> svcs c" "set mws \<subseteq> insert k (mwns c)"
  shows "good_step c (put_router n (mk_router rule svc eps mws prio tls) (put_mw k m c))"
  using assms by (intro good_step_trans [OF good_put_mw good_put_router]) simp_all

lemma bypass_good:
  "svc \<in> svcs c \<Longrightarrow> set mws \<subseteq> mwns c \<Longrightarrow> good_step c (addSatisfyAnyBypass al h mws svc ep tls c)"
  unfolding addSatisfyAnyBypass_def Let_def by (auto intro!: good_put_router)

lemma static_good:
  assumes "svc_name h \<in> svcs c" "set mws \<subseteq> mwns c"
  shows "good_step c (proxy_static inp h mws c)"
proof -
  have "set (mws @ [host_name h @ ''-cache'']) \<subseteq> insert (host_name h @ ''-cache'') (mwns c)"
    using assms(2) by auto
  from good_mw_router [OF assms(1) this] show ?thesis by (simp add: proxy_static_def)
qed

lemma redirect_good: "svc_name h \<in> svcs c \<Longrightarrow> good_step c (proxy_redirect inp h c)"
  using good_mw_router [of "svc_name h" c "[host_name h @ ''-redirect-mw'']"]
  by (simp add: proxy_redirect_def)

lemma location_good:
  assumes "set base \<subseteq> mwns c"
  shows "good_step c (proxy_location inp h base p c)"
proof -
  obtain i loc where p: "p = (i, loc)" by (cases p)
  let ?s = "put_service (loc_svc h i) (lb_service (buildServersLB h (loc_Upstreams loc))) c"
  let ?m = "put_mw (loc_router h i @ ''-strip'') (MwStripPrefix [loc_PathPrefix loc]) ?s"
  have 1: "good_step c ?s" by (rule good_same_routers) simp_all
  have 2: "good_step c ?m" by (rule good_same_routers) (auto simp: cfg_le_def)
  have "good_step ?s (put_router n (mk_router r (loc_svc h i) eps base pr tls) ?s)"
    "good_step ?m (put_router n (mk_router r (loc_svc h i) eps (base @ [loc_router h i @ ''-strip'']) pr tls) ?m)"
    for n r eps pr tls
    using assms by (auto intro!: good_put_router)
  with good_step_trans [OF 1] good_step_trans [OF 2] show ?thesis
    unfolding p proxy_location_def Let_def by simp
qed

lemma locations_good: "set base \<subseteq> mwns c \<Longrightarrow> good_step c (proxy_locations inp h base c)"
proof -
  have "good_step c (fold (proxy_location inp h base) ps c)" if "set base \<subseteq> mwns c" for ps
    using that
  proof (induction ps arbitrary: c)
    case (Cons p ps)
    have g: "good_step c (proxy_location inp h base p c)" using Cons.prems by (rule location_good)
    then have "set base \<subseteq> mwns (proxy_location inp h base p c)"
      using Cons.prems by (auto simp: good_step_def cfg_le_def)
    with Cons.IH g show ?case using good_step_trans by fastforce
  qed simp
  then show "set base \<subseteq> mwns c \<Longrightarrow> good_step c (proxy_locations inp h base c)"
    by (simp add: proxy_locations_def)
qed

lemma good_le: "good_step c d \<Longrightarrow> cfg_le e c \<Longrightarrow> cfg_le e d"
  unfolding good_step_def using cfg_le_trans by blast

lemma proxy_good:
  assumes ok: "shared_ok by al inp c"
  shows "good_step c (renderProxyHost L by al inp h c)"
proof -
  define c1 where "c1 = buildHostService inp h c"
  obtain base c2 where ch: "proxy_chain L by al inp h c1 = (base, c2)" by fastforce
  define mws where "mws = with_token inp h base"
  define c3 where "c3 = proxy_main inp h mws c2"
  define c4 where "c4 = addSatisfyAnyBypass al h mws (svc_name h) (entry_of inp (tls_enabled h)) (tls_enabled h) c3"
  define c5 where "c5 = proxy_static inp h mws c4"
  define c6 where "c6 = proxy_locations inp h base c5"
  have ok1: "shared_ok by al inp c1" unfolding c1_def using ok buildHostService_le by (rule shared_ok_le)
  note f = proxy_chain_fields [OF ok1 ch]
  have svc: "svc_name h \<in> svcs d" and mws: "set mws \<subseteq> mwns d" and base: "set base \<subseteq> mwns d"
    if "cfg_le c2 d" for d
  proof -
    have "svc_name h \<in> svcs c2" using buildHostService_svc f(2) by (auto simp: cfg_le_def c1_def)
    moreover have "set mws \<subseteq> mwns c2" using with_token_ok [OF shared_ok_le [OF ok1 f(2)] f(3)]
      by (simp add: mws_def)
    ultimately show "svc_name h \<in> svcs d" "set mws \<subseteq> mwns d" "set base \<subseteq> mwns d"
      using f(3) that unfolding cfg_le_def by blast+
  qed
  have 1: "good_step c c1" unfolding c1_def by (rule good_same_routers [OF buildHostService_le]) simp
  have 2: "good_step c1 c2" using f by (blast intro: good_same_routers)
  have 3: "good_step c2 c3"
    unfolding c3_def proxy_main_def by (rule good_put_router) (rule svc mws cfg_le_refl)+
  note l3 = good_le [OF 3 cfg_le_refl]
  have 4: "good_step c3 c4" unfolding c4_def by (rule bypass_good) (rule svc [OF l3] mws [OF l3])+
  note l4 = good_le [OF 4 l3]
  have 5: "good_step c4 c5" unfolding c5_def by (rule static_good) (rule svc [OF l4] mws [OF l4])+
  note l5 = good_le [OF 5 l4]
  have 6: "good_step c5 c6" unfolding c6_def by (rule locations_good) (rule base [OF l5])
  have 7: "good_step c6 (proxy_redirect inp h c6)"
    by (rule redirect_good) (rule svc [OF good_le [OF 6 l5]])
  have "renderProxyHost L by al inp h c = proxy_redirect inp h c6"
    by (simp add: renderProxyHost_def ch Let_def c1_def [symmetric] mws_def c3_def c4_def c5_def c6_def)
  with good_step_trans [OF 1 good_step_trans [OF 2 good_step_trans [OF 3 good_step_trans [OF 4
      good_step_trans [OF 5 good_step_trans [OF 6 7]]]]]] show ?thesis by simp
qed

lemma noop_good: "good_step c (put_noop c)" and noop_svc: "''noop'' \<in> svcs (put_noop c)"
proof -
  show "good_step c (put_noop c)" by (simp add: put_noop_def good_put_service)
  show "''noop'' \<in> svcs (put_noop c)"
    by (simp add: put_noop_def svcs_def map_of_eq_None_iff)
qed

lemma dead_good: "good_step c (renderDeadHost inp h c)"
  unfolding renderDeadHost_def
  by (rule good_step_trans [OF noop_good good_put_router]) (simp_all add: noop_svc)

lemma redirection_good:
  assumes ok: "shared_ok by al inp c"
  shows "good_step c (renderRedirectionHost by inp h c)"
proof -
  define rname where "rname = host_name h @ ''-redirect''"
  have body: "good_step c (put_router n (mk_router r ''noop'' eps (rname # own) pr tls) c2)"
    if col: "collectMiddlewareNames by h (put_noop (put_mw rname m c)) = (own, c2)"
    for n r eps pr tls m own c2
  proof -
    let ?c1 = "put_noop (put_mw rname m c)"
    have 1: "good_step c ?c1" using good_step_trans [OF good_put_mw noop_good] .
    then have le: "cfg_le c ?c1" by (simp add: good_step_def)
    note f = collect_fields [OF col]
    have 2: "good_step ?c1 c2" using f(1,3) by (blast intro: good_same_routers)
    have "''noop'' \<in> svcs c2" using noop_svc f(3) by (auto simp: cfg_le_def)
    moreover have "rname \<in> mwns ?c1" using noop_good [of "put_mw rname m c"] by (auto simp: good_step_def cfg_le_def)
    moreover have "set own \<subseteq> mwns c2"
      using f(4) shared_ok_le [OF ok le] by (simp add: shared_ok_def mwns_def)
    ultimately have "good_step c2 (put_router n (mk_router r ''noop'' eps (rname # own) pr tls) c2)"
      using f(3) by (intro good_put_router) (auto simp: cfg_le_def)
    with 1 2 show ?thesis by (metis good_step_trans)
  qed
  then show ?thesis
    unfolding renderRedirectionHost_def Let_def rname_def [symmetric]
    by (auto split: prod.split)
qed

lemma stream_good: "good_step c (renderStreamHost uni h c)"
  by (rule good_same_routers) (auto simp: renderStreamHost_def Let_def cfg_le_def svcs_def mwns_def)

lemma render_host_good:
  "shared_ok by al inp c \<Longrightarrow> good_step c (render_host L uni by al inp h c)"
  by (simp add: render_host_def proxy_good redirection_good stream_good dead_good)

lemma render_hosts_good:
  assumes "shared_ok by (acl_index (in_AccessLists inp)) inp c"
  shows "good_step c (render_hosts L uni by inp c)"
proof -
  have "good_step c (fold (render_host L uni by al inp) hs c)" if "shared_ok by al inp c" for hs al
    using that
  proof (induction hs arbitrary: c)
    case (Cons h hs)
    have g: "good_step c (render_host L uni by al inp h c)" using Cons.prems by (rule render_host_good)
    then have "shared_ok by al inp (render_host L uni by al inp h c)"
      using Cons.prems shared_ok_le by (auto simp: good_step_def)
    with Cons.IH g show ?case using good_step_trans by fastforce
  qed simp
  with assms show ?thesis by (simp add: render_hosts_def)
qed

section \<open>The whole document\<close>

lemma render_middlewares_inv:
  assumes "render_middlewares L ms ix c = Inr (ix', c')"
    and "\<forall>id m. mget ix id = Some m \<longrightarrow> mwName m \<in> mwns c"
  shows "good_step c c' \<and> (\<forall>id m. mget ix' id = Some m \<longrightarrow> mwName m \<in> mwns c')"
  using assms
proof (induction L ms ix c rule: render_middlewares.induct)
  case (2 L m ms ix c)
  then obtain mw where mw: "BuildMiddleware L (mw_Type m) (mw_Params m) = Inr mw"
    by (auto split: sum.splits)
  have "good_step (put_mw (mwName m) mw c) c' \<and> (\<forall>id m. mget ix' id = Some m \<longrightarrow> mwName m \<in> mwns c')"
    using 2 mw by auto
  then show ?case using good_step_trans [OF good_put_mw] by blast
qed simp

lemma acl_step_good: "good_step c (render_access_list a c)"
  by (auto simp: render_access_list_def Let_def good_put_mw intro: good_step_trans [OF good_put_mw good_put_mw])

lemma acl_steps_good: "good_step c (fold render_access_list as c)"
proof (induction as arbitrary: c)
  case (Cons a as)
  show ?case using good_step_trans [OF acl_step_good Cons.IH] by simp
qed simp

lemma acl_steps_defined:
  assumes "a \<in> set as"
  shows "(al_AllowIPs a \<noteq> [] \<longrightarrow> acl_ip a \<in> mwns (fold render_access_list as c))
    \<and> (acl_users a \<noteq> [] \<longrightarrow> acl_auth a \<in> mwns (fold render_access_list as c))"
  using assms
proof (induction as arbitrary: c)
  case (Cons b as)
  have mono: "mwns (render_access_list b c) \<subseteq> mwns (fold render_access_list as (render_access_list b c))"
    using acl_steps_good by (simp add: good_step_def cfg_le_def)
  show ?case
  proof (cases "a = b")
    case True
    have "(al_AllowIPs b \<noteq> [] \<longrightarrow> acl_ip b \<in> mwns (render_access_list b c))
      \<and> (acl_users b \<noteq> [] \<longrightarrow> acl_auth b \<in> mwns (render_access_list b c))"
      by (auto simp: render_access_list_def Let_def acl_users_def)
    with mono True show ?thesis by auto
  next
    case False
    with Cons show ?thesis by simp
  qed
qed simp

lemma acl_index_mem: "mget (acl_index as) k = Some a \<Longrightarrow> a \<in> set as"
proof -
  have "mget (fold (\<lambda>a. mput (al_ID a) a) as m) k = Some a \<Longrightarrow> a \<in> set as \<or> mget m k = Some a" for m
  proof (induction as arbitrary: m)
    case (Cons b as)
    from Cons.IH [of "mput (al_ID b) b m"] Cons.prems show ?case by (auto split: if_splits)
  qed simp
  from this [of "[]"] show "mget (acl_index as) k = Some a \<Longrightarrow> a \<in> set as"
    by (simp add: acl_index_def)
qed

lemma shared_steps:
  "good_step c (render_token inp c)" "good_step c (render_content inp c)" "good_step c (render_certs inp c)"
  by (auto simp: render_token_def render_content_def good_put_mw good_put_service render_certs_def
      cfg_le_def svcs_def mwns_def intro: good_same_routers)

lemma render_shared_good: "good_step c (render_shared inp c)"
  unfolding render_shared_def
  by (rule good_step_trans [OF acl_steps_good
        good_step_trans [OF shared_steps(1) good_step_trans [OF shared_steps(2) shared_steps(3)]]])

lemma render_shared_ok:
  assumes by_id: "\<forall>id m. mget by id = Some m \<longrightarrow> mwName m \<in> mwns c"
    and users: "\<forall>a \<in> set (in_AccessLists inp). al_Users a \<noteq> [] \<longrightarrow> acl_users a \<noteq> []"
  shows "shared_ok by (acl_index (in_AccessLists inp)) inp (render_shared inp c)"
proof -
  define a where "a = fold render_access_list (in_AccessLists inp) c"
  define t where "t = render_token inp a"
  have s: "render_shared inp c = render_certs inp (render_content inp t)"
    by (simp add: render_shared_def a_def t_def)
  have ca: "mwns c \<subseteq> mwns a" unfolding a_def by (rule good_mwns) (rule acl_steps_good)
  have at: "mwns a \<subseteq> mwns t" unfolding t_def by (rule good_mwns) (rule shared_steps)
  have ts: "mwns t \<subseteq> mwns (render_shared inp c)"
    unfolding s by (rule good_mwns) (rule good_step_trans [OF shared_steps(2) shared_steps(3)])
  have 1: "mwName m \<in> mwns (render_shared inp c)" if "mget by id = Some m" for id m
    using by_id that subset_trans [OF ca subset_trans [OF at ts]] by (auto dest: subsetD)
  have 2: "(al_AllowIPs x \<noteq> [] \<longrightarrow> acl_ip x \<in> mwns (render_shared inp c))
      \<and> (al_Users x \<noteq> [] \<longrightarrow> acl_auth x \<in> mwns (render_shared inp c))"
    if "mget (acl_index (in_AccessLists inp)) k = Some x" for k x
  proof -
    have x: "x \<in> set (in_AccessLists inp)" using that by (rule acl_index_mem)
    from acl_steps_defined [OF this, of c] have "al_AllowIPs x \<noteq> [] \<longrightarrow> acl_ip x \<in> mwns a"
      "acl_users x \<noteq> [] \<longrightarrow> acl_auth x \<in> mwns a" by (simp_all add: a_def)
    moreover have "al_Users x \<noteq> [] \<longrightarrow> acl_users x \<noteq> []" using users x by blast
    moreover have "mwns a \<subseteq> mwns (render_shared inp c)" using at ts by (rule subset_trans)
    ultimately show ?thesis by (auto dest: subsetD)
  qed
  have 3: "cacheTokenMW \<in> mwns (render_shared inp c)"
    if "in_CacheBackend inp \<noteq> [] \<and> in_CacheToken inp \<noteq> [] \<and> (in_CacheEnabled inp \<or> in_WAFEnabled inp)"
  proof -
    have "cacheTokenMW \<in> mwns t" using that by (simp add: t_def render_token_def)
    with ts show ?thesis by blast
  qed
  show ?thesis
    unfolding shared_ok_def by (intro conjI allI impI; (rule 1 3 2 [THEN conjunct1, rule_format] 2 [THEN conjunct2, rule_format]; assumption))
qed

lemma good_svc_router: "good_step c (put_router k (mk_router r n eps [] p t) (put_service n s c))"
  by (rule good_step_trans [OF good_put_service good_put_router]) simp_all

lemma render_challenge_good: "good_step c (render_challenge inp c)"
  by (simp add: render_challenge_def good_svc_router)

lemma render_certs_names [simp]: "svcs (render_certs inp c) = svcs c" "mwns (render_certs inp c) = mwns c"
  by (simp_all add: render_certs_def svcs_def mwns_def)

lemma content_svc: "in_ContentBackend inp \<noteq> [] \<Longrightarrow> ''xgress-content'' \<in> svcs (render_shared inp c)"
  by (simp add: render_shared_def render_content_def)

lemma two_routers_good:
  assumes "s \<in> svcs c"
  shows "good_step c (put_router n1 (mk_router r1 s e1 [k] p1 t1) (put_router n2 (mk_router r2 s e2 [k] p2 t2) (put_mw k m c)))"
proof -
  have "good_step (put_mw k m c) (put_router n2 (mk_router r2 s e2 [k] p2 t2) (put_mw k m c))"
    by (rule good_put_router) (simp_all add: assms)
  moreover have "good_step (put_router n2 (mk_router r2 s e2 [k] p2 t2) (put_mw k m c))
      (put_router n1 (mk_router r1 s e1 [k] p1 t1) (put_router n2 (mk_router r2 s e2 [k] p2 t2) (put_mw k m c)))"
    by (rule good_put_router) (simp_all add: assms)
  ultimately show ?thesis by (rule good_step_trans [OF good_put_mw good_step_trans])
qed

lemma tail_good:
  assumes "in_ContentBackend inp \<noteq> [] \<longrightarrow> ''xgress-content'' \<in> svcs c" "in_RawConfig inp = None"
  shows "good_step c (render_tail inp c)"
proof -
  have 1: "good_step c (render_default_site inp c)"
    using assms(1) by (simp add: render_default_site_def two_routers_good)
  then have "in_ContentBackend inp \<noteq> [] \<longrightarrow> ''xgress-content'' \<in> svcs (render_default_site inp c)"
    using assms(1) by (auto simp: good_step_def cfg_le_def)
  then have "good_step (render_default_site inp c) (render_banned inp (render_default_site inp c))"
    by (simp add: render_banned_def two_routers_good)
  with 1 assms(2) show ?thesis
    by (simp add: render_tail_def Let_def) (rule good_step_trans)
qed

text \<open>What a document must satisfy for Traefik to accept every router in it.\<close>

definition doc_refs_ok :: "dyn_config \<Rightarrow> bool" where
  "doc_refs_ok d \<longleftrightarrow> (\<forall>s n r. dc_HTTP d = Some s \<longrightarrow> mget (hs_Routers s) n = Some (Some r) \<longrightarrow>
     rt_Service r \<in> mkeys (hs_Services s) \<and> set (rt_Middlewares r) \<subseteq> mkeys (hs_Middlewares s))"


section \<open>A concrete installation\<close>

definition plain_libs :: libs where
  "plain_libs = \<lparr>lib_decode_mw = (\<lambda>j. Inr (MwDecoded j)), lib_yaml = (\<lambda>_. Inl ''no yaml''),
     lib_json = (\<lambda>_. Inr ''{}''), lib_recode = (\<lambda>_. None), lib_sha = (\<lambda>s. s)\<rparr>"

definition office :: access_list where
  "office = \<lparr>al_ID = ''o'', al_Name = ''office'', al_Users = [\<lparr>alu_Username = ''u'', alu_Hash = ''h''\<rparr>],
     al_AllowIPs = [''10.0.0.0/8''], al_SatisfyAny = True, al_CreatedAt = 0, al_UpdatedAt = 0\<rparr>"

definition shop :: host where
  "shop = zero_host\<lparr>h_ID := ''s'', h_Kind := HostKindProxy, h_Enabled := True, h_Domains := [''a.io''],
     h_Upstreams := [\<lparr>u_Scheme = [], u_Host = ''b'', u_Port = 80, u_Weight = 0\<rparr>],
     h_Locations := [\<lparr>loc_PathPrefix = ''/x'', loc_Upstreams = [\<lparr>u_Scheme = [], u_Host = ''c'', u_Port = 0, u_Weight = 0\<rparr>],
        loc_StripPrefix = True\<rparr>],
     h_AccessListIDs := [''o''], h_TLS := TLSNone, h_WAF := True\<rparr>"

definition site :: inputs where
  "site = \<lparr>in_Hosts = [shop], in_Middlewares = [], in_Certificates = [], in_AccessLists = [office],
     in_EntryPoints = \<lparr>ep_HTTP = ''web'', ep_HTTPS = ''websecure''\<rparr>, in_ChallengeBackend = [],
     in_ContentBackend = ''http://c'', in_DefaultSiteEnabled = False, in_RawConfig = None,
     in_WAFEnabled = True, in_CacheEnabled = False, in_CacheBackend = ''http://e'', in_CacheToken = ''t'',
     in_ExternalCerts = [], in_BannedIPs = [''9.9.9.9'']\<rparr>"

lemma site_renders: "Render plain_libs (\<lambda>s. s) site = Inr (projr (Render plain_libs (\<lambda>s. s) site))"
proof -
  have "in_Middlewares site = []" "lib_json plain_libs d = Inr ''{}''" for d
    by (simp_all add: site_def plain_libs_def)
  then show ?thesis by (simp add: Render_def Let_def)
qed


end
