(* ===== verification/RenderSafety.thy ===== *)
theory RenderSafety
  imports RenderRefs
begin

text \<open>
  What the rendered routers guarantee: traffic of a host with the firewall on reaches the edge on
  every path, the ban routers outrank everything else, and how satisfy-any access lists and path
  locations are ordered. \<open>frame\<close> says which names rendering a host may touch.
\<close>

section \<open>Frames\<close>

definition frame :: "host \<Rightarrow> cfg_build \<Rightarrow> cfg_build \<Rightarrow> bool" where
  "frame h c c' \<longleftrightarrow>
     (\<forall>n. \<not> prefix (host_name h) n \<longrightarrow> mget (cb_Routers c') n = mget (cb_Routers c) n) \<and>
     (\<forall>n. \<not> prefix (svc_name h) n \<longrightarrow> \<not> prefix (host_name h) n \<longrightarrow> n \<noteq> ''noop'' \<longrightarrow>
        mget (cb_Services c') n = mget (cb_Services c) n)"

lemma frame_refl [simp]: "frame h c c"
  by (simp add: frame_def)

lemma frame_trans: "frame h c d \<Longrightarrow> frame h d e \<Longrightarrow> frame h c e"
  by (simp add: frame_def)

lemma frame_mw [simp]: "frame h c (put_mw n m c)"
  by (simp add: frame_def)

lemma frame_router: "prefix (host_name h) n \<Longrightarrow> frame h c (put_router n r c)"
  by (auto simp: frame_def)

lemma frame_service: "prefix (svc_name h) n \<Longrightarrow> frame h c (put_service n s c)"
  by (auto simp: frame_def)

lemma frame_noop: "frame h c (put_noop c)"
  by (auto simp: frame_def put_noop_def)

lemma host_names [simp]:
  "prefix (host_name h) (host_name h @ s)" "prefix (host_name h) (loc_router h i)"
  "prefix (host_name h) (raw_ns h n)" "prefix (svc_name h) (group_name h i)" "prefix (svc_name h) (loc_svc h i)"
  by (simp_all add: host_name_def svc_name_def loc_router_def raw_ns_def group_name_def loc_svc_def)

lemma frame_groups: "frame h c (put_groups h c)"
proof -
  have "frame h c (fold (\<lambda>(i, g). put_service (group_name h i) (k g)) xs c)"
    for k :: "backend_group \<Rightarrow> dyn_service" and xs
  proof (induction xs arbitrary: c)
    case (Cons x xs)
    show ?case
      by (cases x) (auto intro: frame_trans [OF frame_service Cons.IH])
  qed simp
  then show ?thesis unfolding put_groups_def by simp
qed

lemma frame_build: "frame h c (buildHostService inp h c)"
  by (auto simp: buildHostService_def intro: frame_service frame_trans [OF frame_groups frame_service])

lemma frame_collect: "collectMiddlewareNames ix h c = (ns, c') \<Longrightarrow> frame h c c'"
  using collect_fields [of ix h c ns c'] by (simp add: frame_def)

lemma frame_errors: "errorPagesMiddleware h cb c = (n, c') \<Longrightarrow> frame h c c'"
  using errorPages_fields [of h cb c n c'] by (simp add: frame_def)

lemma fold_mput_other:
  "n \<notin> (f \<circ> fst) ` set xs \<Longrightarrow> mget (fold (\<lambda>(k, v). mput (f k) v) xs m) n = mget m n"
proof (induction xs arbitrary: m)
  case (Cons x xs)
  from Cons.IH [of "mput (f (fst x)) (snd x) m"] Cons.prems show ?case by (cases x) simp
qed simp

lemma raw_services_other:
  assumes "perHostRawMiddlewares L h c = (ns, c')" "\<not> prefix (host_name h) n"
  shows "mget (cb_Services c') n = mget (cb_Services c) n"
proof -
  have n: "n \<notin> (raw_ns h \<circ> fst) ` set xs" for xs :: "(string \<times> dyn_service option) list"
    using assms(2) by auto
  show ?thesis
    using assms(1) n by (auto simp: perHostRawMiddlewares_def fold_mput_other
        split: if_splits sum.splits option.splits)
qed

lemma frame_raw: "perHostRawMiddlewares L h c = (ns, c') \<Longrightarrow> frame h c c'"
  using perHostRaw_fields(1) [of L h c ns c'] raw_services_other [of L h c ns c'] by (simp add: frame_def)

lemma frame_chain:
  assumes "proxy_chain L ix al inp h c = (base, c')"
  shows "frame h c c'"
proof -
  obtain own c1 where 1: "collectMiddlewareNames ix h c = (own, c1)" by fastforce
  obtain ep c2 where 2: "errorPagesMiddleware h (in_ContentBackend inp) c1 = (ep, c2)" by fastforce
  obtain raw c3 where 3: "perHostRawMiddlewares L h c2 = (raw, c3)" by fastforce
  have "c' = c3" using assms by (simp add: proxy_chain_def 1 2 3)
  with frame_trans [OF frame_collect [OF 1] frame_trans [OF frame_errors [OF 2] frame_raw [OF 3]]]
  show ?thesis by simp
qed

lemma frame_main: "frame h c (proxy_main inp h mws c)"
  by (simp add: proxy_main_def frame_router)

lemma frame_bypass: "frame h c (addSatisfyAnyBypass al h mws s e t c)"
  by (simp add: addSatisfyAnyBypass_def Let_def frame_router)

lemma frame_static: "frame h c (proxy_static inp h mws c)"
  using frame_trans [OF frame_mw frame_router] by (simp add: proxy_static_def)

lemma frame_redirect: "frame h c (proxy_redirect inp h c)"
  using frame_trans [OF frame_mw frame_router] by (simp add: proxy_redirect_def)

lemma frame_location: "frame h c (proxy_location inp h base p c)"
proof -
  obtain i loc where p: "p = (i, loc)" by (cases p)
  have "frame h c (put_service (loc_svc h i) s c)"
    "frame h c (put_mw n m (put_service (loc_svc h i) s c))" for s n m
    using frame_trans [OF frame_service frame_mw] frame_service by simp_all
  then have "frame h c (put_router (loc_router h i) r (put_service (loc_svc h i) s c))"
    "frame h c (put_router (loc_router h i) r (put_mw n m (put_service (loc_svc h i) s c)))" for r s n m
    using frame_trans frame_router host_names(2) by blast+
  then show ?thesis by (simp add: p proxy_location_def Let_def)
qed

lemma frame_locations: "frame h c (proxy_locations inp h base c)"
proof -
  have "frame h c (fold (proxy_location inp h base) ps c)" for ps
  proof (induction ps arbitrary: c)
    case (Cons p ps)
    show ?case using frame_trans [OF frame_location Cons.IH] by simp
  qed simp
  then show ?thesis by (simp add: proxy_locations_def)
qed

lemma frame_proxy: "frame h c (renderProxyHost L ix al inp h c)"
proof -
  obtain base c2 where ch: "proxy_chain L ix al inp h (buildHostService inp h c) = (base, c2)" by fastforce
  show ?thesis
    unfolding renderProxyHost_def ch Let_def prod.case
    by (rule frame_trans [OF frame_build frame_trans [OF frame_chain [OF ch]
          frame_trans [OF frame_main frame_trans [OF frame_bypass frame_trans [OF frame_static
            frame_trans [OF frame_locations frame_redirect]]]]]])
qed

lemma frame_redirection: "frame h c (renderRedirectionHost ix inp h c)"
proof -
  have "frame h c (put_router (host_name h) r c2)"
    if "collectMiddlewareNames ix h (put_noop (put_mw n m c)) = (own, c2)" for r n m own c2
    using that by (intro frame_trans [OF frame_mw frame_trans [OF frame_noop frame_trans [OF frame_collect frame_router]]]) simp_all
  then show ?thesis
    unfolding renderRedirectionHost_def Let_def by (auto split: prod.split)
qed

lemma frame_dead: "frame h c (renderDeadHost inp h c)"
  unfolding renderDeadHost_def by (rule frame_trans [OF frame_noop frame_router]) simp

lemma frame_stream: "frame h c (renderStreamHost uni h c)"
  by (simp add: renderStreamHost_def Let_def frame_def)

lemma frame_host: "frame h c (render_host L uni ix al inp h c)"
  by (simp add: render_host_def frame_proxy frame_redirection frame_dead frame_stream)

section \<open>Hosts behind the firewall\<close>

text \<open>Every router of the host that is in the configuration targets the host's own service.\<close>

definition only_own_service :: "host \<Rightarrow> cfg_build \<Rightarrow> bool" where
  "only_own_service h c \<longleftrightarrow> (\<forall>n r. prefix (host_name h) n \<longrightarrow> mget (cb_Routers c) n = Some (Some r) \<longrightarrow>
     rt_Service r = svc_name h)"

definition edge_service :: "inputs \<Rightarrow> dyn_service" where
  "edge_service inp = lb_service (one_server (in_CacheBackend inp) (Some True))"

definition at_edge :: "inputs \<Rightarrow> host \<Rightarrow> cfg_build \<Rightarrow> bool" where
  "at_edge inp h c \<longleftrightarrow> mget (cb_Services c) (svc_name h) = Some (Some (edge_service inp))
     \<and> mget (cb_Routers c) (host_name h) \<noteq> None"

lemma own_put:
  "only_own_service h c \<Longrightarrow> rt_Service r = svc_name h \<Longrightarrow> only_own_service h (put_router n r c)"
  "only_own_service h (put_mw k m c) = only_own_service h c"
  "only_own_service h (put_service k s c) = only_own_service h c"
  by (auto simp: only_own_service_def)

lemma own_same_routers: "cb_Routers c' = cb_Routers c \<Longrightarrow> only_own_service h c' = only_own_service h c"
  by (simp add: only_own_service_def)

lemma svc_not_host: "\<not> prefix (host_name g) (svc_name h)" "svc_name h \<noteq> ''noop''"
  by (simp_all add: host_name_def svc_name_def)

lemma chain_routers:
  assumes "proxy_chain L ix al inp h c = (base, c')"
  shows "cb_Routers c' = cb_Routers c" "mget (cb_Services c') (svc_name h) = mget (cb_Services c) (svc_name h)"
proof -
  obtain own c1 where 1: "collectMiddlewareNames ix h c = (own, c1)" by fastforce
  obtain ep c2 where 2: "errorPagesMiddleware h (in_ContentBackend inp) c1 = (ep, c2)" by fastforce
  obtain raw c3 where 3: "perHostRawMiddlewares L h c2 = (raw, c3)" by fastforce
  have c: "c' = c3" using assms by (simp add: proxy_chain_def 1 2 3)
  show "cb_Routers c' = cb_Routers c"
    using collect_fields(1) [OF 1] errorPages_fields(1) [OF 2] perHostRaw_fields(1) [OF 3] by (simp add: c)
  show "mget (cb_Services c') (svc_name h) = mget (cb_Services c) (svc_name h)"
    using collect_fields(2) [OF 1] errorPages_fields(2) [OF 2] raw_services_other [OF 3 svc_not_host(1)]
    by (simp add: c)
qed

lemma locations_waf:
  assumes "h_WAF h" "in_WAFEnabled inp"
  shows "proxy_locations inp h base c = c"
proof -
  have "fold (proxy_location inp h base) ps c = c" for ps
    by (induction ps) (use assms in \<open>simp_all add: proxy_location_def split_beta\<close>)
  then show ?thesis by (simp add: proxy_locations_def)
qed

lemma proxy_tail_services:
  "cb_Services (proxy_main inp h mws c) = cb_Services c"
  "cb_Services (addSatisfyAnyBypass al h mws s e t c) = cb_Services c"
  "cb_Services (proxy_static inp h mws c) = cb_Services c"
  "cb_Services (proxy_redirect inp h c) = cb_Services c"
  by (simp_all add: proxy_main_def addSatisfyAnyBypass_def proxy_static_def proxy_redirect_def Let_def)

lemma proxy_tail_keeps_router:
  "mget (cb_Routers c) n \<noteq> None \<Longrightarrow> mget (cb_Routers (addSatisfyAnyBypass al h mws s e t c)) n \<noteq> None"
  "mget (cb_Routers c) n \<noteq> None \<Longrightarrow> mget (cb_Routers (proxy_static inp h mws c)) n \<noteq> None"
  "mget (cb_Routers c) n \<noteq> None \<Longrightarrow> mget (cb_Routers (proxy_redirect inp h c)) n \<noteq> None"
  by (auto simp: addSatisfyAnyBypass_def proxy_static_def proxy_redirect_def Let_def)

lemma proxy_tail_own:
  assumes "only_own_service h c"
  shows "only_own_service h (proxy_main inp h mws c)"
    "only_own_service h (addSatisfyAnyBypass al h mws (svc_name h) e t c)"
    "only_own_service h (proxy_static inp h mws c)" "only_own_service h (proxy_redirect inp h c)"
  using assms
  by (simp_all add: proxy_main_def addSatisfyAnyBypass_def proxy_static_def proxy_redirect_def Let_def own_put)

lemma proxy_waf:
  assumes waf: "h_WAF h" "in_WAFEnabled inp" "in_CacheBackend inp \<noteq> []" and own: "only_own_service h c"
  shows "only_own_service h (renderProxyHost L ix al inp h c) \<and> at_edge inp h (renderProxyHost L ix al inp h c)"
proof -
  define c1 where "c1 = buildHostService inp h c"
  obtain base c2 where ch: "proxy_chain L ix al inp h c1 = (base, c2)" by fastforce
  define mws where "mws = with_token inp h base"
  define c3 where "c3 = proxy_main inp h mws c2"
  define c4 where "c4 = addSatisfyAnyBypass al h mws (svc_name h) (entry_of inp (tls_enabled h)) (tls_enabled h) c3"
  define c5 where "c5 = proxy_static inp h mws c4"
  have r: "renderProxyHost L ix al inp h c = proxy_redirect inp h c5"
    using locations_waf [OF waf(1,2)]
    by (simp add: renderProxyHost_def Let_def ch c1_def [symmetric] mws_def c3_def c4_def c5_def)
  have "only_own_service h c2"
    using own own_same_routers chain_routers(1) [OF ch] buildHostService_fields(1) [of inp h c] c1_def by metis
  then have "only_own_service h c3" unfolding c3_def by (rule proxy_tail_own)
  then have "only_own_service h c4" unfolding c4_def by (rule proxy_tail_own)
  then have "only_own_service h c5" unfolding c5_def by (rule proxy_tail_own)
  then have 1: "only_own_service h (proxy_redirect inp h c5)" by (rule proxy_tail_own)
  have "mget (cb_Services c1) (svc_name h) = Some (Some (edge_service inp))"
    using waf by (simp add: c1_def buildHostService_def routesToEdge_def edge_service_def)
  then have 2: "mget (cb_Services (proxy_redirect inp h c5)) (svc_name h) = Some (Some (edge_service inp))"
    using chain_routers(2) [OF ch] by (simp add: c3_def c4_def c5_def proxy_tail_services)
  have "mget (cb_Routers c3) (host_name h) \<noteq> None" by (simp add: c3_def proxy_main_def)
  then have 3: "mget (cb_Routers (proxy_redirect inp h c5)) (host_name h) \<noteq> None"
    unfolding c4_def c5_def by (intro proxy_tail_keeps_router)
  from 1 2 3 show ?thesis by (simp add: r at_edge_def)
qed

lemma same_length_names:
  assumes "length (h_ID g) = length (h_ID h)" "h_ID g \<noteq> h_ID h"
  shows "\<not> prefix (host_name g) (host_name h @ s)" "\<not> prefix (svc_name g) (svc_name h)"
  using assms by (auto simp: host_name_def svc_name_def prefix_def append_eq_append_conv)

lemma frame_keeps:
  assumes fr: "frame g c c'" and id: "length (h_ID g) = length (h_ID h)" "h_ID g \<noteq> h_ID h"
  shows "only_own_service h c \<Longrightarrow> only_own_service h c'" "at_edge inp h c \<Longrightarrow> at_edge inp h c'"
proof -
  have "mget (cb_Routers c') n = mget (cb_Routers c) n" if "prefix (host_name h) n" for n
    using fr same_length_names(1) [OF id] that by (auto simp: frame_def elim!: prefixE)
  moreover have "mget (cb_Services c') (svc_name h) = mget (cb_Services c) (svc_name h)"
    using fr same_length_names(2) [OF id] svc_not_host by (simp add: frame_def)
  ultimately show "only_own_service h c \<Longrightarrow> only_own_service h c'" "at_edge inp h c \<Longrightarrow> at_edge inp h c'"
    by (simp_all add: only_own_service_def at_edge_def)
qed

lemma hosts_waf:
  assumes "h_Enabled h" "h_Kind h = HostKindProxy" "h_WAF h" "in_WAFEnabled inp" "in_CacheBackend inp \<noteq> []"
    and "distinct (map h_ID hs)" "\<forall>g \<in> set hs. length (h_ID g) = length (h_ID h)"
    and "only_own_service h c" "h \<in> set hs \<or> at_edge inp h c \<and> h_ID h \<notin> h_ID ` set hs"
  shows "only_own_service h (fold (render_host L uni ix al inp) hs c)
    \<and> at_edge inp h (fold (render_host L uni ix al inp) hs c)"
  using assms(6-9)
proof (induction hs arbitrary: c)
  case (Cons g hs)
  let ?c = "render_host L uni ix al inp g c"
  show ?case
  proof (cases "h_ID g = h_ID h")
    case True
    have "h_ID h \<notin> h_ID ` set hs" using Cons.prems(1) True by simp
    then have "h \<notin> set hs" by blast
    moreover have "h \<in> set (g # hs)" using Cons.prems(4) True by simp
    ultimately have "g = h" by simp
    then have "?c = renderProxyHost L ix al inp h c" using assms(1,2) by (simp add: render_host_def)
    with proxy_waf [OF assms(3-5) Cons.prems(3)] have "only_own_service h ?c" "at_edge inp h ?c" by simp_all
    with Cons.IH [of ?c] Cons.prems(1,2) \<open>h_ID h \<notin> h_ID ` set hs\<close> show ?thesis by simp
  next
    case False
    with Cons.prems(2) have len: "length (h_ID g) = length (h_ID h)" by simp
    have "only_own_service h ?c" using frame_keeps(1) [OF frame_host len False Cons.prems(3)] .
    moreover have "h \<in> set hs \<or> at_edge inp h ?c \<and> h_ID h \<notin> h_ID ` set hs"
    proof (cases "h \<in> set hs")
      case notin: False
      moreover have "h \<noteq> g" using False by blast
      ultimately have "at_edge inp h c" "h_ID h \<notin> h_ID ` set hs" using Cons.prems(4) by simp_all
      then show ?thesis using frame_keeps(2) [OF frame_host len False] by blast
    qed simp
    ultimately show ?thesis using Cons.IH [of ?c] Cons.prems(1,2) by simp
  qed
qed simp

section \<open>Before and after the hosts\<close>

lemma render_middlewares_routers:
  "render_middlewares L ms ix c = Inr (ix', c') \<Longrightarrow> cb_Routers c' = cb_Routers c"
  by (induction L ms ix c rule: render_middlewares.induct) (auto split: sum.splits)

lemma render_shared_routers: "cb_Routers (render_shared inp c) = cb_Routers c"
proof -
  have "cb_Routers (fold render_access_list as c) = cb_Routers c" for as
    by (induction as arbitrary: c) (simp_all add: render_access_list_def Let_def)
  then show ?thesis
    by (simp add: render_shared_def render_certs_def render_content_def render_token_def)
qed

lemma mergeMap_Some: "mget dst k = Some v \<Longrightarrow> mget (mergeMap dst src) k = Some v"
proof -
  have "mget m k = Some v \<Longrightarrow> mget (fold (\<lambda>(k, v) m. if mget m k = None then mput k v m else m) src m) k = Some v" for m
  proof (induction src arbitrary: m)
    case (Cons x src)
    obtain a b where x: "x = (a, b)" by (cases x)
    from Cons.IH [of "if mget m a = None then mput a b m else m"] Cons.prems show ?case by (cases "k = a") (auto simp: x)
  qed simp
  then show "mget dst k = Some v \<Longrightarrow> mget (mergeMap dst src) k = Some v" by (simp add: mergeMap_def)
qed

lemma mergeMap_new:
  "mget (mergeMap dst src) k = Some v \<Longrightarrow> mget dst k = Some v \<or> (k, v) \<in> set src"
proof -
  have "mget (fold (\<lambda>(k, v) m. if mget m k = None then mput k v m else m) xs m) k = Some v \<Longrightarrow>
      mget m k = Some v \<or> (k, v) \<in> set xs" for xs m
  proof (induction xs arbitrary: m)
    case (Cons x xs)
    obtain a b where x: "x = (a, b)" by (cases x)
    from Cons.IH [of "if mget m a = None then mput a b m else m"] Cons.prems
    show ?case by (auto simp: x split: if_splits)
  qed simp
  from this [of src dst] show "mget (mergeMap dst src) k = Some v \<Longrightarrow> mget dst k = Some v \<or> (k, v) \<in> set src"
    by (simp add: mergeMap_def)
qed

text \<open>The routers of the global raw configuration.\<close>

definition raw_routers :: "inputs \<Rightarrow> router ptr_map" where
  "raw_routers inp =
     (case in_RawConfig inp of None \<Rightarrow> []
      | Some d \<Rightarrow> (case dc_HTTP d of None \<Rightarrow> [] | Some s \<Rightarrow> hs_Routers s))"

lemma merge_fields:
  "cb_Routers (mergeConfig c d) =
     (case dc_HTTP d of None \<Rightarrow> cb_Routers c | Some s \<Rightarrow> mergeMap (cb_Routers c) (hs_Routers s))"
  "cb_Services (mergeConfig c d) =
     (case dc_HTTP d of None \<Rightarrow> cb_Services c | Some s \<Rightarrow> mergeMap (cb_Services c) (hs_Services s))"
  by (simp_all add: mergeConfig_def Let_def split: option.split)

definition sys_routers :: "inputs \<Rightarrow> cfg_build \<Rightarrow> cfg_build" where
  "sys_routers inp c = render_banned inp (render_default_site inp c)"

lemma tail_routers:
  "mget (cb_Routers (render_tail inp c)) n = Some (Some r) \<Longrightarrow>
   mget (cb_Routers (sys_routers inp c)) n = Some (Some r) \<or> (n, Some r) \<in> set (raw_routers inp)"
  by (auto simp: render_tail_def sys_routers_def raw_routers_def merge_fields Let_def
      dest: mergeMap_new split: option.splits)

lemma tail_keeps_router:
  "mget (cb_Routers (sys_routers inp c)) n = Some x \<Longrightarrow> mget (cb_Routers (render_tail inp c)) n = Some x"
  by (auto simp: render_tail_def sys_routers_def merge_fields mergeMap_Some Let_def split: option.splits)

lemma sys_services: "cb_Services (sys_routers inp c) = cb_Services c"
  by (simp add: sys_routers_def render_banned_def render_default_site_def)

lemma tail_keeps_service:
  "mget (cb_Services c) n = Some x \<Longrightarrow> mget (cb_Services (render_tail inp c)) n = Some x"
  using sys_services [of inp c]
  by (auto simp: render_tail_def sys_routers_def merge_fields mergeMap_Some Let_def split: option.splits)

lemma sys_host_routers:
  assumes "prefix (host_name h) n"
  shows "mget (cb_Routers (sys_routers inp c)) n = mget (cb_Routers c) n"
proof -
  obtain s where "n = ''host-'' @ s" using assms by (auto simp: host_name_def prefix_def)
  then show ?thesis by (simp add: sys_routers_def render_banned_def render_default_site_def)
qed

text \<open>The pieces a successful rendering goes through.\<close>

lemma Render_parts:
  assumes "Render L uni inp = Inr res"
  obtains ix c where "cb_Routers c = cb_Routers (render_challenge inp empty_cfg)"
    "rr_Config res = prune (render_tail inp (render_hosts L uni ix inp c))"
proof -
  obtain ix c where mws: "render_middlewares L (in_Middlewares inp) [] (render_challenge inp empty_cfg) = Inr (ix, c)"
    using assms by (auto simp: Render_def split: sum.splits)
  show thesis
  proof (rule that [of "render_shared inp c" ix])
    show "cb_Routers (render_shared inp c) = cb_Routers (render_challenge inp empty_cfg)"
      using render_middlewares_routers [OF mws] by (simp add: render_shared_routers)
    show "rr_Config res = prune (render_tail inp (render_hosts L uni ix inp (render_shared inp c)))"
      using assms mws by (auto simp: Render_def Let_def split: sum.splits)
  qed
qed

lemma challenge_not_host: "only_own_service h c" if "cb_Routers c = cb_Routers (render_challenge inp empty_cfg)"
  using that
  by (auto simp: only_own_service_def host_name_def prefix_def render_challenge_def empty_cfg_def split: if_splits)

lemma prune_HTTP: "dc_HTTP (prune c) = Some s \<Longrightarrow> hs_Routers s = cb_Routers c \<and> hs_Services s = cb_Services c"
  by (auto simp: prune_def split: if_splits)

text \<open>
  C1: The firewall cannot be bypassed by path: for an enabled proxy host with the WAF on, while the
  feature is on and the edge is configured, the document has the host's router, and every router of
  the host (main, trusted addresses, static assets, locations, redirect) targets one service whose
  only server is the edge. Host ids are distinct and of one length, as UUIDs are; routers an admin
  adds under the host's names through the raw configuration are not the host's.
\<close>

theorem waf_hosts_go_through_edge:
  assumes "Render L uni inp = Inr res" "dc_HTTP (rr_Config res) = Some s"
    and "h \<in> set (in_Hosts inp)" "h_Enabled h" "h_Kind h = HostKindProxy" "h_WAF h"
    and "in_WAFEnabled inp" "in_CacheBackend inp \<noteq> []"
    and "distinct (map h_ID (in_Hosts inp))" "\<forall>g \<in> set (in_Hosts inp). length (h_ID g) = length (h_ID h)"
  shows "mget (hs_Routers s) (host_name h) \<noteq> None
    \<and> mget (hs_Services s) (svc_name h) = Some (Some (edge_service inp))
    \<and> (\<forall>n r. prefix (host_name h) n \<and> n \<notin> mkeys (raw_routers inp) \<and> mget (hs_Routers s) n = Some (Some r)
          \<longrightarrow> rt_Service r = svc_name h)"
proof -
  obtain ix c where c: "cb_Routers c = cb_Routers (render_challenge inp empty_cfg)"
    and res: "rr_Config res = prune (render_tail inp (render_hosts L uni ix inp c))"
    using assms(1) by (rule Render_parts)
  define d where "d = render_hosts L uni ix inp c"
  have d: "only_own_service h d" "at_edge inp h d"
    using hosts_waf [OF assms(4-10) challenge_not_host [OF c]] assms(3) unfolding d_def render_hosts_def by blast+
  have s: "hs_Routers s = cb_Routers (render_tail inp d)" "hs_Services s = cb_Services (render_tail inp d)"
    using prune_HTTP assms(2) by (simp_all add: res d_def)
  obtain x where "mget (cb_Routers d) (host_name h) = Some x" using d(2) by (auto simp: at_edge_def)
  then have 1: "mget (hs_Routers s) (host_name h) \<noteq> None"
    using tail_keeps_router sys_host_routers [of h "host_name h" inp d] by (simp add: s)
  have 2: "mget (hs_Services s) (svc_name h) = Some (Some (edge_service inp))"
    using d(2) tail_keeps_service by (simp add: s at_edge_def)
  have 3: "rt_Service r = svc_name h"
    if n: "prefix (host_name h) n" "n \<notin> mkeys (raw_routers inp)" "mget (hs_Routers s) n = Some (Some r)" for n r
  proof -
    have "(n, Some r) \<notin> set (raw_routers inp)" using n(2) mkeysI by metis
    then have "mget (cb_Routers (sys_routers inp d)) n = Some (Some r)"
      using tail_routers n(3) unfolding s by blast
    then have "mget (cb_Routers d) n = Some (Some r)" by (simp only: sys_host_routers [OF n(1)])
    with d(1) n(1) show ?thesis by (simp add: only_own_service_def)
  qed
  from 1 2 3 show ?thesis by blast
qed

lemma site_http: "\<exists>s. dc_HTTP (rr_Config (projr (Render plain_libs (\<lambda>s. s) site))) = Some s"
proof -
  obtain ix c where d: "rr_Config (projr (Render plain_libs (\<lambda>s. s) site)) =
      prune (render_tail site (render_hosts plain_libs (\<lambda>s. s) ix site c))"
    using Render_parts [OF site_renders] by blast
  have "mget (cb_Routers (sys_routers site d)) ''xgress-banned-http'' \<noteq> None" for d
    by (simp add: sys_routers_def render_banned_def site_def)
  then have "mget (cb_Routers (render_tail site d)) ''xgress-banned-http'' \<noteq> None" for d
    using tail_keeps_router by (metis not_None_eq)
  then have "cb_Routers (render_tail site d) \<noteq> []" for d by (metis map_of.simps(1))
  with d show ?thesis by (simp add: prune_def)
qed

lemma waf_hosts_go_through_edge_witness:
  "\<exists>s. dc_HTTP (rr_Config (projr (Render plain_libs (\<lambda>s. s) site))) = Some s
    \<and> mget (hs_Services s) ''svc-s'' = Some (Some (lb_service (one_server ''http://e'' (Some True))))"
proof -
  have e: "svc_name shop = ''svc-s''" "edge_service site = lb_service (one_server ''http://e'' (Some True))"
    by (simp_all add: svc_name_def shop_def edge_service_def site_def)
  obtain s where s: "dc_HTTP (rr_Config (projr (Render plain_libs (\<lambda>s. s) site))) = Some s"
    using site_http by blast
  have f: "in_Hosts site = [shop]" "in_WAFEnabled site" "in_CacheBackend site \<noteq> []"
      "h_Enabled shop" "h_Kind shop = HostKindProxy" "h_WAF shop"
    by (simp_all add: site_def shop_def)
  from waf_hosts_go_through_edge [OF site_renders s, of shop] s show ?thesis
    by (simp add: f e)
qed

section \<open>Priorities\<close>

text \<open>Traefik orders routers by priority; without one the length of the rule counts.\<close>

definition eff_priority :: "router \<Rightarrow> int" where
  "eff_priority r = (if rt_Priority r = 0 then int (length (rt_Rule r)) else rt_Priority r)"

definition below :: "int \<Rightarrow> cfg_build \<Rightarrow> bool" where
  "below b c \<longleftrightarrow> (\<forall>n r. mget (cb_Routers c) n = Some (Some r) \<longrightarrow> eff_priority r < b)"

lemma below_put: "below b c \<Longrightarrow> eff_priority r < b \<Longrightarrow> below b (put_router n r c)"
  by (simp add: below_def)

lemma below_same: "cb_Routers c' = cb_Routers c \<Longrightarrow> below b c' = below b c"
  by (simp add: below_def)

lemma below_simps [simp]:
  "below b (put_mw k m c) = below b c" "below b (put_service k v c) = below b c"
  "below b (put_noop c) = below b c"
  by (simp_all add: below_def put_noop_def)

lemma eff_mk: "eff_priority (mk_router rule s e m p t) = (if p = 0 then int (length rule) else p)"
  by (simp add: eff_priority_def)

text \<open>A host whose rule and path prefixes stay under the ban priority.\<close>

definition sized :: "host \<Rightarrow> bool" where
  "sized h \<longleftrightarrow> int (length (hostRule (h_Domains h))) < 2000000
     \<and> (\<forall>l \<in> set (h_Locations h). int (length (loc_PathPrefix l)) < 1999000)"

lemma below_location:
  assumes "int (length (loc_PathPrefix (snd p))) < 1999000" "below 2000000 c"
  shows "below 2000000 (proxy_location inp h base p c)"
proof -
  obtain i loc where p: "p = (i, loc)" by (cases p)
  have "eff_priority (mk_router r s e m (1000 + int (length (loc_PathPrefix loc))) t) < 2000000" for r s e m t
    using assms(1) by (simp add: p eff_mk)
  with assms(2) show ?thesis
    unfolding p proxy_location_def Let_def by (simp add: below_put split: prod.split)
qed

lemma below_locations:
  assumes "\<forall>p \<in> set ps. int (length (loc_PathPrefix (snd p))) < 1999000" "below 2000000 c"
  shows "below 2000000 (fold (proxy_location inp h base) ps c)"
  using assms by (induction ps arbitrary: c) (simp_all add: below_location)

lemma below_rest:
  assumes "below 2000000 c" "int (length (hostRule (h_Domains h))) < 2000000"
  shows "below 2000000 (proxy_main inp h mws c)" "below 2000000 (proxy_static inp h mws c)"
    "below 2000000 (addSatisfyAnyBypass al h mws s e t c)" "below 2000000 (proxy_redirect inp h c)"
  using assms
  by (simp_all add: proxy_main_def proxy_static_def addSatisfyAnyBypass_def proxy_redirect_def Let_def
      below_put eff_mk)

lemma below_proxy:
  assumes h: "sized h" and c: "below 2000000 c"
  shows "below 2000000 (renderProxyHost L ix al inp h c)"
proof -
  obtain base c2 where ch: "proxy_chain L ix al inp h (buildHostService inp h c) = (base, c2)" by fastforce
  have rule: "int (length (hostRule (h_Domains h))) < 2000000" using h by (simp add: sized_def)
  have locs: "\<forall>p \<in> set (enumerate 0 (h_Locations h)). int (length (loc_PathPrefix (snd p))) < 1999000"
    using h unfolding all_enumerate [of 0 "h_Locations h" "\<lambda>l. int (length (loc_PathPrefix l)) < 1999000"]
    by (simp add: sized_def)
  have "below 2000000 c2" using c chain_routers(1) [OF ch] by (simp add: below_def)
  then show ?thesis
    unfolding renderProxyHost_def Let_def ch prod.case proxy_locations_def
    by (intro below_rest below_locations rule locs)
qed

lemma put_noop_routers: "cb_Routers (put_noop c) = cb_Routers c"
  by (simp add: put_noop_def)

lemma below_redirection:
  assumes h: "sized h" and c: "below 2000000 c"
  shows "below 2000000 (renderRedirectionHost ix inp h c)"
proof -
  have "below 2000000 c2" if "collectMiddlewareNames ix h (put_noop (put_mw n m c)) = (own, c2)" for n m own c2
    using collect_fields(1) [OF that] c by (simp add: below_def put_noop_routers)
  then show ?thesis
    using h unfolding renderRedirectionHost_def Let_def
    by (auto simp: eff_mk sized_def intro!: below_put split: prod.split)
qed

lemma below_host:
  assumes "sized h" "below 2000000 c"
  shows "below 2000000 (render_host L uni ix al inp h c)"
proof -
  have "below 2000000 (renderStreamHost uni h c)"
    using assms(2) by (simp add: renderStreamHost_def Let_def below_def)
  moreover have "below 2000000 (renderDeadHost inp h c)"
    using assms(2) by (simp add: renderDeadHost_def below_put eff_mk)
  ultimately show ?thesis
    using below_proxy [OF assms] below_redirection [OF assms] assms(2) by (simp add: render_host_def)
qed

lemma below_hosts:
  assumes "\<forall>h \<in> set hs. sized h" "below 2000000 c"
  shows "below 2000000 (fold (render_host L uni ix al inp) hs c)"
  using assms by (induction hs arbitrary: c) (simp_all add: below_host)

text \<open>The global raw configuration as the API admits it, with rules of sane length.\<close>

definition raw_sized :: "inputs \<Rightarrow> bool" where
  "raw_sized inp \<longleftrightarrow>
     (\<forall>d. in_RawConfig inp = Some d \<longrightarrow> checkReservedPriorities d = None) \<and>
     (\<forall>n r. (n, Some r) \<in> set (raw_routers inp) \<longrightarrow> int (length (rt_Rule r)) < 2000000)"

lemma raw_below:
  assumes "raw_sized inp" "(n, Some r) \<in> set (raw_routers inp)"
  shows "eff_priority r < 2000000"
proof -
  obtain d s where "in_RawConfig inp = Some d" "dc_HTTP d = Some s" "(n, Some r) \<in> set (hs_Routers s)"
    using assms(2)
    by (cases "in_RawConfig inp"; cases "dc_HTTP (the (in_RawConfig inp))") (auto simp: raw_routers_def)
  with assms checkReservedPriorities_ok(1) [of d s n r] show ?thesis
    by (auto simp: raw_sized_def eff_priority_def ReservedRouterPriority_def)
qed

definition ban_names :: "string set" where
  "ban_names = {''xgress-banned-http'', ''xgress-banned-https''}"

lemma sys_ban_routers:
  assumes "in_BannedIPs inp \<noteq> []" "in_ContentBackend inp \<noteq> []" "n \<in> ban_names"
  shows "\<exists>r. mget (cb_Routers (sys_routers inp c)) n = Some (Some r) \<and> rt_Priority r = 2000000
    \<and> rt_Rule r = ban_rule (in_BannedIPs inp) \<and> rt_Service r = ''xgress-content''"
  using assms by (auto simp: ban_names_def sys_routers_def render_banned_def)

lemma sys_other_routers:
  assumes "below 2000000 c" "n \<notin> ban_names" "mget (cb_Routers (sys_routers inp c)) n = Some (Some r)"
  shows "eff_priority r < 2000000"
proof -
  have "below 2000000 (render_default_site inp c)"
    using assms(1) by (simp add: render_default_site_def below_put eff_mk)
  moreover have "mget (cb_Routers (render_default_site inp c)) n = Some (Some r)"
    using assms(2,3) by (simp add: sys_routers_def render_banned_def ban_names_def split: if_splits)
  ultimately show ?thesis by (simp add: below_def)
qed

text \<open>
  C2: Bans take precedence over everything: when addresses are banned and the content responder is
  configured, the document holds the two ban routers, whatever hosts and raw configuration exist,
  with the rule over exactly the banned addresses, and every other HTTP router has a lower effective
  priority, provided rules and path prefixes stay below two million characters and the raw
  configuration passed the reserved-priority check.
\<close>

theorem ban_outranks_all:
  assumes "Render L uni inp = Inr res" "dc_HTTP (rr_Config res) = Some s"
    and "in_BannedIPs inp \<noteq> []" "in_ContentBackend inp \<noteq> []"
    and "\<forall>h \<in> set (in_Hosts inp). sized h" "raw_sized inp"
  shows "(\<forall>n \<in> ban_names. \<exists>r. mget (hs_Routers s) n = Some (Some r) \<and> rt_Priority r = 2000000
        \<and> rt_Rule r = ban_rule (in_BannedIPs inp) \<and> rt_Service r = ''xgress-content'')
    \<and> (\<forall>n r. n \<notin> ban_names \<and> mget (hs_Routers s) n = Some (Some r) \<longrightarrow> eff_priority r < 2000000)"
proof -
  obtain ix c where c: "cb_Routers c = cb_Routers (render_challenge inp empty_cfg)"
    and res: "rr_Config res = prune (render_tail inp (render_hosts L uni ix inp c))"
    using assms(1) by (rule Render_parts)
  define d where "d = render_hosts L uni ix inp c"
  have s: "hs_Routers s = cb_Routers (render_tail inp d)"
    using prune_HTTP assms(2) by (simp add: res d_def)
  have "below 2000000 (render_challenge inp empty_cfg)"
    by (auto simp: render_challenge_def below_def eff_mk empty_cfg_def)
  then have "below 2000000 c" using c by (simp add: below_def)
  then have d: "below 2000000 d" unfolding d_def render_hosts_def using assms(5) by (rule below_hosts [rotated])
  have 1: "\<exists>r. mget (hs_Routers s) n = Some (Some r) \<and> rt_Priority r = 2000000
        \<and> rt_Rule r = ban_rule (in_BannedIPs inp) \<and> rt_Service r = ''xgress-content''"
    if "n \<in> ban_names" for n
    using sys_ban_routers [OF assms(3,4) that, of d] tail_keeps_router unfolding s by blast
  have 2: "eff_priority r < 2000000" if "n \<notin> ban_names" "mget (hs_Routers s) n = Some (Some r)" for n r
    using tail_routers [OF that(2) [unfolded s]] sys_other_routers [OF d that(1)] raw_below [OF assms(6)] by blast
  from 1 2 show ?thesis by blast
qed

lemma ban_outranks_all_witness:
  "\<exists>s r. dc_HTTP (rr_Config (projr (Render plain_libs (\<lambda>s. s) site))) = Some s
    \<and> mget (hs_Routers s) ''xgress-banned-http'' = Some (Some r) \<and> rt_Rule r = ban_rule [''9.9.9.9'']"
proof -
  obtain s where s: "dc_HTTP (rr_Config (projr (Render plain_libs (\<lambda>s. s) site))) = Some s"
    using site_http by blast
  have "sized shop" by (simp add: sized_def shop_def zero_host_def hostRule_def matcher_def ruleQuote_def)
  then have "\<forall>h \<in> set (in_Hosts site). sized h" by (simp add: site_def)
  moreover have "raw_sized site" by (simp add: raw_sized_def raw_routers_def site_def)
  ultimately show ?thesis
    using ban_outranks_all [OF site_renders s] s by (fastforce simp: site_def ban_names_def)
qed

section \<open>Satisfy-any access lists and locations\<close>

lemma in_acl_chain:
  assumes "i \<in> set (h_AccessListIDs h)" "mget al i = Some a" "al_AllowIPs a \<noteq> []" "al_Users a \<noteq> []"
  shows "{acl_ip a, acl_auth a} \<subseteq> set (accessListMiddlewares al h)"
  using assms by (force simp: accessListMiddlewares_def)

lemma location_other:
  "n \<noteq> loc_router h (fst p) \<Longrightarrow>
   mget (cb_Routers (proxy_location inp h base p c)) n = mget (cb_Routers c) n"
  by (cases p) (auto simp: proxy_location_def Let_def split: prod.split)

lemma locations_other:
  "\<forall>p \<in> set ps. n \<noteq> loc_router h (fst p) \<Longrightarrow>
   mget (cb_Routers (fold (proxy_location inp h base) ps c)) n = mget (cb_Routers c) n"
  by (induction ps arbitrary: c) (simp_all add: location_other)

lemma show_nat_inj: "show_nat i = show_nat j \<Longrightarrow> i = j"
  by (metis dec_val_show_nat)

lemma loc_router_inj: "loc_router h i = loc_router h j \<longleftrightarrow> i = j"
  unfolding loc_router_def using show_nat_inj by (metis same_append_eq)

lemma not_loc_router: "host_name h \<noteq> loc_router h i" "host_name h @ ''-trusted'' \<noteq> loc_router h i"
    "host_name h @ ''-http'' \<noteq> loc_router h i"
  by (simp_all add: host_name_def loc_router_def)

lemma tail_routers_kept:
  assumes "n = host_name h \<or> n = host_name h @ ''-trusted''"
  shows "mget (cb_Routers (proxy_redirect inp h (proxy_locations inp h base (proxy_static inp h mws c)))) n
     = mget (cb_Routers c) n"
proof -
  have "mget (cb_Routers (proxy_locations inp h base d)) n = mget (cb_Routers d) n" for d
    unfolding proxy_locations_def using assms by (intro locations_other) (auto simp: not_loc_router not_loc_router [symmetric])
  with assms show ?thesis by (auto simp: proxy_redirect_def proxy_static_def)
qed

text \<open>The router of a host's own rule and the bypass router, as they stand in the result.\<close>

lemma proxy_routers:
  assumes "proxy_chain L ix al inp h (buildHostService inp h c) = (base, c2)"
  defines "mws \<equiv> with_token inp h base" and "c' \<equiv> renderProxyHost L ix al inp h c"
  shows "mget (cb_Routers c') (host_name h) =
      Some (Some (mk_router (hostRule (h_Domains h)) (svc_name h) [entry_of inp (tls_enabled h)] mws 0 (tls_enabled h)))"
    and "mget (cb_Routers c') (host_name h @ ''-trusted'') = mget (cb_Routers
      (addSatisfyAnyBypass al h mws (svc_name h) (entry_of inp (tls_enabled h)) (tls_enabled h) (proxy_main inp h mws c2)))
      (host_name h @ ''-trusted'')"
proof -
  have c': "c' = proxy_redirect inp h (proxy_locations inp h base (proxy_static inp h mws
      (addSatisfyAnyBypass al h mws (svc_name h) (entry_of inp (tls_enabled h)) (tls_enabled h) (proxy_main inp h mws c2))))"
    by (simp add: c'_def renderProxyHost_def Let_def assms(1) mws_def)
  show "mget (cb_Routers c') (host_name h) =
      Some (Some (mk_router (hostRule (h_Domains h)) (svc_name h) [entry_of inp (tls_enabled h)] mws 0 (tls_enabled h)))"
    unfolding c' by (subst tail_routers_kept) (simp_all add: addSatisfyAnyBypass_def proxy_main_def Let_def)
  show "mget (cb_Routers c') (host_name h @ ''-trusted'') = mget (cb_Routers
      (addSatisfyAnyBypass al h mws (svc_name h) (entry_of inp (tls_enabled h)) (tls_enabled h) (proxy_main inp h mws c2)))
      (host_name h @ ''-trusted'')"
    unfolding c' by (subst tail_routers_kept) simp_all
qed

lemma chain_has_acl:
  assumes "proxy_chain L ix al inp h c = (base, c2)"
  shows "set (accessListMiddlewares al h) \<subseteq> set (with_token inp h base)"
  using assms by (auto simp: proxy_chain_def with_token_def Let_def split: prod.splits)



lemma locations_router:
  assumes "i < length (h_Locations h)" "\<not> (h_WAF h \<and> in_WAFEnabled inp)"
    and "loc_PathPrefix (h_Locations h ! i) \<noteq> []" "loc_Upstreams (h_Locations h ! i) \<noteq> []"
  shows "\<exists>r. mget (cb_Routers (proxy_locations inp h base c)) (loc_router h i) = Some (Some r)
    \<and> rt_Priority r = 1000 + int (length (loc_PathPrefix (h_Locations h ! i))) \<and> rt_Service r = loc_svc h i
    \<and> rt_Rule r = ''('' @ hostRule (h_Domains h) @ '') && '' @ matcher ''PathPrefix'' (loc_PathPrefix (h_Locations h ! i))"
proof -
  let ?ps = "enumerate 0 (h_Locations h)"
  have "?ps ! i = (i, h_Locations h ! i)" using assms(1) by (simp add: nth_enumerate_eq)
  then have split: "?ps = take i ?ps @ (i, h_Locations h ! i) # drop (Suc i) ?ps"
    using assms(1) by (metis id_take_nth_drop length_enumerate)
  have "fst p \<noteq> i" if "p \<in> set (drop (Suc i) ?ps)" for p
    using that by (auto simp: in_set_conv_nth nth_enumerate_eq)
  then have rest: "mget (cb_Routers (fold (proxy_location inp h base) (drop (Suc i) ?ps) d)) (loc_router h i)
      = mget (cb_Routers d) (loc_router h i)" for d
    by (intro locations_other) (auto simp: loc_router_inj)
  have "proxy_locations inp h base c = fold (proxy_location inp h base) (drop (Suc i) ?ps)
      (proxy_location inp h base (i, h_Locations h ! i) (fold (proxy_location inp h base) (take i ?ps) c))"
    unfolding proxy_locations_def by (subst split) simp
  with assms(2-4) rest show ?thesis
    by (auto simp: proxy_location_def Let_def split: prod.split)
qed

text \<open>
  C36: Path locations: each location with a prefix and upstreams, on a host whose traffic the firewall
  does not take over, gets a router for the host's rule and its prefix to its own service. It wins
  over the host's main router exactly when the host's rule is shorter than 1000 characters plus the
  prefix: the main router has no explicit priority, so with enough domains its rule's length
  outranks every location.
\<close>

theorem location_priority:
  assumes "i < length (h_Locations h)" "\<not> (h_WAF h \<and> in_WAFEnabled inp)"
    and "loc_PathPrefix (h_Locations h ! i) \<noteq> []" "loc_Upstreams (h_Locations h ! i) \<noteq> []"
  shows "\<exists>m l. mget (cb_Routers (renderProxyHost L ix al inp h c)) (host_name h) = Some (Some m)
    \<and> mget (cb_Routers (renderProxyHost L ix al inp h c)) (loc_router h i) = Some (Some l)
    \<and> rt_Service m = svc_name h \<and> rt_Service l = loc_svc h i
    \<and> rt_Rule l = ''('' @ rt_Rule m @ '') && '' @ matcher ''PathPrefix'' (loc_PathPrefix (h_Locations h ! i))
    \<and> (eff_priority m < eff_priority l \<longleftrightarrow>
        length (hostRule (h_Domains h)) < 1000 + length (loc_PathPrefix (h_Locations h ! i)))"
proof -
  obtain base c2 where ch: "proxy_chain L ix al inp h (buildHostService inp h c) = (base, c2)" by fastforce
  have "mget (cb_Routers (proxy_redirect inp h d)) (loc_router h i) = mget (cb_Routers d) (loc_router h i)" for d
    using not_loc_router(3) [of h i] by (simp add: proxy_redirect_def)
  then obtain l where "mget (cb_Routers (renderProxyHost L ix al inp h c)) (loc_router h i) = Some (Some l)"
      "rt_Priority l = 1000 + int (length (loc_PathPrefix (h_Locations h ! i)))" "rt_Service l = loc_svc h i"
      "rt_Rule l = ''('' @ hostRule (h_Domains h) @ '') && '' @ matcher ''PathPrefix'' (loc_PathPrefix (h_Locations h ! i))"
    using locations_router [OF assms] unfolding renderProxyHost_def Let_def ch prod.case by metis
  with proxy_routers(1) [OF ch] show ?thesis
    by (auto simp: eff_priority_def)
qed

lemma location_priority_witness:
  "\<exists>m l. mget (cb_Routers (renderProxyHost plain_libs [] [] (site\<lparr>in_WAFEnabled := False\<rparr>) shop empty_cfg)) (host_name shop) = Some (Some m)
    \<and> mget (cb_Routers (renderProxyHost plain_libs [] [] (site\<lparr>in_WAFEnabled := False\<rparr>) shop empty_cfg)) (loc_router shop 0) = Some (Some l)
    \<and> eff_priority m < eff_priority l"
proof -
  have "0 < length (h_Locations shop)" "loc_PathPrefix (h_Locations shop ! 0) \<noteq> []"
      "loc_Upstreams (h_Locations shop ! 0) \<noteq> []" "length (hostRule (h_Domains shop)) < 1000"
    by (simp_all add: shop_def hostRule_def matcher_def ruleQuote_def)
  with location_priority [of 0 shop "site\<lparr>in_WAFEnabled := False\<rparr>" plain_libs "[]" "[]" empty_cfg]
  show ?thesis by force
qed

end
