(* ===== verification/Cache.thy ===== *)
theory Cache
  imports Models
begin

text \<open>
  The in-memory cache of \<open>internal/edge/cache.go\<close>: \<open>memStore\<close> with its recency list, its index from keys
  to list elements and its byte count; \<open>Get\<close>, \<open>Set\<close>, \<open>removeLocked\<close> and the expiry sweep. A list
  element is a number with the entry it holds, so the index and the list can disagree unless the
  operations keep them together, which is the invariant. The locale \<open>cache_store\<close> is the interface
  \<open>CacheStore\<close> the edge server calls.
\<close>

section \<open>State\<close>

record mem_entry =
  me_key :: string
  me_val :: string
  me_exp :: gotime
  me_size :: int

record mem_limits =
  ml_MaxBytes :: int
  ml_MaxEntryBytes :: int
  ml_MaxEntries :: int

text \<open>\<open>ms_next\<close> numbers the elements \<open>PushFront\<close> allocates.\<close>

record mem_store =
  ms_ll :: "(nat \<times> mem_entry) list"
  ms_items :: "(string, nat) gomap"
  ms_next :: nat
  ms_curBytes :: int
  ms_maxBytes :: int
  ms_maxEntryBytes :: int
  ms_maxEntries :: int

definition NewMemStore :: "mem_limits \<Rightarrow> mem_store" where
  "NewMemStore lim = \<lparr>
     ms_ll = [], ms_items = [], ms_next = 0, ms_curBytes = 0,
     ms_maxBytes = (if ml_MaxBytes lim \<le> 0 then 134217728 else ml_MaxBytes lim),
     ms_maxEntryBytes = (if ml_MaxEntryBytes lim \<le> 0 then 8388608 else ml_MaxEntryBytes lim),
     ms_maxEntries = (if ml_MaxEntries lim \<le> 0 then 50000 else ml_MaxEntries lim) \<rparr>"

section \<open>Operations\<close>

text \<open>\<open>list.Remove\<close> and \<open>list.MoveToFront\<close> do nothing for an element that is not on the list.\<close>

definition ll_remove :: "nat \<Rightarrow> (nat \<times> mem_entry) list \<Rightarrow> (nat \<times> mem_entry) list" where
  "ll_remove i ll = filter (\<lambda>p. fst p \<noteq> i) ll"

definition removeLocked :: "nat \<times> mem_entry \<Rightarrow> mem_store \<Rightarrow> mem_store" where
  "removeLocked el m = m\<lparr>
     ms_ll := ll_remove (fst el) (ms_ll m),
     ms_items := mdel (me_key (snd el)) (ms_items m),
     ms_curBytes := ms_curBytes m - me_size (snd el)\<rparr>"

definition over_limit :: "mem_store \<Rightarrow> bool" where
  "over_limit m \<longleftrightarrow>
     (ms_curBytes m > ms_maxBytes m \<or> int (length (ms_ll m)) > ms_maxEntries m) \<and> ms_ll m \<noteq> []"

text \<open>The eviction loop at the end of \<open>Set\<close>: drop the back of the list while a limit is exceeded.\<close>

function evict :: "mem_store \<Rightarrow> mem_store" where
  "evict m = (if over_limit m then evict (removeLocked (last (ms_ll m)) m) else m)"
  by pat_completeness auto
termination
proof (relation "measure (\<lambda>m. length (ms_ll m))", simp)
  fix m assume "over_limit m"
  then have "last (ms_ll m) \<in> set (ms_ll m)" by (simp add: over_limit_def)
  then have "length (ll_remove (fst (last (ms_ll m))) (ms_ll m)) < length (ms_ll m)"
    unfolding ll_remove_def by (rule length_filter_less) simp
  then show "(removeLocked (last (ms_ll m)) m, m) \<in> measure (\<lambda>m. length (ms_ll m))"
    by (simp add: removeLocked_def)
qed

declare evict.simps [simp del]

definition mem_get :: "string \<Rightarrow> gotime \<Rightarrow> mem_store \<Rightarrow> string option \<times> mem_store" where
  "mem_get key now m =
     (case mget (ms_items m) key of
        None \<Rightarrow> (None, m)
      | Some i \<Rightarrow>
          (case map_of (ms_ll m) i of
             None \<Rightarrow> (None, m)
           | Some e \<Rightarrow>
               if now > me_exp e then (None, removeLocked (i, e) m)
               else (Some (me_val e), m\<lparr>ms_ll := (i, e) # ll_remove i (ms_ll m)\<rparr>)))"

definition mem_put :: "string \<Rightarrow> string \<Rightarrow> gotime \<Rightarrow> mem_store \<Rightarrow> mem_store" where
  "mem_put key val exp m =
     (let size = int (length key + length val) in
      case mget (ms_items m) key of
        Some i \<Rightarrow>
          (case map_of (ms_ll m) i of
             None \<Rightarrow> m
           | Some e \<Rightarrow>
               m\<lparr>ms_curBytes := ms_curBytes m + (size - me_size e),
                 ms_ll := (i, e\<lparr>me_val := val, me_exp := exp, me_size := size\<rparr>)
                            # ll_remove i (ms_ll m)\<rparr>)
      | None \<Rightarrow>
          m\<lparr>ms_ll := (ms_next m, \<lparr>me_key = key, me_val = val, me_exp = exp, me_size = size\<rparr>) # ms_ll m,
            ms_items := mput key (ms_next m) (ms_items m),
            ms_next := Suc (ms_next m),
            ms_curBytes := ms_curBytes m + size\<rparr>)"

definition mem_set :: "string \<Rightarrow> string \<Rightarrow> duration \<Rightarrow> gotime \<Rightarrow> mem_store \<Rightarrow> mem_store" where
  "mem_set key val ttl now m =
     (if int (length val) > ms_maxEntryBytes m then m else evict (mem_put key val (now + ttl) m))"

text \<open>\<open>sweepExpired\<close> visits the index in some order and removes the expired elements.\<close>

fun sweep_elems :: "gotime \<Rightarrow> (string \<times> nat) list \<Rightarrow> mem_store \<Rightarrow> mem_store" where
  "sweep_elems now [] m = m"
| "sweep_elems now ((k, i) # rest) m =
     sweep_elems now rest
       (case map_of (ms_ll m) i of
          None \<Rightarrow> m
        | Some e \<Rightarrow> if now > me_exp e then removeLocked (i, e) m else m)"

definition sweepExpired :: "gotime \<Rightarrow> mem_store \<Rightarrow> mem_store" where
  "sweepExpired now m = sweep_elems now (ms_items m) m"

text \<open>\<open>normalizeRedisURL\<close>: an address without a redis scheme gets one.\<close>

definition normalizeRedisURL :: "string \<Rightarrow> string" where
  "normalizeRedisURL u =
     (if length u \<ge> 8 \<and> take 8 u = ''redis://'' then u
      else if length u \<ge> 9 \<and> take 9 u = ''rediss://'' then u
      else ''redis://'' @ u)"

section \<open>Invariant\<close>

text \<open>
  Elements and keys occur once, the index maps each listed key to its element and nothing else, every
  entry's size is what its bytes take, and the byte count is their sum.
\<close>

definition mem_inv :: "mem_store \<Rightarrow> bool" where
  "mem_inv m \<longleftrightarrow>
     distinct (map fst (ms_ll m)) \<and>
     distinct (map (me_key \<circ> snd) (ms_ll m)) \<and>
     (\<forall>p \<in> set (ms_ll m). fst p < ms_next m) \<and>
     (\<forall>k i. mget (ms_items m) k = Some i \<longleftrightarrow> (\<exists>e. (i, e) \<in> set (ms_ll m) \<and> me_key e = k)) \<and>
     (\<forall>p \<in> set (ms_ll m). me_size (snd p) = int (length (me_key (snd p)) + length (me_val (snd p)))) \<and>
     ms_curBytes m = sum_list (map (me_size \<circ> snd) (ms_ll m))"

definition within_limits :: "mem_store \<Rightarrow> bool" where
  "within_limits m \<longleftrightarrow>
     ms_curBytes m \<le> ms_maxBytes m \<and> int (length (ms_ll m)) \<le> ms_maxEntries m"

lemma NewMemStore_inv: "mem_inv (NewMemStore lim)"
  by (simp add: mem_inv_def NewMemStore_def)

lemma mem_inv_elem:
  assumes "mem_inv m" "(i, e) \<in> set (ms_ll m)"
  shows "map_of (ms_ll m) i = Some e" "mget (ms_items m) (me_key e) = Some i"
  using assms by (auto simp: mem_inv_def)

lemma mem_inv_index:
  assumes "mem_inv m" "mget (ms_items m) k = Some i"
  obtains e where "(i, e) \<in> set (ms_ll m)" "map_of (ms_ll m) i = Some e" "me_key e = k"
  using assms by (auto simp: mem_inv_def)

lemma mem_inv_same_elem:
  "mem_inv m \<Longrightarrow> (i, e) \<in> set (ms_ll m) \<Longrightarrow> (i, f) \<in> set (ms_ll m) \<Longrightarrow> f = e"
  unfolding mem_inv_def by (blast dest: eq_key_imp_eq_value)

lemma mem_inv_same_key:
  assumes "mem_inv m" "(i, e) \<in> set (ms_ll m)" "(j, f) \<in> set (ms_ll m)" "me_key f = me_key e"
  shows "j = i"
proof -
  have "mget (ms_items m) (me_key e) = Some i" "mget (ms_items m) (me_key f) = Some j"
    using mem_inv_elem(2) [OF assms(1)] assms(2,3) by auto
  with assms(4) show "j = i" by simp
qed

lemma ll_remove_set [simp]: "set (ll_remove i ll) = {p \<in> set ll. fst p \<noteq> i}"
  by (auto simp: ll_remove_def)

lemma ll_remove_notin: "i \<notin> fst ` set ll \<Longrightarrow> ll_remove i ll = ll"
  by (induction ll) (auto simp: ll_remove_def)

lemma ll_remove_sum:
  "distinct (map fst ll) \<Longrightarrow> (i, e) \<in> set ll \<Longrightarrow>
   sum_list (map f (ll_remove i ll)) = sum_list (map f ll) - (f (i, e) :: int)"
proof (induction ll)
  case (Cons p ll)
  show ?case
  proof (cases "fst p = i")
    case True
    with Cons.prems have "i \<notin> fst ` set ll" "p = (i, e)"
      by (auto simp: image_iff prod_eq_iff)
    then show ?thesis using ll_remove_notin [of i ll] by (simp add: ll_remove_def)
  next
    case False
    with Cons show ?thesis by (auto simp: ll_remove_def)
  qed
qed simp

lemma ll_remove_distinct:
  "distinct (map g ll) \<Longrightarrow> distinct (map g (ll_remove i ll))"
  by (simp add: ll_remove_def distinct_map_filter)

lemma removeLocked_inv:
  assumes inv: "mem_inv m" and e: "(i, e) \<in> set (ms_ll m)"
  shows "mem_inv (removeLocked (i, e) m)"
proof -
  have idx: "mget (mdel (me_key e) (ms_items m)) k = Some j \<longleftrightarrow>
      (\<exists>f. (j, f) \<in> set (ll_remove i (ms_ll m)) \<and> me_key f = k)" for k j
  proof (cases "k = me_key e")
    case True
    then show ?thesis using mem_inv_same_key [OF inv e] by auto
  next
    case False
    then have "(j, f) \<in> set (ms_ll m) \<Longrightarrow> me_key f = k \<Longrightarrow> j \<noteq> i" for f
      using mem_inv_same_elem [OF inv e] by blast
    with False inv show ?thesis by (auto simp: mem_inv_def)
  qed
  from inv idx show ?thesis
    using e ll_remove_sum [of "ms_ll m" i e "me_size \<circ> snd"]
    unfolding mem_inv_def removeLocked_def by (simp add: ll_remove_distinct)
qed

lemma touch_set:
  assumes "mem_inv m" "(i, e) \<in> set (ms_ll m)"
  shows "set ((i, e) # ll_remove i (ms_ll m)) = set (ms_ll m)"
proof (rule set_eqI)
  fix p
  show "p \<in> set ((i, e) # ll_remove i (ms_ll m)) \<longleftrightarrow> p \<in> set (ms_ll m)"
    using assms(2) mem_inv_same_elem [OF assms, of "snd p"]
    by (cases "fst p = i") (auto simp: prod_eq_iff)
qed

lemma touch_inv:
  assumes inv: "mem_inv m" and e: "(i, e) \<in> set (ms_ll m)"
  shows "mem_inv (m\<lparr>ms_ll := (i, e) # ll_remove i (ms_ll m)\<rparr>)"
proof -
  let ?ll = "(i, e) # ll_remove i (ms_ll m)"
  have "me_key e \<notin> (me_key \<circ> snd) ` set (ll_remove i (ms_ll m))"
    using mem_inv_same_key [OF inv e] by auto
  then have "distinct (map fst ?ll)" "distinct (map (me_key \<circ> snd) ?ll)"
    using inv by (auto simp: mem_inv_def ll_remove_distinct)
  moreover have "sum_list (map (me_size \<circ> snd) ?ll) = sum_list (map (me_size \<circ> snd) (ms_ll m))"
    using inv e ll_remove_sum [of "ms_ll m" i e "me_size \<circ> snd"] by (simp add: mem_inv_def)
  ultimately show ?thesis
    using inv touch_set [OF inv e]
    unfolding mem_inv_def by (simp del: set_simps ll_remove_set distinct.simps list.map)
qed

lemma mem_get_inv: "mem_inv m \<Longrightarrow> mem_inv (snd (mem_get key now m))"
  by (auto simp: mem_get_def removeLocked_inv touch_inv map_of_SomeD split: option.splits)

lemma mem_put_inv_new:
  assumes inv: "mem_inv m" and None: "mget (ms_items m) key = None"
  shows "mem_inv (mem_put key val exp m)"
proof -
  have new: "me_key f \<noteq> key" if "(j, f) \<in> set (ms_ll m)" for j f
    using mem_inv_elem(2) [OF inv that] None by auto
  have keys: "key \<notin> (me_key \<circ> snd) ` set (ms_ll m)" using new by force
  have fresh: "ms_next m \<notin> fst ` set (ms_ll m)" "\<forall>p \<in> set (ms_ll m). fst p < Suc (ms_next m)"
    using inv by (auto simp: mem_inv_def)
  have idx: "(if k = key then Some (ms_next m) else mget (ms_items m) k) = Some j \<longleftrightarrow>
      (\<exists>f. ((j, f) = (ms_next m, \<lparr>me_key = key, me_val = val, me_exp = exp, me_size = s\<rparr>)
        \<or> (j, f) \<in> set (ms_ll m)) \<and> me_key f = k)" for k j s
    using inv new by (auto simp: mem_inv_def)
  show ?thesis
    using inv None keys fresh idx
    unfolding mem_inv_def mem_put_def Let_def by simp
qed

lemma mem_put_inv_old:
  assumes inv: "mem_inv m" and e: "(i, e) \<in> set (ms_ll m)" "me_key e = key"
  shows "mem_inv (mem_put key val exp m)"
proof -
  let ?e = "e\<lparr>me_val := val, me_exp := exp, me_size := int (length key + length val)\<rparr>"
  let ?m = "mem_put key val exp m"
  have m: "?m = m\<lparr>ms_curBytes := ms_curBytes m + (int (length key + length val) - me_size e),
      ms_ll := (i, ?e) # ll_remove i (ms_ll m)\<rparr>"
    using mem_inv_elem [OF inv e(1)] e(2) by (simp add: mem_put_def Let_def)
  have same: "(j, f) \<in> set (ms_ll m) \<Longrightarrow> (me_key f = key) = (j = i)" for j f
    using mem_inv_same_elem [OF inv e(1), of f] mem_inv_same_key [OF inv e(1), of j f] e(2) by metis
  have idx: "mget (ms_items m) k = Some j \<longleftrightarrow>
      (\<exists>f. ((j, f) = (i, ?e) \<or> (j, f) \<in> set (ms_ll m) \<and> j \<noteq> i) \<and> me_key f = k)" for k j
    using inv e same by (cases "j = i") (auto simp: mem_inv_def)
  have keys: "key \<notin> (me_key \<circ> snd) ` {p \<in> set (ms_ll m). fst p \<noteq> i}"
  proof
    assume "key \<in> (me_key \<circ> snd) ` {p \<in> set (ms_ll m). fst p \<noteq> i}"
    then obtain j f where "(j, f) \<in> set (ms_ll m)" "j \<noteq> i" "me_key f = key" by auto
    with same show False by blast
  qed
  have i: "i \<notin> fst ` {p \<in> set (ms_ll m). fst p \<noteq> i}" "i < ms_next m"
    using inv e(1) by (auto simp: mem_inv_def)
  have "mem_inv (m\<lparr>ms_curBytes := ms_curBytes m + (int (length key + length val) - me_size e),
      ms_ll := (i, ?e) # ll_remove i (ms_ll m)\<rparr>)"
    using inv e keys i idx ll_remove_sum [of "ms_ll m" i e "me_size \<circ> snd"]
    unfolding mem_inv_def by (simp add: ll_remove_distinct)
  then show ?thesis by (simp add: m)
qed

lemma mem_put_inv:
  assumes "mem_inv m"
  shows "mem_inv (mem_put key val exp m)"
  using mem_put_inv_new [OF assms] mem_put_inv_old [OF assms] mem_inv_index [OF assms]
  by (cases "mget (ms_items m) key") (simp, metis)

lemma evict_inv: "mem_inv m \<Longrightarrow> mem_inv (evict m)"
proof (induction m rule: evict.induct)
  case (1 m)
  show ?case
  proof (cases "over_limit m")
    case True
    then have "last (ms_ll m) \<in> set (ms_ll m)" by (simp add: over_limit_def)
    then have "mem_inv (removeLocked (last (ms_ll m)) m)"
      using removeLocked_inv [OF "1.prems"] by (metis prod.collapse)
    with 1 True show ?thesis by (simp add: evict.simps [of m])
  next
    case False
    with 1 show ?thesis by (simp add: evict.simps [of m])
  qed
qed

lemma mem_set_inv: "mem_inv m \<Longrightarrow> mem_inv (mem_set key val ttl now m)"
  by (simp add: mem_set_def evict_inv mem_put_inv)

lemma sweep_elems_inv: "mem_inv m \<Longrightarrow> mem_inv (sweep_elems now xs m)"
  by (induction now xs m rule: sweep_elems.induct)
    (auto simp: removeLocked_inv map_of_SomeD split: option.splits)

lemma sweepExpired_inv: "mem_inv m \<Longrightarrow> mem_inv (sweepExpired now m)"
  by (simp add: sweepExpired_def sweep_elems_inv)

section \<open>Eviction\<close>

text \<open>Eviction cuts the recency list at the back: what stays is a prefix of it, and it fits the limits.\<close>

lemma evict_limits [simp]:
  "ms_maxBytes (evict m) = ms_maxBytes m" "ms_maxEntries (evict m) = ms_maxEntries m"
  "ms_maxEntryBytes (evict m) = ms_maxEntryBytes m" "ms_next (evict m) = ms_next m"
  by (atomize (full), induction m rule: evict.induct)
    (subst evict.simps, subst evict.simps, subst evict.simps, subst evict.simps, simp add: removeLocked_def)

lemma evict_not_over: "\<not> over_limit (evict m)"
proof (induction m rule: evict.induct)
  case (1 m)
  then show ?case by (cases "over_limit m") (simp_all add: evict.simps [of m])
qed

lemma ll_remove_last:
  "wf_gomap ll \<Longrightarrow> ll \<noteq> [] \<Longrightarrow> ll_remove (fst (last ll)) ll = butlast ll"
proof (induction ll rule: rev_induct)
  case (snoc p ll)
  then show ?case using ll_remove_notin [of "fst p" ll] by (simp add: ll_remove_def)
qed simp

lemma removeLocked_last:
  "mem_inv m \<Longrightarrow> ms_ll m \<noteq> [] \<Longrightarrow> ms_ll (removeLocked (last (ms_ll m)) m) = butlast (ms_ll m)"
  by (simp add: removeLocked_def mem_inv_def ll_remove_last)

lemma removeLocked_last_inv:
  "mem_inv m \<Longrightarrow> over_limit m \<Longrightarrow> mem_inv (removeLocked (last (ms_ll m)) m)"
  using removeLocked_inv [of m] by (metis last_in_set over_limit_def prod.collapse)

lemma evict_prefix: "mem_inv m \<Longrightarrow> prefix (ms_ll (evict m)) (ms_ll m)"
proof (induction m rule: evict.induct)
  case (1 m)
  show ?case
  proof (cases "over_limit m")
    case True
    then have "prefix (ms_ll (removeLocked (last (ms_ll m)) m)) (ms_ll m)"
      using removeLocked_last [OF "1.prems"] by (simp add: over_limit_def prefixeq_butlast)
    with 1 True show ?thesis
      by (subst evict.simps) (auto intro: prefix_order.trans removeLocked_last_inv)
  qed (simp add: evict.simps [of m])
qed

lemma evict_within:
  assumes "mem_inv m" "0 \<le> ms_maxBytes m" "0 \<le> ms_maxEntries m"
  shows "within_limits (evict m)"
proof (cases "ms_ll (evict m) = []")
  case True
  with evict_inv [OF assms(1)] assms(2,3) show ?thesis
    by (simp add: within_limits_def mem_inv_def)
next
  case False
  with evict_not_over [of m] show ?thesis by (simp add: over_limit_def within_limits_def)
qed

text \<open>
  Nothing is evicted needlessly: whatever longer prefix of the recency list had been kept would have
  exceeded a limit.
\<close>

definition fits :: "mem_store \<Rightarrow> (nat \<times> mem_entry) list \<Rightarrow> bool" where
  "fits m ll \<longleftrightarrow> sum_list (map (me_size \<circ> snd) ll) \<le> ms_maxBytes m \<and> int (length ll) \<le> ms_maxEntries m"

lemma entry_size_nonneg: "mem_inv m \<Longrightarrow> p \<in> set (ms_ll m) \<Longrightarrow> 0 \<le> me_size (snd p)"
  by (auto simp: mem_inv_def)

lemma over_limit_not_fits: "mem_inv m \<Longrightarrow> over_limit m \<Longrightarrow> \<not> fits m (ms_ll m)"
  by (auto simp: over_limit_def fits_def mem_inv_def)

lemma evict_maximal:
  assumes "mem_inv m" "prefix ll (ms_ll m)" "fits m ll"
  shows "prefix ll (ms_ll (evict m))"
  using assms
proof (induction m rule: evict.induct)
  case (1 m)
  show ?case
  proof (cases "over_limit m")
    case True
    then have "ll \<noteq> ms_ll m" using over_limit_not_fits "1.prems" by blast
    with "1.prems"(2) have "prefix ll (butlast (ms_ll m))"
      by (metis append_butlast_last_id prefix_bot.bot_least prefix_snoc butlast.simps(1) prefix_Nil)
    moreover have "ms_ll (removeLocked (last (ms_ll m)) m) = butlast (ms_ll m)"
      using removeLocked_last "1.prems"(1) True by (simp add: over_limit_def)
    moreover have "fits (removeLocked (last (ms_ll m)) m) ll"
      using "1.prems"(3) by (simp add: fits_def removeLocked_def)
    ultimately show ?thesis
      using 1 True removeLocked_last_inv by (subst evict.simps) simp
  qed (use "1.prems"(2) in \<open>simp add: evict.simps [of m]\<close>)
qed

section \<open>What the cache holds\<close>

text \<open>The abstract view of a store: the value and expiry each key has.\<close>

definition contents :: "mem_store \<Rightarrow> string \<Rightarrow> (string \<times> gotime) option" where
  "contents m key =
     map_option (\<lambda>p. (me_val (snd p), me_exp (snd p))) (find (\<lambda>p. me_key (snd p) = key) (ms_ll m))"

lemma find_by_key:
  assumes "distinct (map (me_key \<circ> snd) ll)" "(i, e) \<in> set ll" "me_key e = key"
  shows "find (\<lambda>p. me_key (snd p) = key) ll = Some (i, e)"
  using assms by (induction ll) force+

lemma contents_elem:
  "mem_inv m \<Longrightarrow> (i, e) \<in> set (ms_ll m) \<Longrightarrow> contents m (me_key e) = Some (me_val e, me_exp e)"
  by (simp add: contents_def mem_inv_def find_by_key)

lemma contents_SomeE:
  assumes "contents m key = Some (v, x)"
  obtains i e where "(i, e) \<in> set (ms_ll m)" "me_key e = key" "v = me_val e" "x = me_exp e"
proof -
  from assms obtain p where "find (\<lambda>p. me_key (snd p) = key) (ms_ll m) = Some p"
    "v = me_val (snd p)" "x = me_exp (snd p)"
    by (auto simp: contents_def)
  then show thesis
    using that [of "fst p" "snd p"] by (auto simp: find_Some_iff in_set_conv_nth)
qed

lemma contents_NoneD: "contents m key = None \<Longrightarrow> (i, e) \<in> set (ms_ll m) \<Longrightarrow> me_key e \<noteq> key"
  by (auto simp: contents_def find_None_iff)

lemma contents_index:
  assumes "mem_inv m"
  shows "contents m key = None \<longleftrightarrow> mget (ms_items m) key = None"
proof -
  have "contents m key = None \<longleftrightarrow> (\<forall>i e. (i, e) \<in> set (ms_ll m) \<longrightarrow> me_key e \<noteq> key)"
    by (auto simp: contents_def find_None_iff)
  moreover have "mget (ms_items m) key = None \<longleftrightarrow> (\<forall>i e. (i, e) \<in> set (ms_ll m) \<longrightarrow> me_key e \<noteq> key)"
    using assms by (metis mem_inv_elem(2) mem_inv_index not_None_eq)
  ultimately show ?thesis by blast
qed

lemma contents_subset:
  assumes "mem_inv m" "set (ms_ll m') \<subseteq> set (ms_ll m)" "contents m' key = Some x"
  shows "contents m key = Some x"
  using assms contents_elem [OF assms(1)]
  by (cases x) (auto elim!: contents_SomeE)

lemma mem_get_result:
  assumes "mem_inv m"
  shows "fst (mem_get key now m) =
    (case contents m key of Some (v, x) \<Rightarrow> if now > x then None else Some v | None \<Rightarrow> None)"
proof (cases "mget (ms_items m) key")
  case None
  then have "contents m key = None" using contents_index [OF assms] by blast
  with None show ?thesis by (simp add: mem_get_def)
next
  case (Some i)
  with assms obtain e where "(i, e) \<in> set (ms_ll m)" "map_of (ms_ll m) i = Some e" "me_key e = key"
    by (rule mem_inv_index)
  with Some contents_elem [OF assms] show ?thesis by (auto simp: mem_get_def)
qed

lemma mem_get_set:
  assumes "mem_inv m"
  shows "set (ms_ll (snd (mem_get key now m))) \<subseteq> set (ms_ll m)"
  using touch_set [OF assms]
  by (auto simp: mem_get_def removeLocked_def dest: map_of_SomeD split: option.splits)

lemma mem_get_contents:
  "mem_inv m \<Longrightarrow> contents (snd (mem_get key now m)) k = Some x \<Longrightarrow> contents m k = Some x"
  using contents_subset mem_get_set by blast

lemma mem_put_elems:
  assumes "mem_inv m" "(i, e) \<in> set (ms_ll (mem_put key val exp m))"
  shows "me_key e = key \<and> me_val e = val \<and> me_exp e = exp \<or> me_key e \<noteq> key \<and> (i, e) \<in> set (ms_ll m)"
proof (cases "mget (ms_items m) key")
  case None
  with assms show ?thesis
    using mem_inv_elem(2) [OF assms(1), of i e] by (auto simp: mem_put_def Let_def)
next
  case (Some j)
  with assms obtain f where f: "(j, f) \<in> set (ms_ll m)" "map_of (ms_ll m) j = Some f" "me_key f = key"
    by - (rule mem_inv_index)
  with Some assms show ?thesis
    using mem_inv_same_key [OF assms(1), of j f i e]
    by (auto simp: mem_put_def Let_def)
qed

lemma mem_put_front:
  assumes "mem_inv m"
  shows "\<exists>i e. me_key e = key \<and> me_val e = val \<and> me_exp e = exp
      \<and> me_size e = int (length key + length val)
      \<and> (\<exists>rest. ms_ll (mem_put key val exp m) = (i, e) # rest)"
proof (cases "mget (ms_items m) key")
  case None
  then show ?thesis by (simp add: mem_put_def Let_def)
next
  case (Some j)
  with assms obtain f where "map_of (ms_ll m) j = Some f" "me_key f = key"
    by - (rule mem_inv_index)
  with Some show ?thesis by (simp add: mem_put_def Let_def)
qed

lemma mem_set_contents:
  assumes "mem_inv m" "contents (mem_set key val ttl now m) k = Some x"
  shows "contents m k = Some x \<or> k = key \<and> x = (val, now + ttl)"
proof (cases "int (length val) > ms_maxEntryBytes m")
  case True
  with assms(2) show ?thesis by (simp add: mem_set_def)
next
  case False
  let ?p = "mem_put key val (now + ttl) m"
  have "set (ms_ll (evict ?p)) \<subseteq> set (ms_ll ?p)"
    using evict_prefix [OF mem_put_inv [OF assms(1)]] by (rule set_mono_prefix)
  with False assms(2) have "contents ?p k = Some x"
    using contents_subset [OF mem_put_inv [OF assms(1)]] by (simp add: mem_set_def)
  then obtain i e where "(i, e) \<in> set (ms_ll ?p)" "me_key e = k" "x = (me_val e, me_exp e)"
    by (cases x) (auto elim!: contents_SomeE)
  with mem_put_elems [OF assms(1)] contents_elem [OF assms(1)] show ?thesis by blast
qed

text \<open>
  A value is there right after it was set, provided it is no larger than one entry may be and fits the
  store on its own.
\<close>

lemma mem_set_get:
  assumes inv: "mem_inv m" and size: "int (length val) \<le> ms_maxEntryBytes m"
    and fit: "int (length key + length val) \<le> ms_maxBytes m" "1 \<le> ms_maxEntries m"
    and now': "now' \<le> now + ttl"
  shows "fst (mem_get key now' (mem_set key val ttl now m)) = Some val"
proof -
  let ?p = "mem_put key val (now + ttl) m"
  have p: "mem_inv ?p" using inv by (rule mem_put_inv)
  obtain i e rest where e: "me_key e = key" "me_val e = val" "me_exp e = now + ttl"
      "me_size e = int (length key + length val)" and ll: "ms_ll ?p = (i, e) # rest"
    using mem_put_front [OF inv] by blast
  have lim: "ms_maxBytes ?p = ms_maxBytes m" "ms_maxEntries ?p = ms_maxEntries m"
    by (simp_all add: mem_put_def Let_def split: option.split)
  have "prefix [(i, e)] (ms_ll (evict ?p))"
    using p fit e(4) by (intro evict_maximal) (simp_all add: ll lim fits_def)
  then have "(i, e) \<in> set (ms_ll (evict ?p))"
    by (metis list.set_intros(1) prefix_imp_subseq set_mono_prefix subsetD)
  with contents_elem [OF evict_inv [OF p]] e have "contents (evict ?p) key = Some (val, now + ttl)"
    by metis
  with size now' mem_get_result [OF evict_inv [OF p], of key now'] show ?thesis
    by (simp add: mem_set_def)
qed

section \<open>The interface CacheStore\<close>

datatype cache_op = CGet string gotime | CSet string string duration gotime

text \<open>
  What the edge server relies on: a hit is the unexpired content of the key, reading adds nothing, and
  writing adds at most the written pair.
\<close>

locale cache_store =
  fixes get :: "string \<Rightarrow> gotime \<Rightarrow> 's \<Rightarrow> string option \<times> 's"
    and put :: "string \<Rightarrow> string \<Rightarrow> duration \<Rightarrow> gotime \<Rightarrow> 's \<Rightarrow> 's"
    and holds :: "'s \<Rightarrow> string \<Rightarrow> (string \<times> gotime) option"
    and inv :: "'s \<Rightarrow> bool"
  assumes get_inv: "inv s \<Longrightarrow> inv (snd (get k now s))"
    and put_inv: "inv s \<Longrightarrow> inv (put k v ttl now s)"
    and get_hit: "inv s \<Longrightarrow> fst (get k now s) = Some v \<Longrightarrow> \<exists>x. holds s k = Some (v, x) \<and> now \<le> x"
    and get_holds: "inv s \<Longrightarrow> holds (snd (get k now s)) k' = Some p \<Longrightarrow> holds s k' = Some p"
    and put_holds: "inv s \<Longrightarrow> holds (put k v ttl now s) k' = Some p \<Longrightarrow>
      holds s k' = Some p \<or> k' = k \<and> p = (v, now + ttl)"
begin

fun step :: "cache_op \<Rightarrow> 's \<Rightarrow> 's" where
  "step (CGet k now) s = snd (get k now s)"
| "step (CSet k v ttl now) s = put k v ttl now s"

lemma steps_inv: "inv s \<Longrightarrow> inv (fold step ops s)"
proof (induction ops arbitrary: s)
  case (Cons op ops)
  then show ?case by (cases op) (simp_all add: get_inv put_inv)
qed simp

lemma steps_holds:
  "inv s \<Longrightarrow> holds (fold step ops s) k = Some (v, x) \<Longrightarrow>
   holds s k = Some (v, x) \<or> (\<exists>ttl t. CSet k v ttl t \<in> set ops \<and> x = t + ttl)"
proof (induction ops arbitrary: s)
  case (Cons op ops)
  then have "inv (step op s)" by (cases op) (simp_all add: get_inv put_inv)
  with Cons consider "holds (step op s) k = Some (v, x)"
    | "\<exists>ttl t. CSet k v ttl t \<in> set ops \<and> x = t + ttl" by auto
  then show ?case
  proof cases
    case 1
    with Cons.prems(1) show ?thesis by (cases op) (auto dest: get_holds put_holds)
  qed auto
qed simp

text \<open>From an empty store, a hit returns bytes some earlier write stored under the same key, not yet expired.\<close>

lemma hit_was_set:
  assumes "inv s" "\<And>k. holds s k = None" "fst (get k now (fold step ops s)) = Some v"
  shows "\<exists>ttl t. CSet k v ttl t \<in> set ops \<and> now \<le> t + ttl"
  using get_hit [OF steps_inv [OF assms(1)] assms(3)] steps_holds [OF assms(1)] assms(2)
  by fastforce

end

interpretation mem: cache_store mem_get mem_set contents mem_inv
proof unfold_locales
  fix m :: mem_store and k now v
  assume "mem_inv m" "fst (mem_get k now m) = Some v"
  then show "\<exists>x. contents m k = Some (v, x) \<and> now \<le> x"
    by (auto simp: mem_get_result split: option.splits if_splits)
qed (blast intro: mem_get_inv mem_set_inv mem_get_contents dest: mem_set_contents)+

section \<open>The store over time\<close>

text \<open>
  The states a store reaches from its start by reads, writes and sweeps in any order, at any times.
  The mutex of \<open>memStore\<close> makes each of them one step.
\<close>

inductive mem_reach :: "mem_limits \<Rightarrow> mem_store \<Rightarrow> bool" for lim where
  start: "mem_reach lim (NewMemStore lim)"
| get: "mem_reach lim m \<Longrightarrow> mem_reach lim (snd (mem_get key now m))"
| set: "mem_reach lim m \<Longrightarrow> mem_reach lim (mem_set key val ttl now m)"
| sweep: "mem_reach lim m \<Longrightarrow> mem_reach lim (sweepExpired now m)"

definition same_limits :: "mem_store \<Rightarrow> mem_store \<Rightarrow> bool" where
  "same_limits m m' \<longleftrightarrow> ms_maxBytes m' = ms_maxBytes m \<and> ms_maxEntries m' = ms_maxEntries m"

lemma removeLocked_limits: "same_limits m (removeLocked el m)"
  by (simp add: removeLocked_def same_limits_def)

lemma mem_get_limits: "same_limits m (snd (mem_get key now m))"
  by (auto simp: mem_get_def same_limits_def removeLocked_def split: option.splits)

lemma mem_set_limits: "same_limits m (mem_set key val ttl now m)"
  by (auto simp: mem_set_def mem_put_def Let_def same_limits_def split: option.splits)

lemma sweep_elems_limits: "same_limits m (sweep_elems now xs m)"
  by (induction now xs m rule: sweep_elems.induct)
    (auto simp: same_limits_def removeLocked_def split: option.splits)

lemma removeLocked_within:
  "mem_inv m \<Longrightarrow> (i, e) \<in> set (ms_ll m) \<Longrightarrow> within_limits m \<Longrightarrow> within_limits (removeLocked (i, e) m)"
  using entry_size_nonneg [of m "(i, e)"]
  by (auto simp: within_limits_def removeLocked_def ll_remove_def
      intro: order.trans [OF of_nat_mono [OF length_filter_le]])

lemma touch_within:
  assumes "mem_inv m" "(i, e) \<in> set (ms_ll m)" "within_limits m"
  shows "within_limits (m\<lparr>ms_ll := (i, e) # ll_remove i (ms_ll m)\<rparr>)"
proof -
  have "length (ll_remove i (ms_ll m)) < length (ms_ll m)"
    unfolding ll_remove_def using assms(2) by (rule length_filter_less) simp
  with assms(3) show ?thesis by (simp add: within_limits_def)
qed

lemma mem_get_within: "mem_inv m \<Longrightarrow> within_limits m \<Longrightarrow> within_limits (snd (mem_get key now m))"
  by (auto simp: mem_get_def removeLocked_within touch_within map_of_SomeD split: option.splits)

lemma mem_set_within:
  assumes "mem_inv m" "within_limits m" "0 \<le> ms_maxBytes m" "0 \<le> ms_maxEntries m"
  shows "within_limits (mem_set key val ttl now m)"
proof -
  have "same_limits m (mem_put key val exp m)" for exp
    by (auto simp: mem_put_def Let_def same_limits_def split: option.splits)
  with assms show ?thesis
    by (simp add: mem_set_def evict_within mem_put_inv same_limits_def)
qed

lemma sweep_elems_within:
  "mem_inv m \<Longrightarrow> within_limits m \<Longrightarrow> within_limits (sweep_elems now xs m)"
  by (induction now xs m rule: sweep_elems.induct)
    (auto simp: removeLocked_inv removeLocked_within map_of_SomeD split: option.splits)

lemmas mem_limits_kept = mem_get_limits mem_set_limits sweep_elems_limits
lemmas mem_ops_inv = NewMemStore_inv mem_get_inv mem_set_inv sweepExpired_inv

lemma NewMemStore_ok:
  "within_limits (NewMemStore lim)" "0 < ms_maxBytes (NewMemStore lim)"
  "0 < ms_maxEntries (NewMemStore lim)"
  by (simp_all add: NewMemStore_def within_limits_def)

lemma mem_reach_ok:
  "mem_reach lim m \<Longrightarrow> mem_inv m \<and> within_limits m \<and> 0 < ms_maxBytes m \<and> 0 < ms_maxEntries m"
proof (induction rule: mem_reach.induct)
  case start
  then show ?case by (simp add: NewMemStore_inv NewMemStore_ok)
next
  case (get m key now)
  then show ?case
    using mem_get_limits [of m key now] by (simp add: same_limits_def mem_get_inv mem_get_within)
next
  case (set m key val ttl now)
  then show ?case
    using mem_set_limits [of m key val ttl now] by (simp add: same_limits_def mem_set_inv mem_set_within)
next
  case (sweep m now)
  then show ?case
    using sweep_elems_limits [of m now "ms_items m"]
    by (simp add: same_limits_def sweepExpired_def sweep_elems_inv sweep_elems_within)
qed

text \<open>
  C20: However the in-memory cache is used, it stays consistent and bounded: in every state it
  reaches, the index and the recency list agree, the byte count is the sum of the entries, and neither
  the byte budget nor the entry cap is exceeded.
\<close>

theorem cache_bounded:
  assumes "mem_reach lim m"
  shows "mem_inv m \<and> within_limits m"
  using mem_reach_ok [OF assms] by blast

definition small_store :: mem_store where
  "small_store = mem_set ''b'' ''22'' 10 1 (mem_set ''a'' ''1'' 10 0
     (NewMemStore \<lparr>ml_MaxBytes = 4, ml_MaxEntryBytes = 2, ml_MaxEntries = 5\<rparr>))"

lemma small_store_reach: "mem_reach \<lparr>ml_MaxBytes = 4, ml_MaxEntryBytes = 2, ml_MaxEntries = 5\<rparr> small_store"
  unfolding small_store_def by (intro mem_reach.intros)

lemma cache_bounded_witness:
  "mem_reach \<lparr>ml_MaxBytes = 4, ml_MaxEntryBytes = 2, ml_MaxEntries = 5\<rparr> small_store \<and> within_limits small_store"
  using small_store_reach cache_bounded [OF small_store_reach] by blast

text \<open>
  C21: Set evicts the least recently used entries and no more than it must: what is left is a prefix
  of the recency list with the new entry in front, it fits the limits, and every prefix that fits is
  kept.
\<close>

theorem set_evicts_lru:
  assumes "mem_reach lim m" "int (length val) \<le> ms_maxEntryBytes m"
  shows "prefix (ms_ll (mem_set key val ttl now m)) (ms_ll (mem_put key val (now + ttl) m))
    \<and> fits m (ms_ll (mem_set key val ttl now m))
    \<and> (\<forall>ll. prefix ll (ms_ll (mem_put key val (now + ttl) m)) \<and> fits m ll \<longrightarrow>
          prefix ll (ms_ll (mem_set key val ttl now m)))"
proof -
  let ?p = "mem_put key val (now + ttl) m"
  have m: "mem_inv m" "within_limits m" "0 < ms_maxBytes m" "0 < ms_maxEntries m"
    using mem_reach_ok [OF assms(1)] by blast+
  have set: "mem_set key val ttl now m = evict ?p" using assms(2) by (simp add: mem_set_def)
  have fits: "fits ?p = fits m"
    by (rule ext) (auto simp: fits_def mem_put_def Let_def split: option.splits)
  have p: "mem_inv ?p" using m mem_put_inv by blast
  have "within_limits (evict ?p)"
    using m mem_set_within [of m key val ttl now] by (simp add: set)
  then have "fits ?p (ms_ll (evict ?p))"
    using evict_inv [OF p] by (simp add: within_limits_def fits_def mem_inv_def)
  with evict_prefix [OF p] evict_maximal [OF p] show ?thesis by (simp add: set fits)
qed

lemma set_evicts_lru_witness:
  "ms_ll small_store = [(1, \<lparr>me_key = ''b'', me_val = ''22'', me_exp = 11, me_size = 3\<rparr>)]
    \<and> prefix (ms_ll (mem_set ''c'' ''3'' 10 2 small_store)) (ms_ll (mem_put ''c'' ''3'' 12 small_store))"
proof -
  have 1: "int (length ''3'') \<le> ms_maxEntryBytes small_store" by code_simp
  have 2: "ms_ll small_store = [(1, \<lparr>me_key = ''b'', me_val = ''22'', me_exp = 11, me_size = 3\<rparr>)]"
    by code_simp
  show ?thesis using 2 set_evicts_lru [OF small_store_reach 1, of "''c''" 10 2] by simp
qed

text \<open>
  C22: The cache never makes anything up: from an empty cache, after any sequence of reads and writes,
  a hit returns exactly the bytes some earlier write stored under that key, and only while the
  lifetime given to that write has not run out.
\<close>

theorem cache_hit_was_set:
  assumes "fst (mem_get key now (fold mem.step ops (NewMemStore lim))) = Some v"
  shows "\<exists>ttl t. CSet key v ttl t \<in> set ops \<and> now \<le> t + ttl"
  using mem.hit_was_set [OF NewMemStore_inv _ assms] by (simp add: contents_def NewMemStore_def)

lemma cache_hit_was_set_witness:
  "\<exists>ttl t. CSet ''a'' ''1'' ttl t \<in> set [CSet ''a'' ''1'' 10 0, CGet ''b'' 2] \<and> 7 \<le> t + ttl"
  by (rule cache_hit_was_set [where lim = "\<lparr>ml_MaxBytes = 4, ml_MaxEntryBytes = 2, ml_MaxEntries = 5\<rparr>"])
    (simp only: fold_simps mem.step.simps, code_simp)

end
