(* ===== verification/Edge.thy ===== *)
theory Edge
  imports Cache Net "HOL-Library.Word"
begin

text \<open>
  The edge server of \<open>internal/edge/server.go\<close> and \<open>internal/edge/waf.go\<close>: the host index, the choice of a
  backend, the firewall phases around a request, the cache rules and the handler \<open>ServeHTTP\<close> that orders
  them. What the handler answers is a value of the type \<open>reply\<close>, which also says what was asked of the
  backend. The cache is reached through the operations of the interface \<open>CacheStore\<close>; Coraza, the
  response encoding, URL parsing and the backends are fields of parameter records.
\<close>

section \<open>Requests and responses\<close>

text \<open>Header maps with canonical names; \<open>Get\<close> is the first value or the empty string.\<close>

type_synonym header = "(string, string list) gomap"

definition hget :: "header \<Rightarrow> string \<Rightarrow> string" where
  "hget h k = (case mget h k of Some (v # _) \<Rightarrow> v | _ \<Rightarrow> [])"

definition hvalues :: "header \<Rightarrow> string \<Rightarrow> string list" where
  "hvalues h k = mget_or [] h k"

definition hset :: "string \<Rightarrow> string \<Rightarrow> header \<Rightarrow> header" where
  "hset k v h = mput k [v] h"

definition EdgeTokenHeader :: string where
  "EdgeTokenHeader = ''X-Xgress-Cache-Token''"

definition CacheStatusHeader :: string where
  "CacheStatusHeader = ''X-Xgress-Cache''"

record request =
  rq_Method :: string
  rq_Host :: string
  rq_Path :: string
  rq_RawQuery :: string
  rq_URI :: string
  rq_Header :: header
  rq_TLS :: bool
  rq_Remote :: string

record cachedResponse =
  cr_Status :: int
  cr_Header :: header
  cr_Body :: string

record out_request =
  or_Method :: string
  or_URL :: string
  or_Host :: string
  or_Header :: header

record stream_request =
  sr_Target :: string
  sr_Path :: string
  sr_Host :: string
  sr_Header :: header

text \<open>
  A backend's answer: its body as it arrives, and whether reading the body fails within the first
  so many bytes.
\<close>

record upstream_response =
  ur_Status :: int
  ur_Header :: header
  ur_Body :: string
  ur_ReadFails :: bool

text \<open>
  Coraza's decisions for one transaction. Each interruption is its status (0 when it names none); the
  left of a sum is an internal error.
\<close>

record coraza_tx =
  tx_off :: bool
  tx_requestHeaders :: "string \<times> int \<Rightarrow> request \<Rightarrow> int option"
  tx_readsRequestBody :: "request \<Rightarrow> bool"
  tx_readRequestBody :: "request \<Rightarrow> string + int option"
  tx_requestBody :: "request \<Rightarrow> string + int option"
  tx_responseHeaders :: "cachedResponse \<Rightarrow> int option"
  tx_readsResponseBody :: "cachedResponse \<Rightarrow> bool"
  tx_readResponseBody :: "cachedResponse \<Rightarrow> string + int option"
  tx_responseBody :: "cachedResponse \<Rightarrow> string + int option"

record edge_libs =
  el_uni :: "string \<Rightarrow> string"
  el_parses :: "string \<Rightarrow> bool"
  el_requestOk :: "string \<Rightarrow> string \<Rightarrow> bool"
  el_encode :: "cachedResponse \<Rightarrow> string option"
  el_decode :: "string \<Rightarrow> cachedResponse option"
  el_backend :: "out_request \<Rightarrow> upstream_response option"
  el_proxyHeader :: "request \<Rightarrow> header"

record 's cache_ops =
  co_Get :: "string \<Rightarrow> gotime \<Rightarrow> 's \<Rightarrow> string option \<times> 's"
  co_Set :: "string \<Rightarrow> string \<Rightarrow> duration \<Rightarrow> gotime \<Rightarrow> 's \<Rightarrow> 's"

text \<open>The server's settings, and the state requests change: cache and round-robin counters.\<close>

record server =
  ed_token :: string
  ed_defaultTTL :: duration
  ed_maxEntryBytes :: nat
  ed_wafRespFailClosed :: bool
  ed_waf :: "coraza_tx option"
  ed_wafEnabled :: bool
  ed_cacheEnabled :: bool
  ed_byHost :: "(string, host) gomap"

record 's edge_state =
  es_cache :: 's
  es_rr :: "(string, 64 word) gomap"

definition new_server :: "duration \<Rightarrow> string \<Rightarrow> server" where
  "new_server ttl token = \<lparr>ed_token = token, ed_defaultTTL = (if ttl \<le> 0 then 2 * minute else ttl),
     ed_maxEntryBytes = 8388608, ed_wafRespFailClosed = False, ed_waf = None, ed_wafEnabled = False,
     ed_cacheEnabled = True, ed_byHost = []\<rparr>"

definition SetEntryLimit :: "int \<Rightarrow> server \<Rightarrow> server" where
  "SetEntryLimit n s = (if n > 0 then s\<lparr>ed_maxEntryBytes := nat n\<rparr> else s)"

definition SetEnabled :: "bool \<Rightarrow> bool \<Rightarrow> server \<Rightarrow> server" where
  "SetEnabled waf cache s = s\<lparr>ed_wafEnabled := waf, ed_cacheEnabled := cache\<rparr>"

section \<open>Host index\<close>

definition host_entries :: "(string \<Rightarrow> string) \<Rightarrow> host list \<Rightarrow> (string \<times> host) list" where
  "host_entries uni hs =
     concat (map (\<lambda>h. map (\<lambda>d. (to_lower uni d, h)) (h_Domains h))
       (filter (\<lambda>h. h_Kind h = HostKindProxy \<and> h_Enabled h) hs))"

definition SetHosts :: "(string \<Rightarrow> string) \<Rightarrow> host list \<Rightarrow> server \<Rightarrow> server" where
  "SetHosts uni hs s = s\<lparr>ed_byHost := fold (\<lambda>(d, h) m. mput d h m) (host_entries uni hs) []\<rparr>"

definition lookup_host :: "(string \<Rightarrow> string) \<Rightarrow> server \<Rightarrow> string \<Rightarrow> host option" where
  "lookup_host uni s domain = mget (ed_byHost s) (to_lower uni domain)"

definition hostOnly :: "string \<Rightarrow> string" where
  "hostOnly h = (case index_byte h (CHR '':'') of None \<Rightarrow> h | Some i \<Rightarrow> take i h)"

definition clientAddr :: "request \<Rightarrow> string \<times> int" where
  "clientAddr r =
     (let xff = hget (rq_Header r) ''X-Forwarded-For'';
          t = trim_space xff;
          first = (case index_byte t (CHR '','') of None \<Rightarrow> t | Some i \<Rightarrow> trim_space (take i t)) in
      if xff \<noteq> [] \<and> first \<noteq> [] then (first, 0)
      else (case SplitHostPort (rq_Remote r) of
              None \<Rightarrow> (rq_Remote r, 0)
            | Some (host, port) \<Rightarrow> (host, fst (atoi port))))"

section \<open>Backends\<close>

definition pathHasPrefix :: "string \<Rightarrow> string \<Rightarrow> bool" where
  "pathHasPrefix path pre =
     (if \<not> has_prefix path pre then False
      else (let rest = drop (length pre) path in rest = [] \<or> hd rest = CHR ''/'' \<or> has_suffix pre ''/''))"

definition stripPath :: "string \<Rightarrow> string \<Rightarrow> string" where
  "stripPath path pre =
     (if pre = [] then path
      else (let p = trim_prefix path pre in if p = [] \<or> hd p \<noteq> CHR ''/'' then CHR ''/'' # p else p))"

definition upstream_url :: "upstream \<Rightarrow> string" where
  "upstream_url u =
     (let scheme = (if u_Scheme u = [] then ''http'' else u_Scheme u) in
      scheme @ ''://'' @ u_Host u @ (if u_Port u \<noteq> 0 then CHR '':'' # show_int (u_Port u) else []))"

text \<open>
  \<open>balance\<close>: the counter is an unsigned 64-bit word, read as a signed one for the index; Go's remainder
  keeps the sign, and indexing with a negative number panics (None). No upstream is the empty target.
\<close>

definition balance :: "string \<Rightarrow> upstream list \<Rightarrow> (string, 64 word) gomap \<Rightarrow> string option \<times> (string, 64 word) gomap" where
  "balance key ups rr =
     (if ups = [] then (Some [], rr)
      else
        (let n = mget_or 0 rr key + 1; i = go_rem (sint n) (int (length ups)) in
         (if i < 0 then None else Some (upstream_url (ups ! nat i)), mput key n rr)))"

definition group_upstreams :: "host \<Rightarrow> upstream list" where
  "group_upstreams h =
     (if h_Upstreams h \<noteq> [] then h_Upstreams h
      else (case find (\<lambda>g. bg_Upstreams g \<noteq> []) (h_BackendGroups h) of None \<Rightarrow> [] | Some g \<Rightarrow> bg_Upstreams g))"

definition pickBackend :: "host \<Rightarrow> (string, 64 word) gomap \<Rightarrow> string option \<times> (string, 64 word) gomap" where
  "pickBackend h rr = balance (h_ID h) (group_upstreams h) rr"

text \<open>The scan for the longest matching location: the location found so far, if any.\<close>

definition loc_matches :: "string \<Rightarrow> location \<Rightarrow> bool" where
  "loc_matches path l \<longleftrightarrow> loc_PathPrefix l \<noteq> [] \<and> loc_Upstreams l \<noteq> [] \<and> pathHasPrefix path (loc_PathPrefix l)"

fun best_location :: "string \<Rightarrow> location option \<Rightarrow> location list \<Rightarrow> location option" where
  "best_location path best [] = best"
| "best_location path best (l # ls) =
     best_location path
       (if loc_matches path l \<and> (case best of None \<Rightarrow> True | Some b \<Rightarrow> length (loc_PathPrefix l) > length (loc_PathPrefix b))
        then Some l else best) ls"

definition resolveBackend ::
  "host \<Rightarrow> string \<Rightarrow> (string, 64 word) gomap \<Rightarrow> (string option \<times> string \<times> bool) \<times> (string, 64 word) gomap" where
  "resolveBackend h path rr =
     (case best_location path None (h_Locations h) of
        None \<Rightarrow> (let (t, rr') = pickBackend h rr in ((t, [], False), rr'))
      | Some l \<Rightarrow>
          (let (t, rr') = balance (h_ID h @ char_of (0 :: nat) # take (length (loc_PathPrefix l)) path) (loc_Upstreams l) rr in
           ((t, if loc_StripPrefix l then loc_PathPrefix l else [], True), rr')))"

section \<open>Firewall phases\<close>

datatype waf_result = Pass | Block int

definition statusFromInterruption :: "int \<Rightarrow> int" where
  "statusFromInterruption st = (if st \<noteq> 0 then st else 403)"

definition failClosed :: waf_result where
  "failClosed = Block 500"

definition wafResponseFailMode :: "server \<Rightarrow> waf_result" where
  "wafResponseFailMode s = (if ed_wafRespFailClosed s then failClosed else Pass)"

definition wafActive :: "server \<Rightarrow> bool" where
  "wafActive s \<longleftrightarrow> ed_wafEnabled s \<and> ed_waf s \<noteq> None"

definition wafRequest :: "coraza_tx \<Rightarrow> request \<Rightarrow> waf_result" where
  "wafRequest tx r =
     (case tx_requestHeaders tx (clientAddr r) r of
        Some st \<Rightarrow> Block (statusFromInterruption st)
      | None \<Rightarrow>
          (case (if tx_readsRequestBody tx r then tx_readRequestBody tx r else Inr None) of
             Inl _ \<Rightarrow> failClosed
           | Inr (Some st) \<Rightarrow> Block (statusFromInterruption st)
           | Inr None \<Rightarrow>
               (case tx_requestBody tx r of
                  Inl _ \<Rightarrow> failClosed
                | Inr (Some st) \<Rightarrow> Block (statusFromInterruption st)
                | Inr None \<Rightarrow> Pass)))"

definition wafResponse :: "server \<Rightarrow> coraza_tx \<Rightarrow> cachedResponse \<Rightarrow> waf_result" where
  "wafResponse s tx cr =
     (case tx_responseHeaders tx cr of
        Some st \<Rightarrow> Block (statusFromInterruption st)
      | None \<Rightarrow>
          if tx_readsResponseBody tx cr then
            (case tx_readResponseBody tx cr of
               Inl _ \<Rightarrow> wafResponseFailMode s
             | Inr (Some st) \<Rightarrow> Block (statusFromInterruption st)
             | Inr None \<Rightarrow>
                 (case tx_responseBody tx cr of
                    Inl _ \<Rightarrow> wafResponseFailMode s
                  | Inr (Some st) \<Rightarrow> Block (statusFromInterruption st)
                  | Inr None \<Rightarrow> Pass))
          else Pass)"

section \<open>Cache rules\<close>

definition requestCacheable :: "(string \<Rightarrow> string) \<Rightarrow> request \<Rightarrow> bool" where
  "requestCacheable uni r =
     (if rq_Method r \<noteq> ''GET'' \<and> rq_Method r \<noteq> ''HEAD'' then False
      else if hget (rq_Header r) ''Authorization'' \<noteq> [] then False
      else \<not> str_contains (to_lower uni (hget (rq_Header r) ''Cache-Control'')) ''no-store'')"

definition vary :: "string \<Rightarrow> bool" where
  "vary v = (let v' = trim_space v in v' \<noteq> [] \<and> \<not> equal_fold v' ''Accept-Encoding'')"

definition age_of :: "string \<Rightarrow> string \<Rightarrow> int option" where
  "age_of part key =
     (if has_prefix part key
      then (case atoi (drop (length key) part) of (n, True) \<Rightarrow> Some n | (_, False) \<Rightarrow> None) else None)"

text \<open>The duration wraps around at 64 bits.\<close>

fun max_age_parts :: "string list \<Rightarrow> duration option" where
  "max_age_parts [] = None"
| "max_age_parts (p # ps) =
     (let part = trim_space p in
      case age_of part ''s-maxage='' of
        Some n \<Rightarrow> Some (wrap64 (n * second))
      | None \<Rightarrow>
          (case age_of part ''max-age='' of
             Some n \<Rightarrow> Some (wrap64 (n * second))
           | None \<Rightarrow> max_age_parts ps))"

definition maxAge :: "string \<Rightarrow> duration option" where
  "maxAge cc = max_age_parts (split_on (CHR '','') cc)"

definition responseTTL :: "(string \<Rightarrow> string) \<Rightarrow> cachedResponse \<Rightarrow> duration \<Rightarrow> duration option" where
  "responseTTL uni cr dflt =
     (let cc = to_lower uni (hget (cr_Header cr) ''Cache-Control'') in
      if cr_Status cr \<noteq> 200 then None
      else if hvalues (cr_Header cr) ''Set-Cookie'' \<noteq> [] then None
      else if str_contains cc ''no-store'' \<or> str_contains cc ''private'' \<or> str_contains cc ''no-cache'' then None
      else if vary (hget (cr_Header cr) ''Vary'') then None
      else (case maxAge cc of
              Some d \<Rightarrow> if d \<le> 0 then None else Some d
            | None \<Rightarrow> Some dflt))"

definition isUpgrade :: "(string \<Rightarrow> string) \<Rightarrow> request \<Rightarrow> bool" where
  "isUpgrade uni r \<longleftrightarrow> hget (rq_Header r) ''Upgrade'' \<noteq> []
     \<and> str_contains (to_lower uni (hget (rq_Header r) ''Connection'')) ''upgrade''"

definition wantsStream :: "(string \<Rightarrow> string) \<Rightarrow> request \<Rightarrow> bool" where
  "wantsStream uni r = str_contains (to_lower uni (hget (rq_Header r) ''Accept'')) ''text/event-stream''"

section \<open>Proxying\<close>

datatype reply =
    HttpError int
  | Blocked int
  | Hit cachedResponse
  | Miss out_request cachedResponse
  | MissStreamed out_request cachedResponse string
  | Streamed stream_request
  | Panic

definition schemeOf :: "request \<Rightarrow> string" where
  "schemeOf r = (if rq_TLS r then ''https''
     else (let p = hget (rq_Header r) ''X-Forwarded-Proto'' in if p \<noteq> [] then p else ''http''))"

definition forwarded :: "request \<Rightarrow> header \<Rightarrow> header" where
  "forwarded r h = hset ''X-Forwarded-Proto'' (schemeOf r) (hset ''X-Forwarded-Host'' (rq_Host r) (mdel EdgeTokenHeader h))"

definition stream :: "edge_libs \<Rightarrow> request \<Rightarrow> string \<Rightarrow> string \<Rightarrow> reply" where
  "stream EL r target strip =
     (if \<not> el_parses EL target then HttpError 502
      else Streamed \<lparr>sr_Target = target, sr_Path = (if strip \<noteq> [] then stripPath (rq_Path r) strip else rq_Path r),
                     sr_Host = rq_Host r, sr_Header = forwarded r (el_proxyHeader EL r)\<rparr>)"

definition buildUpstreamRequest :: "edge_libs \<Rightarrow> request \<Rightarrow> string \<Rightarrow> string \<Rightarrow> out_request option" where
  "buildUpstreamRequest EL r target strip =
     (let uri = (if strip \<noteq> [] then stripPath (rq_Path r) strip
                    @ (if rq_RawQuery r \<noteq> [] then CHR ''?'' # rq_RawQuery r else [])
                 else rq_URI r) in
      if \<not> el_requestOk EL (rq_Method r) (target @ uri) then None
      else Some \<lparr>or_Method = rq_Method r, or_URL = target @ uri, or_Host = rq_Host r,
                 or_Header = forwarded r (filter (\<lambda>(k, _). \<not> equal_fold k ''Connection'') (rq_Header r))\<rparr>)"

definition writeResponse :: "cachedResponse \<Rightarrow> string \<Rightarrow> cachedResponse" where
  "writeResponse cr status = cr\<lparr>cr_Header := hset CacheStatusHeader status (cr_Header cr)\<rparr>"

definition serveUpstream ::
  "edge_libs \<Rightarrow> 's cache_ops \<Rightarrow> server \<Rightarrow> gotime \<Rightarrow> request \<Rightarrow> string \<Rightarrow> string \<Rightarrow> coraza_tx option \<Rightarrow> bool \<Rightarrow> string
    \<Rightarrow> 's edge_state \<Rightarrow> reply \<times> 's edge_state" where
  "serveUpstream EL C s now r target strip waf cacheable key st =
     (case buildUpstreamRequest EL r target strip of
        None \<Rightarrow> (HttpError 502, st)
      | Some out \<Rightarrow>
          (case el_backend EL out of
             None \<Rightarrow> (HttpError 502, st)
           | Some resp \<Rightarrow>
               if ur_ReadFails resp then (HttpError 502, st)
               else
                 (let limit = ed_maxEntryBytes s;
                      buf = take (limit + 1) (ur_Body resp);
                      cr = \<lparr>cr_Status = ur_Status resp, cr_Header = mdel ''Connection'' (ur_Header resp), cr_Body = buf\<rparr> in
                  case (case waf of Some tx \<Rightarrow> if \<not> tx_off tx then wafResponse s tx cr else Pass | None \<Rightarrow> Pass) of
                    Block code \<Rightarrow> (Blocked code, st)
                  | Pass \<Rightarrow>
                      if length buf > limit
                      then (MissStreamed out (writeResponse cr ''MISS'') (drop (limit + 1) (ur_Body resp)), st)
                      else
                        (Miss out (writeResponse cr ''MISS''),
                         (if cacheable then
                            (case responseTTL (el_uni EL) cr (ed_defaultTTL s) of
                               None \<Rightarrow> st
                             | Some ttl \<Rightarrow>
                                 (case el_encode EL cr of
                                    None \<Rightarrow> st
                                  | Some raw \<Rightarrow> st\<lparr>es_cache := co_Set C key raw ttl now (es_cache st)\<rparr>))
                          else st)))))"

section \<open>The handler\<close>

definition cache_key :: "request \<Rightarrow> string" where
  "cache_key r = rq_Method r @ '' '' @ hostOnly (rq_Host r) @ '' '' @ rq_URI r"

text \<open>What follows the firewall's request phase.\<close>

definition serve_proxied ::
  "edge_libs \<Rightarrow> 's cache_ops \<Rightarrow> server \<Rightarrow> gotime \<Rightarrow> request \<Rightarrow> host \<Rightarrow> coraza_tx option \<Rightarrow> 's edge_state \<Rightarrow> reply \<times> 's edge_state" where
  "serve_proxied EL C s now r h waf st =
     (case resolveBackend h (rq_Path r) (es_rr st) of
        ((None, _, _), rr) \<Rightarrow> (Panic, st\<lparr>es_rr := rr\<rparr>)
      | ((Some target, strip, isLoc), rr) \<Rightarrow>
          (let st1 = st\<lparr>es_rr := rr\<rparr>;
               cacheable = (h_Cache h \<and> ed_cacheEnabled s \<and> \<not> isLoc \<and> requestCacheable (el_uni EL) r) in
           if target = [] then (HttpError 502, st1)
           else if isUpgrade (el_uni EL) r \<or> wantsStream (el_uni EL) r then (stream EL r target strip, st1)
           else if \<not> cacheable \<and> waf = None then (stream EL r target strip, st1)
           else if cacheable then
             (let (hit, c) = co_Get C (cache_key r) now (es_cache st1); st2 = st1\<lparr>es_cache := c\<rparr> in
              case Option.bind hit (el_decode EL) of
                Some cr \<Rightarrow> (Hit (writeResponse cr ''HIT''), st2)
              | None \<Rightarrow> serveUpstream EL C s now r target strip waf True (cache_key r) st2)
           else serveUpstream EL C s now r target strip waf False (cache_key r) st1))"

definition ServeHTTP ::
  "edge_libs \<Rightarrow> 's cache_ops \<Rightarrow> server \<Rightarrow> gotime \<Rightarrow> request \<Rightarrow> 's edge_state \<Rightarrow> reply \<times> 's edge_state" where
  "ServeHTTP EL C s now r st =
     (if ed_token s \<noteq> [] \<and> hget (rq_Header r) EdgeTokenHeader \<noteq> ed_token s then (HttpError 403, st)
      else
        (case lookup_host (el_uni EL) s (hostOnly (rq_Host r)) of
           None \<Rightarrow> (HttpError 502, st)
         | Some h \<Rightarrow>
             (let waf = (if h_WAF h \<and> wafActive s then ed_waf s else None) in
              case (case waf of Some tx \<Rightarrow> if \<not> tx_off tx then wafRequest tx r else Pass | None \<Rightarrow> Pass) of
                Block code \<Rightarrow> (Blocked code, st)
              | Pass \<Rightarrow> serve_proxied EL C s now r h waf st)))"

end
