(* ===== verification/EdgeProps.thy ===== *)
theory EdgeProps
  imports Edge "HOL-Library.Multiset"
begin

text \<open>
  What the edge server guarantees: nothing is answered from the cache or a backend unless the token is
  there and the firewall has passed the request, a cache hit repeats an earlier cacheable miss, the
  longest location wins, round robin is fair until its counter leaves the signed range, and bodies are
  never cut.
\<close>

section \<open>The gates\<close>

lemma serveUpstream_cases:
  "\<exists>code. fst (serveUpstream EL C s now r target strip waf cacheable key st) = HttpError code
    \<or> fst (serveUpstream EL C s now r target strip waf cacheable key st) = Blocked code
    \<or> (\<exists>out cr rest. (fst (serveUpstream EL C s now r target strip waf cacheable key st) = Miss out (writeResponse cr ''MISS'')
          \<or> fst (serveUpstream EL C s now r target strip waf cacheable key st) = MissStreamed out (writeResponse cr ''MISS'') rest)
        \<and> (case waf of Some tx \<Rightarrow> tx_off tx \<or> wafResponse s tx cr = Pass | None \<Rightarrow> True))"
  by (auto simp: serveUpstream_def Let_def split: option.splits waf_result.splits if_splits)

definition answered :: "reply \<Rightarrow> bool" where
  "answered rep = (case rep of HttpError _ \<Rightarrow> False | Blocked _ \<Rightarrow> False | Panic \<Rightarrow> False | _ \<Rightarrow> True)"


lemma ServeHTTP_answered:
  assumes "ServeHTTP EL C s now r st = (rep, st')" "answered rep"
  obtains h waf where "lookup_host (el_uni EL) s (hostOnly (rq_Host r)) = Some h"
    "ed_token s = [] \<or> hget (rq_Header r) EdgeTokenHeader = ed_token s"
    "waf = (if h_WAF h \<and> wafActive s then ed_waf s else None)"
    "case waf of Some tx \<Rightarrow> tx_off tx \<or> wafRequest tx r = Pass | None \<Rightarrow> True"
    "serve_proxied EL C s now r h waf st = (rep, st')"
  using assms
  by (auto simp: ServeHTTP_def Let_def answered_def split: if_splits option.splits waf_result.splits prod.splits)


section \<open>What a hit repeats\<close>

text \<open>
  A sequence of requests with the clock and the server's settings at each, which reloads change. The
  entries a reply leaves in the cache: the key and the encoding of the response.
\<close>

fun edge_run :: "edge_libs \<Rightarrow> 's cache_ops \<Rightarrow> (server \<times> gotime \<times> request) list \<Rightarrow> 's edge_state \<Rightarrow> reply list" where
  "edge_run EL C [] st = []"
| "edge_run EL C ((s, now, r) # qs) st =
     (let (rep, st') = ServeHTTP EL C s now r st in rep # edge_run EL C qs st')"

definition stored_by :: "edge_libs \<Rightarrow> request \<Rightarrow> reply \<Rightarrow> (string \<times> string) set" where
  "stored_by EL r rep = {(k, v). k = cache_key r \<and> requestCacheable (el_uni EL) r
     \<and> (\<exists>out cr dflt. rep = Miss out (writeResponse cr ''MISS'') \<and> el_encode EL cr = Some v
           \<and> responseTTL (el_uni EL) cr dflt \<noteq> None)}"

context cache_store
begin

abbreviation ops :: "'s cache_ops" where
  "ops \<equiv> \<lparr>co_Get = get, co_Set = put\<rparr>"

definition logged :: "(string \<times> string) set \<Rightarrow> 's edge_state \<Rightarrow> bool" where
  "logged K st \<longleftrightarrow> inv (es_cache st) \<and> (\<forall>k v x. holds (es_cache st) k = Some (v, x) \<longrightarrow> (k, v) \<in> K)"

lemma logged_rr: "logged K (st\<lparr>es_rr := rr\<rparr>) = logged K st"
  by (simp add: logged_def)

lemma logged_mono: "logged K st \<Longrightarrow> K \<subseteq> K' \<Longrightarrow> logged K' st"
  by (auto simp: logged_def)

lemma logged_get: "logged K st \<Longrightarrow> logged K (st\<lparr>es_cache := snd (get k now (es_cache st))\<rparr>)"
  by (auto simp: logged_def get_inv dest: get_holds)

lemma logged_put:
  assumes "logged K st"
  shows "logged (insert (k, v) K) (st\<lparr>es_cache := put k v ttl now (es_cache st)\<rparr>)"
  using assms put_holds [of "es_cache st"] by (fastforce simp: logged_def put_inv)

lemma serveUpstream_logged:
  assumes "logged K st" "cacheable \<Longrightarrow> requestCacheable (el_uni EL) r"
    "serveUpstream EL ops s now r target strip waf cacheable (cache_key r) st = (rep, st')"
  shows "logged (K \<union> stored_by EL r rep) st'"
proof (cases "st' = st")
  case True
  with assms(1) show ?thesis by (auto intro: logged_mono)
next
  case False
  with assms(3) obtain out cr ttl raw where c: "cacheable" and rep: "rep = Miss out (writeResponse cr ''MISS'')"
    and ttl: "responseTTL (el_uni EL) cr (ed_defaultTTL s) = Some ttl" and raw: "el_encode EL cr = Some raw"
    and st': "st' = st\<lparr>es_cache := put (cache_key r) raw ttl now (es_cache st)\<rparr>"
    by (auto simp: serveUpstream_def Let_def split: option.splits waf_result.splits if_splits)
  have "(cache_key r, raw) \<in> stored_by EL r rep"
    using c assms(2) rep ttl raw unfolding stored_by_def by blast
  then have "insert (cache_key r, raw) K \<subseteq> K \<union> stored_by EL r rep" by blast
  with logged_put [OF assms(1)] st' show ?thesis by (metis logged_mono)
qed

lemma serve_proxied_logged:
  assumes "logged K st" "serve_proxied EL ops s now r h waf st = (rep, st')"
  shows "logged (K \<union> stored_by EL r rep) st'
    \<and> (\<forall>w. rep = Hit w \<longrightarrow> requestCacheable (el_uni EL) r
         \<and> (\<exists>v cr. (cache_key r, v) \<in> K \<and> el_decode EL v = Some cr \<and> w = writeResponse cr ''HIT''))"
proof -
  obtain t strip isLoc rr where rb: "resolveBackend h (rq_Path r) (es_rr st) = ((t, strip, isLoc), rr)"
    by (metis prod.exhaust)
  define st1 where "st1 = st\<lparr>es_rr := rr\<rparr>"
  have l1: "logged K st1" using assms(1) by (simp add: st1_def logged_rr)
  define cacheable where "cacheable = (h_Cache h \<and> ed_cacheEnabled s \<and> \<not> isLoc \<and> requestCacheable (el_uni EL) r)"
  obtain hit c where g: "get (cache_key r) now (es_cache st1) = (hit, c)" by (metis prod.exhaust)
  define st2 where "st2 = st1\<lparr>es_cache := c\<rparr>"
  have l2: "logged K st2" using logged_get [OF l1, of "cache_key r" now] g by (simp add: st2_def)
  have other: "logged (K \<union> stored_by EL r rep) st'" if "st' = st1" using that l1 by (auto intro: logged_mono)
  have noHit: "rep \<noteq> Hit w" if "serveUpstream EL ops s now r target strip waf b key x = (rep, st')" for target b key x w
    using serveUpstream_cases [of EL ops s now r target strip waf b key x] that by auto
  show ?thesis
  proof (cases "(rep = Panic \<and> st' = st1) \<or> (\<exists>code. rep = HttpError code \<and> st' = st1) \<or> (\<exists>sr. rep = Streamed sr \<and> st' = st1)")
    case True
    then show ?thesis using other by auto
  next
    case False
    have dest: "(cacheable \<and> (\<exists>v cr. hit = Some v \<and> el_decode EL v = Some cr \<and> rep = Hit (writeResponse cr ''HIT'') \<and> st' = st2))
      \<or> (\<exists>target. cacheable \<and> serveUpstream EL ops s now r target strip waf True (cache_key r) st2 = (rep, st'))
      \<or> (\<exists>target. serveUpstream EL ops s now r target strip waf False (cache_key r) st1 = (rep, st'))"
      using assms(2) False
      by (auto simp: serve_proxied_def rb Let_def st1_def [symmetric] cacheable_def [symmetric] g st2_def [symmetric] stream_def
          split: option.splits if_splits bind_splits)
    then show ?thesis
    proof (elim disjE exE conjE)
      fix v cr assume *: "cacheable" "hit = Some v" "el_decode EL v = Some cr" "rep = Hit (writeResponse cr ''HIT'')" "st' = st2"
      have "inv (es_cache st1)" using l1 by (simp add: logged_def)
      from get_hit [OF this, of "cache_key r" now v] g * obtain x where "holds (es_cache st1) (cache_key r) = Some (v, x)" by auto
      with l1 have "(cache_key r, v) \<in> K" by (auto simp: logged_def)
      with * l2 show ?thesis by (auto intro: logged_mono simp: cacheable_def)
    next
      fix target assume "cacheable" "serveUpstream EL ops s now r target strip waf True (cache_key r) st2 = (rep, st')"
      with serveUpstream_logged [OF l2] noHit show ?thesis by (metis cacheable_def)
    next
      fix target assume "serveUpstream EL ops s now r target strip waf False (cache_key r) st1 = (rep, st')"
      with serveUpstream_logged [OF l1] noHit show ?thesis by metis
    qed
  qed
qed

lemma ServeHTTP_logged:
  assumes "logged K st" "ServeHTTP EL ops s now r st = (rep, st')"
  shows "logged (K \<union> stored_by EL r rep) st'
    \<and> (\<forall>w. rep = Hit w \<longrightarrow> requestCacheable (el_uni EL) r
         \<and> (\<exists>v cr. (cache_key r, v) \<in> K \<and> el_decode EL v = Some cr \<and> w = writeResponse cr ''HIT''))"
proof (cases "\<exists>h waf. serve_proxied EL ops s now r h waf st = (rep, st')")
  case True
  with serve_proxied_logged [OF assms(1)] show ?thesis by blast
next
  case False
  then have "st' = st \<and> (\<forall>w. rep \<noteq> Hit w)"
    using assms(2) by (auto simp: ServeHTTP_def Let_def split: if_splits option.splits waf_result.splits)
  with assms(1) show ?thesis by (auto intro: logged_mono)
qed

lemma edge_run_hits:
  assumes "logged K st" "i < length qs" "edge_run EL ops qs st ! i = Hit w"
  shows "requestCacheable (el_uni EL) (snd (snd (qs ! i)))
    \<and> (\<exists>v cr. el_decode EL v = Some cr \<and> w = writeResponse cr ''HIT''
         \<and> ((cache_key (snd (snd (qs ! i))), v) \<in> K
            \<or> (\<exists>j < i. (cache_key (snd (snd (qs ! i))), v) \<in> stored_by EL (snd (snd (qs ! j))) (edge_run EL ops qs st ! j))))"
  using assms
proof (induction qs arbitrary: K st i)
  case (Cons q qs)
  obtain s now r where q: "q = (s, now, r)" by (metis prod.exhaust)
  obtain rep st' where sh: "ServeHTTP EL ops s now r st = (rep, st')" by (metis prod.exhaust)
  have run: "edge_run EL ops (q # qs) st = rep # edge_run EL ops qs st'" by (simp add: q sh)
  note one = ServeHTTP_logged [OF Cons.prems(1) sh]
  show ?case
  proof (cases i)
    case 0
    with one Cons.prems(3) run show ?thesis by (auto simp: q)
  next
    case (Suc n)
    with Cons.prems run have "n < length qs" "edge_run EL ops qs st' ! n = Hit w" by auto
    from Cons.IH [OF conjunct1 [OF one] this] obtain v cr
      where rc: "requestCacheable (el_uni EL) (snd (snd (qs ! n)))" and d: "el_decode EL v = Some cr" "w = writeResponse cr ''HIT''"
      and src: "(cache_key (snd (snd (qs ! n))), v) \<in> K \<union> stored_by EL r rep
        \<or> (\<exists>j < n. (cache_key (snd (snd (qs ! n))), v) \<in> stored_by EL (snd (snd (qs ! j))) (edge_run EL ops qs st' ! j))"
      by blast
    from src have "(cache_key (snd (snd (qs ! n))), v) \<in> K
        \<or> (\<exists>j < Suc n. (cache_key (snd (snd (qs ! n))), v) \<in> stored_by EL (snd (snd ((q # qs) ! j))) (edge_run EL ops (q # qs) st ! j))"
    proof (elim disjE exE conjE UnE)
      assume "(cache_key (snd (snd (qs ! n))), v) \<in> stored_by EL r rep"
      then show ?thesis unfolding run by (intro disjI2 exI [of _ 0]) (simp add: q)
    next
      fix j assume "j < n" "(cache_key (snd (snd (qs ! n))), v) \<in> stored_by EL (snd (snd (qs ! j))) (edge_run EL ops qs st' ! j)"
      then show ?thesis unfolding run by (intro disjI2 exI [of _ "Suc j"]) simp
    qed simp
    with rc d show ?thesis by (auto simp: Suc)
  qed
qed simp

end

definition mem_ops :: "mem_store cache_ops" where
  "mem_ops = \<lparr>co_Get = mem_get, co_Set = mem_set\<rparr>"

definition fresh_edge :: "mem_limits \<Rightarrow> mem_store edge_state" where
  "fresh_edge lim = \<lparr>es_cache = NewMemStore lim, es_rr = []\<rparr>"


section \<open>Backends\<close>

lemma best_location_spec:
  assumes "case best of None \<Rightarrow> True | Some b \<Rightarrow> loc_matches path b"
  shows "case best_location path best ls of
      None \<Rightarrow> best = None \<and> (\<forall>l \<in> set ls. \<not> loc_matches path l)
    | Some b \<Rightarrow> b \<in> set ls \<union> set_option best \<and> loc_matches path b
        \<and> (\<forall>l \<in> set ls \<union> set_option best. loc_matches path l \<longrightarrow> length (loc_PathPrefix l) \<le> length (loc_PathPrefix b))"
  using assms
proof (induction ls arbitrary: best)
  case Nil
  then show ?case by (auto split: option.splits)
next
  case (Cons l ls)
  define b' where "b' = (if loc_matches path l \<and> (case best of None \<Rightarrow> True | Some b \<Rightarrow> length (loc_PathPrefix l) > length (loc_PathPrefix b))
        then Some l else best)"
  have "case b' of None \<Rightarrow> True | Some b \<Rightarrow> loc_matches path b"
    using Cons.prems by (auto simp: b'_def split: option.splits)
  note IH = Cons.IH [OF this]
  have eq: "best_location path best (l # ls) = best_location path b' ls" by (simp add: b'_def)
  show ?case
  proof (cases "best_location path b' ls")
    case None
    with IH have "b' = None" "\<forall>l \<in> set ls. \<not> loc_matches path l" by auto
    moreover from this(1) have "best = None" "\<not> loc_matches path l" by (auto simp: b'_def split: if_splits)
    ultimately show ?thesis using None eq by simp
  next
    case (Some b)
    with IH have b: "b \<in> set ls \<union> set_option b'" "loc_matches path b"
      "\<forall>x \<in> set ls \<union> set_option b'. loc_matches path x \<longrightarrow> length (loc_PathPrefix x) \<le> length (loc_PathPrefix b)" by auto
    have "set_option b' \<subseteq> insert l (set_option best)" by (auto simp: b'_def)
    with b(1) have mem: "b \<in> set (l # ls) \<union> set_option best" by auto
    have "length (loc_PathPrefix x) \<le> length (loc_PathPrefix b)" if "x \<in> insert l (set_option best)" "loc_matches path x" for x
    proof -
      have "\<exists>y. b' = Some y \<and> length (loc_PathPrefix x) \<le> length (loc_PathPrefix y)"
        using that by (cases best) (auto simp: b'_def)
      then obtain y where "b' = Some y" "length (loc_PathPrefix x) \<le> length (loc_PathPrefix y)" by blast
      moreover from this(1) have "loc_matches path y" using \<open>case b' of None \<Rightarrow> True | Some b \<Rightarrow> loc_matches path b\<close> by simp
      ultimately show ?thesis using b(3) by fastforce
    qed
    with b mem show ?thesis unfolding eq Some by auto
  qed
qed

lemma balance_target:
  assumes "balance key ups rr = (Some t, rr')" "ups \<noteq> []"
  shows "t \<in> upstream_url ` set ups"
proof -
  let ?i = "go_rem (sint (mget_or 0 rr key + 1)) (int (length ups))"
  have "0 \<le> ?i" "t = upstream_url (ups ! nat ?i)"
    using assms by (auto simp: balance_def Let_def split: if_splits)
  moreover have "\<bar>go_rem a b\<bar> < b" if "0 < b" for a b
    using that by (auto simp: go_rem_def abs_mult sgn_if)
  ultimately show ?thesis using assms(2) by (metis abs_of_nonneg imageI length_greater_0_conv nat_less_iff nth_mem of_nat_0_less_iff)
qed

text \<open>
  The longest matching location serves the request: when some location with upstreams has the path
  under its prefix, the backend is one of the upstreams of a matching location whose prefix is longest,
  with that location's strip setting, and the request is marked as a location; otherwise the host's own
  upstreams serve it and nothing is stripped.
\<close>

theorem edge_longest_location:
  assumes "resolveBackend h path rr = ((Some t, strip, isLoc), rr')"
  shows "if isLoc
    then \<exists>l \<in> set (h_Locations h). loc_matches path l \<and> t \<in> upstream_url ` set (loc_Upstreams l)
           \<and> strip = (if loc_StripPrefix l then loc_PathPrefix l else [])
           \<and> (\<forall>l' \<in> set (h_Locations h). loc_matches path l' \<longrightarrow> length (loc_PathPrefix l') \<le> length (loc_PathPrefix l))
    else strip = [] \<and> (\<forall>l \<in> set (h_Locations h). \<not> loc_matches path l)
           \<and> (group_upstreams h \<noteq> [] \<longrightarrow> t \<in> upstream_url ` set (group_upstreams h))"
proof (cases "best_location path None (h_Locations h)")
  case None
  with best_location_spec [where best = None and path = path and ls = "h_Locations h"] assms show ?thesis
    by (auto simp: resolveBackend_def pickBackend_def split: prod.splits dest: balance_target)
next
  case (Some l)
  with best_location_spec [where best = None and path = path and ls = "h_Locations h"]
  have l: "l \<in> set (h_Locations h)" "loc_matches path l"
    "\<forall>l' \<in> set (h_Locations h). loc_matches path l' \<longrightarrow> length (loc_PathPrefix l') \<le> length (loc_PathPrefix l)" by auto
  have "loc_Upstreams l \<noteq> []" using l(2) by (simp add: loc_matches_def)
  with assms Some l show ?thesis
    by (auto simp: resolveBackend_def split: prod.splits dest: balance_target)
qed

text \<open>A run of picks for one key.\<close>

fun picks :: "string \<Rightarrow> upstream list \<Rightarrow> nat \<Rightarrow> (string, 64 word) gomap \<Rightarrow> string option list" where
  "picks key ups 0 rr = []"
| "picks key ups (Suc n) rr = (let (t, rr') = balance key ups rr in t # picks key ups n rr')"

lemma balance_step:
  assumes "ups \<noteq> []" "unat (mget_or 0 rr key) + 1 < 2 ^ 63"
  shows "balance key ups rr =
     (Some (upstream_url (ups ! ((unat (mget_or 0 rr key) + 1) mod length ups))), mput key (mget_or 0 rr key + 1) rr)
    \<and> unat (mget_or 0 rr key + 1) = unat (mget_or 0 rr key) + 1"
proof -
  let ?c = "mget_or 0 rr key :: 64 word"
  have u: "unat (?c + 1) = unat ?c + 1"
    using assms(2) by (subst unat_add_lem [THEN iffD1]) simp_all
  have "uint (?c + 1) = int (unat ?c + 1)" by (simp only: uint_nat u)
  moreover have "int (unat ?c + 1) < 2 ^ 63" using assms(2) by (metis of_nat_less_iff of_nat_numeral of_nat_power)
  ultimately have s: "sint (?c + 1) = int (unat ?c + 1)"
    by (subst sint_uint, subst signed_take_bit_int_eq_self) simp_all
  have l: "0 < int (length ups)" using assms(1) by simp
  have i: "go_rem (sint (?c + 1)) (int (length ups)) = int ((unat ?c + 1) mod length ups)"
    unfolding s using l by (simp add: go_rem_nonneg zmod_int)
  have "balance key ups rr = (Some (upstream_url (ups ! ((unat ?c + 1) mod length ups))), mput key (?c + 1) rr)"
    using assms(1) by (simp only: balance_def Let_def i if_False of_nat_less_0_iff nat_int)
  with u show ?thesis by blast
qed

lemma picks_map:
  assumes "ups \<noteq> []" "unat (mget_or 0 rr key) + n < 2 ^ 63"
  shows "picks key ups n rr =
    map (\<lambda>i. Some (upstream_url (ups ! ((unat (mget_or 0 rr key) + 1 + i) mod length ups)))) [0..<n]"
  using assms(2)
proof (induction n arbitrary: rr)
  case (Suc n)
  let ?c = "mget_or 0 rr key :: 64 word"
  have "unat ?c + 1 < 2 ^ 63" using Suc.prems by simp
  from balance_step [OF assms(1) this]
  have b: "balance key ups rr = (Some (upstream_url (ups ! ((unat ?c + 1) mod length ups))), mput key (?c + 1) rr)"
    and u: "unat (?c + 1) = unat ?c + 1" by auto
  have m: "mget_or 0 (mput key (?c + 1) rr) key = ?c + 1" by (simp add: mget_or_def)
  have "picks key ups (Suc n) rr = Some (upstream_url (ups ! ((unat ?c + 1) mod length ups)))
      # picks key ups n (mput key (?c + 1) rr)"
    by (simp add: b)
  also have "picks key ups n (mput key (?c + 1) rr) =
      map (\<lambda>i. Some (upstream_url (ups ! ((unat ?c + 1 + Suc i) mod length ups)))) [0..<n]"
    using Suc.IH [of "mput key (?c + 1) rr"] Suc.prems by (simp add: m u)
  finally show ?case
    by (simp add: upt_rec [of 0 "Suc n"] map_Suc_upt [symmetric] del: upt_Suc)
qed simp

text \<open>
  Round robin is fair: while the counter stays below half its range, as many requests as a host has
  upstreams reach each upstream once, wherever the counter stands; and the counter's last value of the
  signed range makes the next pick an index below zero, which panics, unless the number of upstreams
  divides the range.
\<close>

theorem round_robin_fair:
  assumes "ups \<noteq> []"
  shows "if unat (mget_or 0 rr key) + length ups < 2 ^ 63
    then mset (picks key ups (length ups) rr) = mset (map (Some \<circ> upstream_url) ups)
    else \<not> length ups dvd 2 ^ 63 \<and> mget_or 0 rr key = 2 ^ 63 - 1 \<longrightarrow> fst (balance key ups rr) = None"
proof (cases "unat (mget_or 0 rr key) + length ups < 2 ^ 63")
  case True
  define m where "m = unat (mget_or 0 rr key) + 1"
  have "rotate m ups = map (\<lambda>i. ups ! ((m + i) mod length ups)) [0..<length ups]"
    by (rule nth_equalityI) (simp_all add: nth_rotate)
  then have "picks key ups (length ups) rr = map (Some \<circ> upstream_url) (rotate m ups)"
    unfolding picks_map [OF assms True] m_def [symmetric] by simp
  moreover have "mset (rotate n xs) = mset xs" for n and xs :: "upstream list"
  proof (induction n)
    case (Suc n)
    then show ?case by (cases "rotate n xs") simp_all
  qed simp
  ultimately show ?thesis using True by (simp del: map_map)
next
  case False
  show ?thesis
  proof (simp only: False if_False, intro impI)
    assume *: "\<not> length ups dvd 2 ^ 63 \<and> mget_or 0 rr key = 2 ^ 63 - 1"
    have s: "sint (mget_or 0 rr key + 1 :: 64 word) = - (2 ^ 63)" using * by simp
    have "\<not> int (length ups) dvd 2 ^ 63" using * by (metis int_dvd_int_iff of_nat_numeral of_nat_power)
    then have "(2 ^ 63 :: int) mod int (length ups) \<noteq> 0" by (simp add: dvd_eq_mod_eq_0)
    moreover have "0 \<le> (2 ^ 63 :: int) mod int (length ups)" using assms by simp
    ultimately have "go_rem (- (2 ^ 63)) (int (length ups)) < 0" by (simp add: go_rem_def)
    with s assms show "fst (balance key ups rr) = None" by (simp add: balance_def Let_def)
  qed
qed

section \<open>Bodies and headers\<close>

lemma serveUpstream_backend:
  assumes "serveUpstream EL C s now r target strip waf cacheable key st = (rep, st')"
  shows "case rep of
      Miss out w \<Rightarrow> \<exists>resp. el_backend EL out = Some resp \<and> buildUpstreamRequest EL r target strip = Some out
        \<and> cr_Body w = ur_Body resp \<and> cr_Status w = ur_Status resp \<and> length (ur_Body resp) \<le> ed_maxEntryBytes s
    | MissStreamed out w rest \<Rightarrow> \<exists>resp. el_backend EL out = Some resp \<and> buildUpstreamRequest EL r target strip = Some out
        \<and> cr_Body w @ rest = ur_Body resp \<and> cr_Status w = ur_Status resp
        \<and> length (cr_Body w) = ed_maxEntryBytes s + 1 \<and> st' = st
    | _ \<Rightarrow> True"
  using assms
  by (auto simp: serveUpstream_def Let_def writeResponse_def min_def split: option.splits waf_result.splits if_splits)

lemma forwarded_header:
  "mget (forwarded r h) EdgeTokenHeader = None \<and> hget (forwarded r h) ''X-Forwarded-Host'' = rq_Host r"
  by (simp add: forwarded_def hset_def hget_def EdgeTokenHeader_def)

text \<open>
  The edge neither cuts bodies nor leaks its token: what the client gets of a buffered answer,
  the prefix held in memory and the streamed remainder, is the backend's body whole, at most one byte
  over the limit is held, and an answer over the limit leaves the cache as it was; no request sent to a
  backend carries the edge token and each carries the public host.
\<close>

theorem edge_body_and_token:
  assumes "ServeHTTP EL C s now r st = (rep, st')"
  shows "case rep of
      Miss out w \<Rightarrow> mget (or_Header out) EdgeTokenHeader = None \<and> or_Host out = rq_Host r
        \<and> (\<exists>resp. el_backend EL out = Some resp \<and> cr_Body w = ur_Body resp \<and> length (cr_Body w) \<le> ed_maxEntryBytes s)
    | MissStreamed out w rest \<Rightarrow> mget (or_Header out) EdgeTokenHeader = None \<and> or_Host out = rq_Host r
        \<and> (\<exists>resp. el_backend EL out = Some resp \<and> cr_Body w @ rest = ur_Body resp)
        \<and> length (cr_Body w) = ed_maxEntryBytes s + 1
    | Streamed sr \<Rightarrow> mget (sr_Header sr) EdgeTokenHeader = None \<and> sr_Host sr = rq_Host r
    | _ \<Rightarrow> True"
proof (cases "\<exists>target strip waf c key st2. serveUpstream EL C s now r target strip waf c key st2 = (rep, st')")
  case True
  then obtain target strip waf c key st2 where u: "serveUpstream EL C s now r target strip waf c key st2 = (rep, st')" by blast
  have out: "mget (or_Header out) EdgeTokenHeader = None \<and> or_Host out = rq_Host r"
    if "buildUpstreamRequest EL r target strip = Some out" for out
    using that by (auto simp: buildUpstreamRequest_def Let_def forwarded_header split: if_splits)
  have "\<not> (\<exists>sr. rep = Streamed sr)" using u by (auto simp: serveUpstream_def Let_def split: option.splits waf_result.splits if_splits)
  with serveUpstream_backend [OF u] out show ?thesis by (auto split: reply.splits)
next
  case False
  show ?thesis
  proof (cases rep)
    case (Streamed sr)
    then have "\<exists>target strip. stream EL r target strip = Streamed sr"
      using assms False
      by (auto simp: ServeHTTP_def serve_proxied_def Let_def split: if_splits option.splits waf_result.splits prod.splits)
    then show ?thesis by (auto simp: Streamed stream_def forwarded_header split: if_splits)
  qed (use assms False in \<open>auto simp: ServeHTTP_def serve_proxied_def stream_def Let_def
        split: if_splits option.splits waf_result.splits prod.splits\<close>)
qed

section \<open>Cache lifetimes\<close>

lemma last_digits: "s \<noteq> [] \<Longrightarrow> list_all is_digit s \<Longrightarrow> printable (last s)"
proof -
  assume "s \<noteq> []" "list_all is_digit s"
  then have "is_digit (last s)" by (simp add: list_all_iff)
  then show ?thesis by (simp add: is_digit_def printable_def)
qed

lemma age_text:
  assumes "n < 2 ^ 63"
  shows "age_of (''max-age='' @ show_nat n) ''s-maxage='' = None \<and> age_of (''max-age='' @ show_nat n) ''max-age='' = Some (int n)"
  using assms by (simp add: age_of_def atoi_show_nat)

text \<open>
  The first lifetime of a Cache-Control header wins: with max-age written before s-maxage the edge
  keeps the response for the max-age, although it is a shared cache and the header gives shared caches
  another lifetime, such as none.
\<close>

theorem first_max_age_wins:
  assumes "n < 2 ^ 32" "m < 2 ^ 32"
  shows "maxAge (''max-age='' @ show_nat n @ '','' @ ''s-maxage='' @ show_nat m) = Some (int n * second)"
proof -
  have "CHR '','' \<notin> set (show_nat n)" by (rule not_digit_notin) (simp_all add: is_digit_def)
  then have "CHR '','' \<notin> set (''max-age='' @ show_nat n)" by auto
  then have sp: "split_on (CHR '','') ((''max-age='' @ show_nat n) @ CHR '','' # ''s-maxage='' @ show_nat m) =
      (''max-age='' @ show_nat n) # split_on (CHR '','') (''s-maxage='' @ show_nat m)"
    by (rule split_on_append)
  have t: "trim_space (''max-age='' @ show_nat n) = ''max-age='' @ show_nat n"
  proof (rule trim_space_printable)
    show "printable (last (''max-age='' @ show_nat n))"
      using show_nat_nonempty [of n] show_nat_digits [of n] last_digits by simp
  qed (simp_all add: printable_def)
  have "wrap64 (int n * second) = int n * second" using assms(1) by (intro wrap64_id) auto
  with t age_text [of n] assms(1)
  have "max_age_parts ((''max-age='' @ show_nat n) # ps) = Some (int n * second)" for ps
    unfolding max_age_parts.simps Let_def t by simp
  moreover have "''max-age='' @ show_nat n @ '','' @ ''s-maxage='' @ show_nat m
      = (''max-age='' @ show_nat n) @ CHR '','' # ''s-maxage='' @ show_nat m" by simp
  ultimately show ?thesis by (simp only: maxAge_def sp)
qed

lemma first_max_age_wins_witness: "maxAge (''max-age='' @ show_nat 600 @ '','' @ ''s-maxage='' @ show_nat 0) = Some (600 * second)"
  using first_max_age_wins [of 600 0] by simp

section \<open>A concrete edge\<close>

definition page :: cachedResponse where
  "page = \<lparr>cr_Status = 200, cr_Header = [(''Content-Type'', [''text/html''])], cr_Body = ''hi''\<rparr>"

definition sample_libs :: edge_libs where
  "sample_libs = \<lparr>el_uni = id, el_parses = (\<lambda>_. True), el_requestOk = (\<lambda>_ _. True),
     el_encode = (\<lambda>cr. if cr = page then Some ''p'' else None),
     el_decode = (\<lambda>v. if v = ''p'' then Some page else None),
     el_backend = (\<lambda>_. Some \<lparr>ur_Status = 200, ur_Header = [(''Content-Type'', [''text/html''])], ur_Body = ''hi'', ur_ReadFails = False\<rparr>),
     el_proxyHeader = rq_Header\<rparr>"

definition strict_tx :: coraza_tx where
  "strict_tx = \<lparr>tx_off = False, tx_requestHeaders = (\<lambda>_ r. if rq_Path r = ''/evil'' then Some 0 else None),
     tx_readsRequestBody = (\<lambda>_. False), tx_readRequestBody = (\<lambda>_. Inr None), tx_requestBody = (\<lambda>_. Inr None),
     tx_responseHeaders = (\<lambda>_. None), tx_readsResponseBody = (\<lambda>_. False), tx_readResponseBody = (\<lambda>_. Inr None),
     tx_responseBody = (\<lambda>_. Inr None)\<rparr>"

definition cached_host :: host where
  "cached_host = zero_host\<lparr>h_ID := ''h'', h_Kind := HostKindProxy, h_Enabled := True, h_Domains := [''a''],
     h_Upstreams := [\<lparr>u_Scheme = [], u_Host = ''b'', u_Port = 80, u_Weight = 0\<rparr>],
     h_Locations := [\<lparr>loc_PathPrefix = ''/x'', loc_Upstreams = [\<lparr>u_Scheme = [], u_Host = ''c'', u_Port = 0, u_Weight = 0\<rparr>],
        loc_StripPrefix = True\<rparr>], h_WAF := True, h_Cache := True\<rparr>"

definition sample_server :: server where
  "sample_server = (new_server 0 ''tok'')\<lparr>ed_waf := Some strict_tx, ed_wafEnabled := True, ed_byHost := [(''a'', cached_host)]\<rparr>"

definition get_root :: request where
  "get_root = \<lparr>rq_Method = ''GET'', rq_Host = ''a'', rq_Path = ''/'', rq_RawQuery = [], rq_URI = ''/'',
     rq_Header = [(EdgeTokenHeader, [''tok''])], rq_TLS = False, rq_Remote = ''1.2.3.4:5''\<rparr>"

definition sample_state :: "mem_store edge_state" where
  "sample_state = \<lparr>es_cache = NewMemStore \<lparr>ml_MaxBytes = 0, ml_MaxEntryBytes = 0, ml_MaxEntries = 0\<rparr>, es_rr = []\<rparr>"

lemma root_backend: "resolveBackend cached_host ''/'' rr =
    ((Some ''http://b:80'', [], False), mput ''h'' (mget_or 0 rr ''h'' + 1) rr)"
proof -
  have "go_rem a 1 = 0" for a by (simp add: go_rem_def)
  moreover have "upstream_url \<lparr>u_Scheme = [], u_Host = ''b'', u_Port = 80, u_Weight = 0\<rparr> = ''http://b:80''" by code_simp
  ultimately show ?thesis
    by (simp add: resolveBackend_def cached_host_def zero_host_def loc_matches_def pathHasPrefix_def pickBackend_def
        group_upstreams_def balance_def Let_def)
qed

lemma root_cacheable: "requestCacheable id get_root" "\<not> isUpgrade id get_root" "\<not> wantsStream id get_root"
  by (simp_all add: requestCacheable_def isUpgrade_def wantsStream_def get_root_def hget_def EdgeTokenHeader_def to_lower_def)

lemma page_ttl: "responseTTL id page (2 * minute) = Some (2 * minute)"
  by (simp add: responseTTL_def page_def hget_def hvalues_def mget_or_def to_lower_def vary_def trim_space_Nil
      maxAge_def age_of_def)

lemma root_served:
  "ServeHTTP sample_libs C sample_server now get_root st =
     serve_proxied sample_libs C sample_server now get_root cached_host (Some strict_tx) st"
proof -
  have "lookup_host id sample_server (hostOnly (rq_Host get_root)) = Some cached_host"
    by (simp add: lookup_host_def sample_server_def hostOnly_def get_root_def to_lower_def is_ascii_def lower_char_def is_upper_def)
  moreover have "wafRequest strict_tx get_root = Pass"
    by (simp add: wafRequest_def strict_tx_def get_root_def)
  moreover have "h_WAF cached_host" by (simp add: cached_host_def)
  moreover have "ed_token sample_server = ''tok''" "wafActive sample_server" "ed_waf sample_server = Some strict_tx"
    "hget (rq_Header get_root) EdgeTokenHeader = ''tok''"
    by (simp_all add: sample_server_def new_server_def wafActive_def get_root_def hget_def)
  ultimately show ?thesis by (simp add: ServeHTTP_def Let_def sample_libs_def)
qed

lemma root_proxied:
  "serve_proxied sample_libs C sample_server now get_root cached_host (Some strict_tx) st =
    (let rr = mput ''h'' (mget_or 0 (es_rr st) ''h'' + 1) (es_rr st);
         (hit, c) = co_Get C ''GET a /'' now (es_cache st) in
     case Option.bind hit (el_decode sample_libs) of
       Some cr \<Rightarrow> (Hit (writeResponse cr ''HIT''), \<lparr>es_cache = c, es_rr = rr\<rparr>)
     | None \<Rightarrow> serveUpstream sample_libs C sample_server now get_root ''http://b:80'' [] (Some strict_tx) True
                 ''GET a /'' \<lparr>es_cache = c, es_rr = rr\<rparr>)"
proof -
  have "h_Cache cached_host" "ed_cacheEnabled sample_server" "rq_Path get_root = ''/''" "el_uni sample_libs = id"
    "cache_key get_root = ''GET a /''"
    by (simp_all add: cached_host_def sample_server_def new_server_def get_root_def sample_libs_def cache_key_def hostOnly_def)
  then show ?thesis
    using root_cacheable
    by (cases st) (auto simp: serve_proxied_def root_backend Let_def split: prod.split option.split)
qed

lemma root_upstream:
  "serveUpstream sample_libs C sample_server now get_root ''http://b:80'' [] (Some strict_tx) True key st =
    (Miss \<lparr>or_Method = ''GET'', or_URL = ''http://b:80/'', or_Host = ''a'', or_Header = forwarded get_root (rq_Header get_root)\<rparr>
       (writeResponse page ''MISS''), st\<lparr>es_cache := co_Set C key ''p'' (2 * minute) now (es_cache st)\<rparr>)"
proof -
  have "buildUpstreamRequest sample_libs get_root ''http://b:80'' [] =
     Some \<lparr>or_Method = ''GET'', or_URL = ''http://b:80/'', or_Host = ''a'', or_Header = forwarded get_root (rq_Header get_root)\<rparr>"
    by (simp add: buildUpstreamRequest_def sample_libs_def get_root_def EdgeTokenHeader_def equal_fold_def lower_char_def is_upper_def)
  moreover have "wafResponse sample_server strict_tx cr = Pass" for cr by (simp add: wafResponse_def strict_tx_def)
  moreover have "ed_maxEntryBytes sample_server = 8388608" "ed_defaultTTL sample_server = 2 * minute" "el_uni sample_libs = id"
    "el_encode sample_libs page = Some ''p''"
    by (simp_all add: sample_server_def new_server_def sample_libs_def)
  moreover have "\<lparr>cr_Status = 200, cr_Header = [(''Content-Type'', [''text/html''])], cr_Body = ''hi''\<rparr> = page"
    by (simp add: page_def)
  ultimately show ?thesis
    using page_ttl by (simp add: serveUpstream_def Let_def sample_libs_def)
qed

lemma sample_cache:
  "mem_get ''GET a /'' 0 (es_cache sample_state) = (None, es_cache sample_state)"
  "fst (mem_get ''GET a /'' 1 (mem_set ''GET a /'' ''p'' (2 * minute) 0 (es_cache sample_state))) = Some ''p''"
  by code_simp+

lemma sample_miss:
  "ServeHTTP sample_libs mem_ops sample_server 0 get_root sample_state =
    (Miss \<lparr>or_Method = ''GET'', or_URL = ''http://b:80/'', or_Host = ''a'', or_Header = forwarded get_root (rq_Header get_root)\<rparr>
       (writeResponse page ''MISS''),
     \<lparr>es_cache = mem_set ''GET a /'' ''p'' (2 * minute) 0 (es_cache sample_state), es_rr = mput ''h'' 1 []\<rparr>)"
proof -
  have "es_rr sample_state = []" by (simp add: sample_state_def)
  then show ?thesis
    unfolding root_served root_proxied
    by (simp add: mem_ops_def sample_cache root_upstream mget_or_def)
qed

lemma sample_hit:
  "\<exists>st'. ServeHTTP sample_libs mem_ops sample_server 1 get_root
      \<lparr>es_cache = mem_set ''GET a /'' ''p'' (2 * minute) 0 (es_cache sample_state), es_rr = rr\<rparr>
     = (Hit (writeResponse page ''HIT''), st')"
proof -
  obtain c where "mem_get ''GET a /'' 1 (mem_set ''GET a /'' ''p'' (2 * minute) 0 (es_cache sample_state)) = (Some ''p'', c)"
    using sample_cache(2) by (metis prod.collapse)
  moreover have "el_decode sample_libs ''p'' = Some page" by (simp add: sample_libs_def)
  ultimately show ?thesis
    unfolding root_served root_proxied by (simp add: mem_ops_def)
qed

lemma sample_run:
  "edge_run sample_libs mem_ops [(sample_server, 0, get_root), (sample_server, 1, get_root)] sample_state ! 1
     = Hit (writeResponse page ''HIT'')"
proof -
  obtain st' where "ServeHTTP sample_libs mem_ops sample_server 1 get_root
      \<lparr>es_cache = mem_set ''GET a /'' ''p'' (2 * minute) 0 (es_cache sample_state), es_rr = mput ''h'' 1 []\<rparr>
     = (Hit (writeResponse page ''HIT''), st')" using sample_hit by blast
  then show ?thesis by (simp only: edge_run.simps sample_miss prod.case Let_def) simp
qed

lemma sample_fresh: "sample_state = fresh_edge \<lparr>ml_MaxBytes = 0, ml_MaxEntryBytes = 0, ml_MaxEntries = 0\<rparr>"
  by (simp add: sample_state_def fresh_edge_def)




lemma edge_body_and_token_witness:
  "mget (forwarded get_root (rq_Header get_root)) EdgeTokenHeader = None"
  using edge_body_and_token [OF sample_miss] by simp

lemma edge_longest_location_witness:
  "\<exists>l \<in> set (h_Locations cached_host). loc_matches ''/x/y'' l"
proof -
  have "\<exists>t rr'. resolveBackend cached_host ''/x/y'' [] = ((Some t, ''/x'', True), rr')"
  proof -
    have "go_rem a 1 = 0" for a by (simp add: go_rem_def)
    then show ?thesis
      by (simp add: resolveBackend_def cached_host_def zero_host_def loc_matches_def pathHasPrefix_def balance_def Let_def)
  qed
  then show ?thesis using edge_longest_location [of cached_host "''/x/y''" "[]" _ "''/x''" True] by auto
qed

lemma round_robin_fair_witness:
  "mset (picks ''h'' (h_Upstreams cached_host) (length (h_Upstreams cached_host)) [])
     = mset (map (Some \<circ> upstream_url) (h_Upstreams cached_host))"
  using round_robin_fair [of "h_Upstreams cached_host" "[]" "''h''"] by (simp add: cached_host_def mget_or_def)

end
