(* ===== verification/Store.thy ===== *)
theory Store
  imports Models "HOL-Library.Monad_Syntax"
begin

text \<open>
  The persistence layer \<open>internal/store\<close>: one field of the database record per table, one definition per
  method of \<open>Store\<close>, with the statements each method executes in its order. Constraints of the
  migrations (primary keys, unique columns) are checked on insert and update. A statement can fail for
  reasons outside the program, which the list \<open>db_faults\<close> decides, one entry per statement. The clock
  and fresh identifiers are arguments. JSON columns hold the values they encode.
\<close>

section \<open>Database\<close>

datatype db_err = NotFound | Conflict | DBFault

text \<open>A row of \<open>hosts\<close>: the queried columns and the rest in the data column.\<close>

record host_row =
  hr_id :: string
  hr_kind :: string
  hr_enabled :: bool
  hr_domains :: "string list"
  hr_data :: host
  hr_created :: int
  hr_updated :: int

record ban_row =
  br_ip :: string
  br_reason :: string
  br_manual :: bool
  br_hits :: int
  br_created :: int
  br_expires :: int

record db =
  db_users :: "user list"
  db_sessions :: "session list"
  db_hosts :: "host_row list"
  db_middlewares :: "middleware list"
  db_access_lists :: "access_list list"
  db_certs :: "certificate list"
  db_accounts :: "acme_account list"
  db_dns :: "dns_provider list"
  db_settings :: "(string, string) gomap"
  db_audit :: "audit_entry list"
  db_snapshots :: "config_snapshot list"
  db_schedules :: "schedule list"
  db_leases :: "(string, string \<times> int) gomap"
  db_bans :: "ban_row list"
  db_faults :: "bool list"

definition empty_db :: db where
  "empty_db = \<lparr>db_users = [], db_sessions = [], db_hosts = [], db_middlewares = [], db_access_lists = [],
     db_certs = [], db_accounts = [], db_dns = [], db_settings = [], db_audit = [], db_snapshots = [],
     db_schedules = [], db_leases = [], db_bans = [], db_faults = []\<rparr>"

text \<open>An operation on the database; \<open>stmt\<close> runs one SQL statement, which a fault stops.\<close>

type_synonym 'a dbop = "db \<Rightarrow> (db_err + 'a) \<times> db"

definition stmt :: "'a dbop \<Rightarrow> 'a dbop" where
  "stmt f d =
     (case db_faults d of
        [] \<Rightarrow> f d
      | True # fs \<Rightarrow> (Inl DBFault, d\<lparr>db_faults := fs\<rparr>)
      | False # fs \<Rightarrow> f (d\<lparr>db_faults := fs\<rparr>))"

definition and_then :: "'a dbop \<Rightarrow> ('a \<Rightarrow> 'b dbop) \<Rightarrow> 'b dbop" where
  "and_then f g d = (case f d of (Inl e, d') \<Rightarrow> (Inl e, d') | (Inr x, d') \<Rightarrow> g x d')"

definition done_with :: "'a \<Rightarrow> 'a dbop" where
  "done_with x d = (Inr x, d)"

lemma stmt_no_fault [simp]: "db_faults d = [] \<Longrightarrow> stmt f d = f d"
  by (simp add: stmt_def)

section \<open>Tables\<close>

text \<open>
  A table is reached through a reader and a writer of the database record; \<open>key\<close> is its primary key and
  \<open>uniq\<close> a further unique column. INSERT, UPDATE and DELETE by key, and SELECT by key.
\<close>

definition t_insert ::
  "(db \<Rightarrow> 'r list) \<Rightarrow> ('r list \<Rightarrow> db \<Rightarrow> db) \<Rightarrow> ('r \<Rightarrow> string) \<Rightarrow> ('r \<Rightarrow> string) \<Rightarrow> 'r \<Rightarrow> unit dbop" where
  "t_insert rd wr key uniq r = stmt (\<lambda>d.
     if \<exists>x \<in> set (rd d). key x = key r \<or> uniq x = uniq r then (Inl Conflict, d)
     else (Inr (), wr (rd d @ [r]) d))"

definition t_update ::
  "(db \<Rightarrow> 'r list) \<Rightarrow> ('r list \<Rightarrow> db \<Rightarrow> db) \<Rightarrow> ('r \<Rightarrow> string) \<Rightarrow> ('r \<Rightarrow> string) \<Rightarrow> string \<Rightarrow> ('r \<Rightarrow> 'r) \<Rightarrow> unit dbop" where
  "t_update rd wr key uniq k f = stmt (\<lambda>d.
     let rows = map (\<lambda>x. if key x = k then f x else x) (rd d) in
     if distinct (map uniq rows) then (Inr (), wr rows d) else (Inl Conflict, d))"

definition t_delete ::
  "(db \<Rightarrow> 'r list) \<Rightarrow> ('r list \<Rightarrow> db \<Rightarrow> db) \<Rightarrow> ('r \<Rightarrow> bool) \<Rightarrow> unit dbop" where
  "t_delete rd wr P = stmt (\<lambda>d. (Inr (), wr (filter (\<lambda>x. \<not> P x) (rd d)) d))"

definition t_get :: "(db \<Rightarrow> 'r list) \<Rightarrow> ('r \<Rightarrow> bool) \<Rightarrow> 'r dbop" where
  "t_get rd P = stmt (\<lambda>d. (case find P (rd d) of None \<Rightarrow> Inl NotFound | Some r \<Rightarrow> Inr r, d))"

definition t_list :: "(db \<Rightarrow> 'r list) \<Rightarrow> ('r list \<Rightarrow> 'r list) \<Rightarrow> 'r list dbop" where
  "t_list rd order = stmt (\<lambda>d. (Inr (order (rd d)), d))"

text \<open>What every table promises, for a reader and a writer that fit together.\<close>

locale table =
  fixes rd :: "db \<Rightarrow> 'r list" and wr :: "'r list \<Rightarrow> db \<Rightarrow> db"
    and key :: "'r \<Rightarrow> string" and uniq :: "'r \<Rightarrow> string"
  assumes rd_wr [simp]: "rd (wr rows d) = rows"
    and rd_faults [simp]: "rd (d\<lparr>db_faults := fs\<rparr>) = rd d"
    and faults_wr [simp]: "db_faults (wr rows d) = db_faults d"
begin

definition ok :: "db \<Rightarrow> bool" where
  "ok d \<longleftrightarrow> distinct (map key (rd d)) \<and> distinct (map uniq (rd d))"

definition lookup :: "db \<Rightarrow> string \<Rightarrow> 'r option" where
  "lookup d k = find (\<lambda>x. key x = k) (rd d)"

lemma lookup_Some: "ok d \<Longrightarrow> r \<in> set (rd d) \<Longrightarrow> lookup d (key r) = Some r"
proof -
  assume ok: "ok d" and r: "r \<in> set (rd d)"
  have "distinct (map key rows) \<Longrightarrow> r \<in> set rows \<Longrightarrow> find (\<lambda>x. key x = key r) rows = Some r" for rows
    by (induction rows) force+
  with ok r show ?thesis by (simp add: ok_def lookup_def)
qed

lemma ok_faults [simp]: "ok (d\<lparr>db_faults := fs\<rparr>) = ok d"
  by (simp add: ok_def)

lemma insert_ok: "ok d \<Longrightarrow> ok (snd (t_insert rd wr key uniq r d))"
  by (auto simp: t_insert_def stmt_def ok_def split: list.splits bool.splits)

lemma update_ok:
  assumes "ok d" "\<And>x. key (f x) = key x"
  shows "ok (snd (t_update rd wr key uniq k f d))"
proof -
  have "map key (map (\<lambda>x. if key x = k then f x else x) rows) = map key rows" for rows
    using assms(2) by simp
  then show ?thesis
    using assms(1)
    by (auto simp: t_update_def stmt_def ok_def Let_def simp del: map_map split: list.splits bool.splits)
qed

lemma delete_ok: "ok d \<Longrightarrow> ok (snd (t_delete rd wr P d))"
  by (auto simp: t_delete_def stmt_def ok_def distinct_map_filter split: list.splits bool.splits)

lemma insert_lookup:
  assumes "ok d" "fst (t_insert rd wr key uniq r d) = Inr ()"
  shows "lookup (snd (t_insert rd wr key uniq r d)) (key r) = Some r"
proof -
  have "find (\<lambda>x. key x = key r) (rows @ [r]) = Some r" if "\<forall>x \<in> set rows. key x \<noteq> key r" for rows
    using that by (induction rows) auto
  then show ?thesis
    using assms(2) by (auto simp: t_insert_def stmt_def lookup_def split: list.splits bool.splits if_splits)
qed

lemma insert_frame: "x \<in> set (rd d) \<Longrightarrow> x \<in> set (rd (snd (t_insert rd wr key uniq r d)))"
  by (auto simp: t_insert_def stmt_def split: list.splits bool.splits)

lemma delete_gone:
  assumes "fst (t_delete rd wr P d) = Inr ()" "x \<in> set (rd (snd (t_delete rd wr P d)))"
  shows "\<not> P x \<and> x \<in> set (rd d)"
  using assms by (auto simp: t_delete_def stmt_def split: list.splits bool.splits)

end

section \<open>Users and sessions\<close>

abbreviation wr_users where "wr_users rows d \<equiv> d\<lparr>db_users := rows\<rparr>"
abbreviation wr_sessions where "wr_sessions rows d \<equiv> d\<lparr>db_sessions := rows\<rparr>"
abbreviation wr_hosts where "wr_hosts rows d \<equiv> d\<lparr>db_hosts := rows\<rparr>"
abbreviation wr_middlewares where "wr_middlewares rows d \<equiv> d\<lparr>db_middlewares := rows\<rparr>"
abbreviation wr_access_lists where "wr_access_lists rows d \<equiv> d\<lparr>db_access_lists := rows\<rparr>"
abbreviation wr_certs where "wr_certs rows d \<equiv> d\<lparr>db_certs := rows\<rparr>"
abbreviation wr_dns where "wr_dns rows d \<equiv> d\<lparr>db_dns := rows\<rparr>"
abbreviation wr_schedules where "wr_schedules rows d \<equiv> d\<lparr>db_schedules := rows\<rparr>"

interpretation users: table db_users wr_users usr_ID usr_Email by unfold_locales simp_all
interpretation sessions: table db_sessions wr_sessions ses_Token ses_Token by unfold_locales simp_all
interpretation hosts: table db_hosts wr_hosts hr_id hr_id by unfold_locales simp_all
interpretation middlewares: table db_middlewares wr_middlewares mw_ID mw_Name by unfold_locales simp_all
interpretation access_lists: table db_access_lists wr_access_lists al_ID al_Name by unfold_locales simp_all
interpretation certs: table db_certs wr_certs c_ID c_ID by unfold_locales simp_all
interpretation dns: table db_dns wr_dns dp_ID dp_Name by unfold_locales simp_all
interpretation schedules: table db_schedules wr_schedules sc_ID sc_ID by unfold_locales simp_all

definition id_or :: "string \<Rightarrow> string \<Rightarrow> string" where
  "id_or fresh i = (if i = [] then fresh else i)"

definition CountUsers :: "nat dbop" where
  "CountUsers = stmt (\<lambda>d. (Inr (length (db_users d)), d))"

text \<open>The stored row carries the times of the call; the caller's struct gets them too.\<close>

definition new_user :: "int \<Rightarrow> string \<Rightarrow> user \<Rightarrow> user" where
  "new_user now fresh u = u\<lparr>usr_ID := id_or fresh (usr_ID u), usr_CreatedAt := of_unix now, usr_UpdatedAt := of_unix now\<rparr>"

definition CreateUser :: "int \<Rightarrow> string \<Rightarrow> user \<Rightarrow> unit dbop" where
  "CreateUser now fresh u = t_insert db_users wr_users usr_ID usr_Email (new_user now fresh u)"

text \<open>
  \<open>INSERT ... SELECT ... WHERE NOT EXISTS\<close> is one statement. The model runs statements one after another,
  as SQLite and a serialisable database do, so its check and its insert are not separated.
\<close>

definition CreateFirstUser :: "int \<Rightarrow> string \<Rightarrow> user \<Rightarrow> bool dbop" where
  "CreateFirstUser now fresh u = stmt (\<lambda>d.
     if db_users d = [] then (Inr True, wr_users [new_user now fresh u] d) else (Inr False, d))"

definition GetUserByEmail :: "string \<Rightarrow> user dbop" where
  "GetUserByEmail email = t_get db_users (\<lambda>u. usr_Email u = email)"

definition GetUser :: "string \<Rightarrow> user dbop" where
  "GetUser i = t_get db_users (\<lambda>u. usr_ID u = i)"

definition ListUsers :: "user list dbop" where
  "ListUsers = t_list db_users (sort_key usr_CreatedAt)"

definition UpdateUser :: "int \<Rightarrow> user \<Rightarrow> unit dbop" where
  "UpdateUser now u = t_update db_users wr_users usr_ID usr_Email (usr_ID u)
     (\<lambda>x. u\<lparr>usr_ID := usr_ID x, usr_CreatedAt := usr_CreatedAt x, usr_UpdatedAt := of_unix now\<rparr>)"

definition DeleteUser :: "string \<Rightarrow> unit dbop" where
  "DeleteUser i = and_then (t_delete db_sessions wr_sessions (\<lambda>s. ses_UserID s = i))
     (\<lambda>_. t_delete db_users wr_users (\<lambda>u. usr_ID u = i))"

text \<open>Only the hash of a session token is stored; \<open>sha\<close> is SHA-256 in hexadecimal.\<close>

definition hashSessionToken :: "(string \<Rightarrow> string) \<Rightarrow> string \<Rightarrow> string" where
  "hashSessionToken sha token = sha token"

definition CreateSession :: "(string \<Rightarrow> string) \<Rightarrow> session \<Rightarrow> unit dbop" where
  "CreateSession sha s = t_insert db_sessions wr_sessions ses_Token ses_Token
     (s\<lparr>ses_Token := hashSessionToken sha (ses_Token s),
        ses_CreatedAt := of_unix (unix_of (ses_CreatedAt s)),
        ses_ExpiresAt := of_unix (unix_of (ses_ExpiresAt s))\<rparr>)"

definition DeleteSession :: "(string \<Rightarrow> string) \<Rightarrow> string \<Rightarrow> unit dbop" where
  "DeleteSession sha token =
     t_delete db_sessions wr_sessions (\<lambda>s. ses_Token s = hashSessionToken sha token)"

definition GetSession :: "(string \<Rightarrow> string) \<Rightarrow> gotime \<Rightarrow> string \<Rightarrow> session dbop" where
  "GetSession sha now token =
     and_then (t_get db_sessions (\<lambda>s. ses_Token s = hashSessionToken sha token))
       (\<lambda>s d. if now > ses_ExpiresAt s then (Inl NotFound, snd (DeleteSession sha token d))
              else (Inr (s\<lparr>ses_Token := token\<rparr>), d))"

definition PurgeExpiredSessions :: "int \<Rightarrow> unit dbop" where
  "PurgeExpiredSessions now = t_delete db_sessions wr_sessions (\<lambda>s. unix_of (ses_ExpiresAt s) < now)"

section \<open>Hosts\<close>

text \<open>
  \<open>hostData\<close> keeps everything except the queried columns; \<open>scanHost\<close> reads the data first and then applies
  the columns.
\<close>

definition zero_time :: gotime where
  "zero_time = - 62135596800 * second"

definition hostData :: "host \<Rightarrow> host" where
  "hostData h = h\<lparr>h_ID := [], h_Kind := [], h_Enabled := False, h_Domains := [],
     h_CreatedAt := zero_time, h_UpdatedAt := zero_time\<rparr>"

definition scanHost :: "host_row \<Rightarrow> host" where
  "scanHost r = (hr_data r)\<lparr>h_ID := hr_id r, h_Kind := hr_kind r, h_Enabled := hr_enabled r,
     h_Domains := hr_domains r, h_CreatedAt := of_unix (hr_created r), h_UpdatedAt := of_unix (hr_updated r)\<rparr>"

definition host_row_of :: "int \<Rightarrow> string \<Rightarrow> host \<Rightarrow> host_row" where
  "host_row_of now fresh h = \<lparr>hr_id = id_or fresh (h_ID h), hr_kind = h_Kind h, hr_enabled = h_Enabled h,
     hr_domains = h_Domains h, hr_data = hostData h, hr_created = now, hr_updated = now\<rparr>"

definition CreateHost :: "int \<Rightarrow> string \<Rightarrow> host \<Rightarrow> unit dbop" where
  "CreateHost now fresh h = t_insert db_hosts wr_hosts hr_id hr_id (host_row_of now fresh h)"

definition UpdateHost :: "int \<Rightarrow> host \<Rightarrow> unit dbop" where
  "UpdateHost now h = t_update db_hosts wr_hosts hr_id hr_id (h_ID h)
     (\<lambda>r. r\<lparr>hr_kind := h_Kind h, hr_enabled := h_Enabled h, hr_domains := h_Domains h,
         hr_data := hostData h, hr_updated := now\<rparr>)"

definition DeleteHost :: "string \<Rightarrow> unit dbop" where
  "DeleteHost i = t_delete db_hosts wr_hosts (\<lambda>r. hr_id r = i)"

definition GetHost :: "string \<Rightarrow> host dbop" where
  "GetHost i = and_then (t_get db_hosts (\<lambda>r. hr_id r = i)) (\<lambda>r. done_with (scanHost r))"

definition ListHosts :: "host_kind \<Rightarrow> host list dbop" where
  "ListHosts kind =
     and_then (t_list db_hosts (\<lambda>rs. sort_key hr_created (filter (\<lambda>r. kind = [] \<or> hr_kind r = kind) rs)))
       (\<lambda>rs. done_with (map scanHost rs))"

section \<open>Middlewares, access lists, certificates, DNS providers, ACME accounts\<close>

definition CreateMiddleware :: "int \<Rightarrow> string \<Rightarrow> middleware \<Rightarrow> unit dbop" where
  "CreateMiddleware now fresh m = t_insert db_middlewares wr_middlewares mw_ID mw_Name
     (m\<lparr>mw_ID := id_or fresh (mw_ID m), mw_CreatedAt := of_unix now, mw_UpdatedAt := of_unix now\<rparr>)"

definition UpdateMiddleware :: "int \<Rightarrow> middleware \<Rightarrow> unit dbop" where
  "UpdateMiddleware now m = t_update db_middlewares wr_middlewares mw_ID mw_Name (mw_ID m)
     (\<lambda>x. x\<lparr>mw_Name := mw_Name m, mw_Type := mw_Type m, mw_Params := mw_Params m, mw_UpdatedAt := of_unix now\<rparr>)"

definition DeleteMiddleware :: "string \<Rightarrow> unit dbop" where
  "DeleteMiddleware i = t_delete db_middlewares wr_middlewares (\<lambda>m. mw_ID m = i)"

definition GetMiddleware :: "string \<Rightarrow> middleware dbop" where
  "GetMiddleware i = t_get db_middlewares (\<lambda>m. mw_ID m = i)"

definition ListMiddlewares :: "middleware list dbop" where
  "ListMiddlewares = t_list db_middlewares (sort_key mw_Name)"

definition CreateAccessList :: "int \<Rightarrow> string \<Rightarrow> access_list \<Rightarrow> unit dbop" where
  "CreateAccessList now fresh a = t_insert db_access_lists wr_access_lists al_ID al_Name
     (a\<lparr>al_ID := id_or fresh (al_ID a), al_CreatedAt := of_unix now, al_UpdatedAt := of_unix now\<rparr>)"

definition UpdateAccessList :: "int \<Rightarrow> access_list \<Rightarrow> unit dbop" where
  "UpdateAccessList now a = t_update db_access_lists wr_access_lists al_ID al_Name (al_ID a)
     (\<lambda>x. x\<lparr>al_Name := al_Name a, al_Users := al_Users a, al_AllowIPs := al_AllowIPs a,
         al_SatisfyAny := al_SatisfyAny a, al_UpdatedAt := of_unix now\<rparr>)"

definition DeleteAccessList :: "string \<Rightarrow> unit dbop" where
  "DeleteAccessList i = t_delete db_access_lists wr_access_lists (\<lambda>a. al_ID a = i)"

definition GetAccessList :: "string \<Rightarrow> access_list dbop" where
  "GetAccessList i = t_get db_access_lists (\<lambda>a. al_ID a = i)"

definition ListAccessLists :: "access_list list dbop" where
  "ListAccessLists = t_list db_access_lists (sort_key al_Name)"

text \<open>Nullable times: a nil or zero time is NULL, any other is stored in seconds.\<close>

definition nullableUnix :: "gotime option \<Rightarrow> int option" where
  "nullableUnix t = (case t of None \<Rightarrow> None | Some x \<Rightarrow> if x = zero_time then None else Some (unix_of x))"

definition fromUnix :: "int option \<Rightarrow> gotime option" where
  "fromUnix n = map_option of_unix n"

definition stored_cert :: "certificate \<Rightarrow> certificate" where
  "stored_cert c = c\<lparr>c_IssuedAt := fromUnix (nullableUnix (c_IssuedAt c)),
     c_ExpiresAt := fromUnix (nullableUnix (c_ExpiresAt c)),
     c_LastAttemptAt := fromUnix (nullableUnix (c_LastAttemptAt c))\<rparr>"

definition CreateCertificate :: "int \<Rightarrow> string \<Rightarrow> certificate \<Rightarrow> unit dbop" where
  "CreateCertificate now fresh c = t_insert db_certs wr_certs c_ID c_ID
     ((stored_cert c)\<lparr>c_ID := id_or fresh (c_ID c), c_CreatedAt := of_unix now, c_UpdatedAt := of_unix now\<rparr>)"

definition UpdateCertificate :: "int \<Rightarrow> certificate \<Rightarrow> unit dbop" where
  "UpdateCertificate now c = t_update db_certs wr_certs c_ID c_ID (c_ID c)
     (\<lambda>x. (stored_cert c)\<lparr>c_ID := c_ID x, c_CreatedAt := c_CreatedAt x, c_UpdatedAt := of_unix now\<rparr>)"

definition DeleteCertificate :: "string \<Rightarrow> unit dbop" where
  "DeleteCertificate i = t_delete db_certs wr_certs (\<lambda>c. c_ID c = i)"

definition GetCertificate :: "string \<Rightarrow> certificate dbop" where
  "GetCertificate i = t_get db_certs (\<lambda>c. c_ID c = i)"

definition ListCertificates :: "certificate list dbop" where
  "ListCertificates = t_list db_certs (sort_key c_CreatedAt)"

definition CreateDNSProvider :: "int \<Rightarrow> string \<Rightarrow> dns_provider \<Rightarrow> unit dbop" where
  "CreateDNSProvider now fresh p = t_insert db_dns wr_dns dp_ID dp_Name
     (p\<lparr>dp_ID := id_or fresh (dp_ID p), dp_CreatedAt := of_unix now, dp_UpdatedAt := of_unix now\<rparr>)"

definition DeleteDNSProvider :: "string \<Rightarrow> unit dbop" where
  "DeleteDNSProvider i = t_delete db_dns wr_dns (\<lambda>p. dp_ID p = i)"

definition GetDNSProvider :: "string \<Rightarrow> dns_provider dbop" where
  "GetDNSProvider i = t_get db_dns (\<lambda>p. dp_ID p = i)"

definition ListDNSProviders :: "dns_provider list dbop" where
  "ListDNSProviders = t_list db_dns (sort_key dp_Name)"

text \<open>An account is unique in its id and in its pair of email and directory URL.\<close>

definition CreateACMEAccount :: "int \<Rightarrow> string \<Rightarrow> acme_account \<Rightarrow> unit dbop" where
  "CreateACMEAccount now fresh a = stmt (\<lambda>d.
     let a' = a\<lparr>acc_ID := id_or fresh (acc_ID a), acc_CreatedAt := of_unix now\<rparr> in
     if \<exists>x \<in> set (db_accounts d). acc_ID x = acc_ID a' \<or> acc_Email x = acc_Email a' \<and> acc_CADirURL x = acc_CADirURL a'
     then (Inl Conflict, d) else (Inr (), d\<lparr>db_accounts := db_accounts d @ [a']\<rparr>))"

definition GetACMEAccountByEmail :: "string \<Rightarrow> string \<Rightarrow> acme_account dbop" where
  "GetACMEAccountByEmail email ca = t_get db_accounts (\<lambda>a. acc_Email a = email \<and> acc_CADirURL a = ca)"

section \<open>Settings, audit log, snapshots\<close>

definition GetSetting :: "string \<Rightarrow> string dbop" where
  "GetSetting k = stmt (\<lambda>d. (case mget (db_settings d) k of None \<Rightarrow> Inl NotFound | Some v \<Rightarrow> Inr v, d))"

definition ListAllSettings :: "(string, string) gomap dbop" where
  "ListAllSettings = stmt (\<lambda>d. (Inr (db_settings d), d))"

text \<open>Update, and insert when no row changed.\<close>

definition SetSetting :: "string \<Rightarrow> string \<Rightarrow> unit dbop" where
  "SetSetting k v =
     and_then (stmt (\<lambda>d. if mget (db_settings d) k = None then (Inr False, d)
                          else (Inr True, d\<lparr>db_settings := mput k v (db_settings d)\<rparr>)))
       (\<lambda>updated. if updated then done_with () else
          stmt (\<lambda>d. if mget (db_settings d) k = None then (Inr (), d\<lparr>db_settings := mput k v (db_settings d)\<rparr>)
                     else (Inl Conflict, d)))"

definition AddAudit :: "gotime \<Rightarrow> string \<Rightarrow> audit_entry \<Rightarrow> unit dbop" where
  "AddAudit now fresh e = stmt (\<lambda>d.
     let at = (if ae_At e = zero_time then now else ae_At e);
         e' = e\<lparr>ae_ID := id_or fresh (ae_ID e), ae_At := of_unix (unix_of at)\<rparr> in
     if ae_ID e' \<in> ae_ID ` set (db_audit d) then (Inl Conflict, d)
     else (Inr (), d\<lparr>db_audit := db_audit d @ [e']\<rparr>))"

definition ListAudit :: "int \<Rightarrow> audit_entry list dbop" where
  "ListAudit limit =
     (let n = (if limit \<le> 0 \<or> limit > 1000 then 200 else limit) in
      t_list db_audit (\<lambda>es. take (nat n) (sort_key (\<lambda>e. - ae_At e) es)))"

definition AddSnapshot :: "int \<Rightarrow> config_snapshot \<Rightarrow> unit dbop" where
  "AddSnapshot now s = stmt (\<lambda>d.
     if sn_Version s \<in> sn_Version ` set (db_snapshots d) then (Inl Conflict, d)
     else (Inr (), d\<lparr>db_snapshots := db_snapshots d @ [s\<lparr>sn_CreatedAt := of_unix now\<rparr>]\<rparr>))"

definition LatestSnapshotVersion :: "int dbop" where
  "LatestSnapshotVersion = stmt (\<lambda>d.
     (Inr (case map sn_Version (db_snapshots d) of [] \<Rightarrow> 0 | v # vs \<Rightarrow> fold max vs v), d))"

definition GetSnapshot :: "int \<Rightarrow> config_snapshot dbop" where
  "GetSnapshot v = t_get db_snapshots (\<lambda>s. sn_Version s = v)"

definition ListSnapshots :: "int \<Rightarrow> config_snapshot list dbop" where
  "ListSnapshots limit =
     (let n = (if limit \<le> 0 \<or> limit > 200 then 50 else limit) in
      t_list db_snapshots (\<lambda>ss. map (\<lambda>s. s\<lparr>sn_JSON := []\<rparr>) (take (nat n) (sort_key (\<lambda>s. - sn_Version s) ss))))"

definition PruneSnapshots :: "int \<Rightarrow> unit dbop" where
  "PruneSnapshots keep = stmt (\<lambda>d.
     let kept = map sn_Version (take (nat keep) (sort_key (\<lambda>s. - sn_Version s) (db_snapshots d))) in
     (Inr (), d\<lparr>db_snapshots := filter (\<lambda>s. sn_Version s \<in> set kept) (db_snapshots d)\<rparr>))"

section \<open>Schedules and leases\<close>

definition CreateSchedule :: "int \<Rightarrow> string \<Rightarrow> schedule \<Rightarrow> unit dbop" where
  "CreateSchedule now fresh s = t_insert db_schedules wr_schedules sc_ID sc_ID
     (s\<lparr>sc_ID := id_or fresh (sc_ID s), sc_CreatedAt := of_unix now\<rparr>)"

definition DeleteSchedule :: "string \<Rightarrow> unit dbop" where
  "DeleteSchedule i = t_delete db_schedules wr_schedules (\<lambda>s. sc_ID s = i)"

definition ListSchedules :: "string \<Rightarrow> schedule list dbop" where
  "ListSchedules hostID =
     t_list db_schedules (\<lambda>ss. sort_key sc_CreatedAt (filter (\<lambda>s. hostID = [] \<or> sc_HostID s = hostID) ss))"

text \<open>
  \<open>AcquireLease\<close>: the conditional update, then an insert that loses against an existing row. \<open>ttl\<close> is a
  duration; its seconds are truncated towards zero.
\<close>

definition lease_exp :: "int \<Rightarrow> duration \<Rightarrow> int" where
  "lease_exp now ttl = now + sgn ttl * (\<bar>ttl\<bar> div second)"

definition lease_update :: "int \<Rightarrow> string \<Rightarrow> string \<Rightarrow> int \<Rightarrow> bool dbop" where
  "lease_update now name holder exp = stmt (\<lambda>d.
     case mget (db_leases d) name of
       Some (owner, ex) \<Rightarrow>
         if owner = holder \<or> ex < now then (Inr True, d\<lparr>db_leases := mput name (holder, exp) (db_leases d)\<rparr>)
         else (Inr False, d)
     | None \<Rightarrow> (Inr False, d))"

definition lease_insert :: "string \<Rightarrow> string \<Rightarrow> int \<Rightarrow> unit dbop" where
  "lease_insert name holder exp = stmt (\<lambda>d.
     if mget (db_leases d) name = None
     then (Inr (), d\<lparr>db_leases := mput name (holder, exp) (db_leases d)\<rparr>) else (Inl Conflict, d))"

definition AcquireLease :: "int \<Rightarrow> string \<Rightarrow> string \<Rightarrow> duration \<Rightarrow> bool dbop" where
  "AcquireLease now name holder ttl d =
     (case lease_update now name holder (lease_exp now ttl) d of
        (Inl e, d1) \<Rightarrow> (Inl e, d1)
      | (Inr True, d1) \<Rightarrow> (Inr True, d1)
      | (Inr False, d1) \<Rightarrow>
          (case lease_insert name holder (lease_exp now ttl) d1 of
             (Inl _, d2) \<Rightarrow> (Inr False, d2)
           | (Inr _, d2) \<Rightarrow> (Inr True, d2)))"

section \<open>Bans\<close>

definition ban_expiry :: "ban \<Rightarrow> int" where
  "ban_expiry b = (case b_ExpiresAt b of None \<Rightarrow> 0 | Some t \<Rightarrow> if t = zero_time then 0 else unix_of t)"

definition AddBan :: "int \<Rightarrow> ban \<Rightarrow> unit dbop" where
  "AddBan now b =
     and_then (stmt (\<lambda>d.
         (Inr (b_IP b \<in> br_ip ` set (db_bans d)),
          d\<lparr>db_bans := map (\<lambda>r. if br_ip r = b_IP b
             then r\<lparr>br_reason := b_Reason b, br_manual := b_Manual b, br_hits := b_Hits b, br_expires := ban_expiry b\<rparr>
             else r) (db_bans d)\<rparr>)))
       (\<lambda>updated. if updated then done_with () else
          stmt (\<lambda>d. if b_IP b \<in> br_ip ` set (db_bans d) then (Inl Conflict, d)
                     else (Inr (), d\<lparr>db_bans := db_bans d @
                       [\<lparr>br_ip = b_IP b, br_reason = b_Reason b, br_manual = b_Manual b, br_hits = b_Hits b,
                         br_created = now, br_expires = ban_expiry b\<rparr>]\<rparr>)))"

definition DeleteBan :: "string \<Rightarrow> unit dbop" where
  "DeleteBan i = stmt (\<lambda>d. (Inr (), d\<lparr>db_bans := filter (\<lambda>r. br_ip r \<noteq> i) (db_bans d)\<rparr>))"

definition ban_active :: "int \<Rightarrow> ban_row \<Rightarrow> bool" where
  "ban_active now r \<longleftrightarrow> br_expires r = 0 \<or> br_expires r > now"

definition scan_ban :: "ban_row \<Rightarrow> ban" where
  "scan_ban r = \<lparr>b_IP = br_ip r, b_Reason = br_reason r, b_Manual = br_manual r, b_Hits = br_hits r,
     b_CreatedAt = of_unix (br_created r),
     b_ExpiresAt = (if br_expires r \<noteq> 0 then Some (of_unix (br_expires r)) else None)\<rparr>"

definition ListActiveBans :: "int \<Rightarrow> ban list dbop" where
  "ListActiveBans now = stmt (\<lambda>d.
     (Inr (map scan_ban (sort_key (\<lambda>r. - br_created r) (filter (ban_active now) (db_bans d)))), d))"

definition IsActivelyBanned :: "int \<Rightarrow> string \<Rightarrow> bool dbop" where
  "IsActivelyBanned now i = stmt (\<lambda>d. (Inr (\<exists>r \<in> set (db_bans d). br_ip r = i \<and> ban_active now r), d))"

definition PruneExpiredBans :: "int \<Rightarrow> nat dbop" where
  "PruneExpiredBans now = stmt (\<lambda>d.
     (Inr (length (filter (\<lambda>r. \<not> ban_active now r) (db_bans d))),
      d\<lparr>db_bans := filter (ban_active now) (db_bans d)\<rparr>))"

section \<open>Hosts survive the data column\<close>

lemma scan_host_row:
  "scanHost (host_row_of now fresh h) =
    h\<lparr>h_ID := id_or fresh (h_ID h), h_CreatedAt := of_unix now, h_UpdatedAt := of_unix now\<rparr>"
  by (simp add: scanHost_def host_row_of_def hostData_def)

lemma stmt_result: "fst (stmt f d) = Inr x \<Longrightarrow> \<exists>fs. stmt f d = f (d\<lparr>db_faults := fs\<rparr>)"
proof (cases "db_faults d")
  case Nil
  then have "stmt f d = f (d\<lparr>db_faults := []\<rparr>)"
    by (cases d) (simp add: stmt_def)
  then show ?thesis by blast
next
  case (Cons b fs)
  moreover assume "fst (stmt f d) = Inr x"
  ultimately show ?thesis by (cases b) (auto simp: stmt_def)
qed

text \<open>
  A stored host is the host: after a successful create, reading the host by its id gives back
  every field as it was saved, with the id (generated when there was none) and the time of the call.
\<close>

theorem host_roundtrip:
  assumes "hosts.ok d" "fst (CreateHost now fresh h d) = Inr ()" "db_faults (snd (CreateHost now fresh h d)) = []"
  shows "fst (GetHost (id_or fresh (h_ID h)) (snd (CreateHost now fresh h d))) =
    Inr (h\<lparr>h_ID := id_or fresh (h_ID h), h_CreatedAt := of_unix now, h_UpdatedAt := of_unix now\<rparr>)"
proof -
  let ?r = "host_row_of now fresh h" and ?d = "snd (CreateHost now fresh h d)"
  have id: "hr_id ?r = id_or fresh (h_ID h)" by (simp add: host_row_of_def)
  from hosts.insert_lookup [OF assms(1), of ?r] assms(2)
  have "find (\<lambda>r. hr_id r = id_or fresh (h_ID h)) (db_hosts ?d) = Some ?r"
    by (simp add: CreateHost_def hosts.lookup_def id)
  with assms(3) show ?thesis
    by (simp add: GetHost_def and_then_def t_get_def done_with_def scan_host_row)
qed

definition tiny_host :: host where
  "tiny_host = zero_host\<lparr>h_Kind := HostKindDead, h_Domains := [''a'']\<rparr>"

lemma host_roundtrip_witness:
  "fst (GetHost ''x'' (snd (CreateHost 7 ''x'' tiny_host empty_db))) =
    Inr (tiny_host\<lparr>h_ID := ''x'', h_CreatedAt := of_unix 7, h_UpdatedAt := of_unix 7\<rparr>)"
proof -
  have "hosts.ok empty_db" "fst (CreateHost 7 ''x'' tiny_host empty_db) = Inr ()"
    "db_faults (snd (CreateHost 7 ''x'' tiny_host empty_db)) = []" "id_or ''x'' (h_ID tiny_host) = ''x''"
    by (simp_all add: hosts.ok_def empty_db_def CreateHost_def t_insert_def stmt_def tiny_host_def zero_host_def id_or_def)
  with host_roundtrip [of empty_db 7 "''x''" tiny_host] show ?thesis by simp
qed

section \<open>The first user\<close>

text \<open>A run of setup calls, from any number of clients and instances, in the order the database takes them.\<close>

fun setup_calls :: "(int \<times> string \<times> user) list \<Rightarrow> db \<Rightarrow> (db_err + bool) list" where
  "setup_calls [] d = []"
| "setup_calls ((now, fresh, u) # cs) d =
     (let (r, d') = CreateFirstUser now fresh u d in r # setup_calls cs d')"

lemma first_user_nonempty: "db_users d \<noteq> [] \<Longrightarrow> fst (CreateFirstUser now fresh u d) \<noteq> Inr True
    \<and> db_users (snd (CreateFirstUser now fresh u d)) = db_users d"
  by (auto simp: CreateFirstUser_def stmt_def split: list.splits bool.splits)

lemma setup_calls_nonempty: "db_users d \<noteq> [] \<Longrightarrow> Inr True \<notin> set (setup_calls cs d)"
proof (induction cs arbitrary: d)
  case (Cons c cs)
  obtain now fresh u where c: "c = (now, fresh, u)" by (cases c)
  let ?d = "snd (CreateFirstUser now fresh u d)"
  have "Inr True \<notin> set (setup_calls cs ?d)"
    using Cons first_user_nonempty [of d now fresh u] by simp
  with first_user_nonempty [OF Cons.prems, of now fresh u] show ?case by (auto simp: c split_beta dest: sym)
qed simp

lemma first_user_True: "fst (CreateFirstUser now fresh u d) = Inr True \<Longrightarrow>
    db_users (snd (CreateFirstUser now fresh u d)) \<noteq> []"
  by (auto simp: CreateFirstUser_def stmt_def split: list.splits bool.splits if_splits)

text \<open>
  First-run setup happens once: however many setup calls race, in whatever order the database
  takes them and whichever of them fail, at most one of them creates the first user.
\<close>

theorem first_user_once:
  "length (filter (\<lambda>r. r = Inr True) (setup_calls cs d)) \<le> 1"
proof (induction cs arbitrary: d)
  case (Cons c cs)
  obtain now fresh u where c: "c = (now, fresh, u)" by (cases c)
  let ?x = "CreateFirstUser now fresh u d"
  have sp: "setup_calls (c # cs) d = fst ?x # setup_calls cs (snd ?x)" by (simp add: c split_beta)
  show ?case
  proof (cases "fst ?x = Inr True")
    case True
    then have "filter (\<lambda>r. r = Inr True) (setup_calls cs (snd ?x)) = []"
      using setup_calls_nonempty [OF first_user_True] by (auto simp: filter_empty_conv)
    with True show ?thesis unfolding sp by simp
  next
    case False
    with Cons.IH [of "snd ?x"] show ?thesis unfolding sp by simp
  qed
qed simp

section \<open>Leases\<close>

definition lease_of :: "string \<Rightarrow> db \<Rightarrow> (string \<times> int) option" where
  "lease_of name d = mget (db_leases d) name"

lemma lease_of_faults [simp]: "lease_of name (d\<lparr>db_faults := fs\<rparr>) = lease_of name d"
  by (simp add: lease_of_def)

lemma lease_update_held:
  assumes "lease_of name d = Some (a, e)"
  shows "lease_update now name b exp d = (r, d1) \<Longrightarrow>
    r = Inr True \<and> (b = a \<or> e < now) \<and> lease_of name d1 = Some (b, exp)
    \<or> r \<noteq> Inr True \<and> lease_of name d1 = Some (a, e)"
  using assms
  by (auto simp: lease_update_def stmt_def lease_of_def split: list.splits bool.splits if_splits)

lemma lease_insert_held:
  assumes "lease_of name d = Some (a, e)"
  shows "lease_insert name b exp d = (r, d1) \<Longrightarrow> r \<noteq> Inr () \<and> lease_of name d1 = Some (a, e)"
  using assms by (auto simp: lease_insert_def stmt_def lease_of_def split: list.splits bool.splits)

text \<open>On a held lease an attempt either takes it, which only the owner or a late one can, or changes nothing.\<close>

lemma acquire_held:
  assumes "lease_of name d = Some (a, e)" "AcquireLease now name b ttl d = (r, d1)"
  shows "r = Inr True \<and> (b = a \<or> e < now) \<and> lease_of name d1 = Some (b, lease_exp now ttl)
    \<or> r \<noteq> Inr True \<and> lease_of name d1 = Some (a, e)"
proof -
  obtain r1 d2 where u: "lease_update now name b (lease_exp now ttl) d = (r1, d2)" by fastforce
  obtain r2 d3 where i: "lease_insert name b (lease_exp now ttl) d2 = (r2, d3)" by fastforce
  from lease_update_held [OF assms(1) u] show ?thesis
  proof
    assume "r1 = Inr True \<and> (b = a \<or> e < now) \<and> lease_of name d2 = Some (b, lease_exp now ttl)"
    with assms(2) show ?thesis by (simp add: AcquireLease_def u)
  next
    assume r1: "r1 \<noteq> Inr True \<and> lease_of name d2 = Some (a, e)"
    with lease_insert_held [OF _ i] have "r2 \<noteq> Inr ()" "lease_of name d3 = Some (a, e)" by blast+
    with r1 assms(2) show ?thesis
      by (cases r1; cases r2) (auto simp: AcquireLease_def u i split: bool.splits)
  qed
qed

lemma lease_granted:
  assumes "AcquireLease now name b ttl d = (Inr True, d1)"
  shows "lease_of name d1 = Some (b, lease_exp now ttl)"
proof -
  obtain r1 d2 where u: "lease_update now name b (lease_exp now ttl) d = (r1, d2)" by fastforce
  obtain r2 d3 where i: "lease_insert name b (lease_exp now ttl) d2 = (r2, d3)" by fastforce
  have "r1 = Inr True \<Longrightarrow> lease_of name d2 = Some (b, lease_exp now ttl)"
    using u by (auto simp: lease_update_def stmt_def lease_of_def split: list.splits bool.splits if_splits option.splits)
  moreover have "r2 = Inr () \<Longrightarrow> lease_of name d3 = Some (b, lease_exp now ttl)"
    using i by (auto simp: lease_insert_def stmt_def lease_of_def split: list.splits bool.splits if_splits)
  ultimately show ?thesis
    using assms by (cases r1; cases r2) (auto simp: AcquireLease_def u i split: bool.splits)
qed

text \<open>A run of attempts on one lease: who asks when, and what each attempt returns.\<close>

fun lease_run :: "string \<Rightarrow> duration \<Rightarrow> (int \<times> string) list \<Rightarrow> db \<Rightarrow> (int \<times> string \<times> bool) list" where
  "lease_run name ttl [] d = []"
| "lease_run name ttl ((now, who) # rest) d =
     (let (r, d') = AcquireLease now name who ttl d in
      (now, who, r = Inr True) # lease_run name ttl rest d')"

lemma lease_run_times: "map fst (lease_run name ttl att d) = map fst att"
  by (induction att arbitrary: d) (auto simp: split_beta)

lemma lease_held:
  assumes "lease_of name d = Some (a, e)" "T \<le> e"
    and "\<forall>x \<in> set att. T \<le> lease_exp (fst x) ttl" "sorted (map fst att)"
    and "(t', b, True) \<in> set (lease_run name ttl att d)" "b \<noteq> a"
  shows "T < t'"
  using assms
proof (induction att arbitrary: d e)
  case (Cons x att)
  obtain t w where x: "x = (t, w)" by (cases x)
  obtain r d1 where r: "AcquireLease t name w ttl d = (r, d1)" by fastforce
  have run: "lease_run name ttl (x # att) d = (t, w, r = Inr True) # lease_run name ttl att d1"
    by (simp add: x r)
  have "t' \<in> set (map fst (lease_run name ttl (x # att) d))" using Cons.prems(5) by force
  then have "t' \<in> set (map fst (x # att))" by (simp only: lease_run_times)
  with Cons.prems(4) have later: "t \<le> t'" by (auto simp: x)
  show ?case
  proof (cases "t \<le> T")
    case False
    with later show ?thesis by simp
  next
    case True
    with acquire_held [OF Cons.prems(1) r] Cons.prems(2)
    have hold: "\<exists>e'. lease_of name d1 = Some (a, e') \<and> (e' = e \<or> e' = lease_exp t ttl)"
      and no: "w \<noteq> a \<Longrightarrow> r \<noteq> Inr True" by auto
    then obtain e' where e': "lease_of name d1 = Some (a, e')" "T \<le> e'"
      using Cons.prems(2,3) by (auto simp: x)
    have "(t', b, True) \<in> set (lease_run name ttl att d1)"
      using Cons.prems(5,6) no unfolding run by auto
    then show ?thesis
      using Cons.IH [OF e'] Cons.prems(3,4,6) by simp
  qed
qed simp

text \<open>
  C23: One leader at a time: when an attempt is granted the lease, no other holder is granted it
  within its lifetime, whatever attempts of any instance come in between and whichever statements
  fail, provided all use the same positive lifetime and the clock does not run backwards.
\<close>

theorem lease_exclusive:
  assumes "AcquireLease t name a ttl d = (Inr True, d')" "0 \<le> ttl"
    and "\<forall>x \<in> set att. t \<le> fst x" "sorted (map fst att)"
    and "(t', b, True) \<in> set (lease_run name ttl att d')" "b \<noteq> a"
  shows "lease_exp t ttl < t'"
proof (rule lease_held [OF lease_granted [OF assms(1)] order_refl _ assms(4-6)])
  show "\<forall>x \<in> set att. lease_exp t ttl \<le> lease_exp (fst x) ttl"
    using assms(3) by (simp add: lease_exp_def)
qed

lemma lease_exclusive_witness: "lease_exp 0 (10 * second) < 11"
proof (rule lease_exclusive)
  show "AcquireLease 0 ''acme'' ''a'' (10 * second) empty_db =
      (Inr True, empty_db\<lparr>db_leases := [(''acme'', ''a'', 10)]\<rparr>)" by code_simp
  show "(11, ''b'', True) \<in> set (lease_run ''acme'' (10 * second) [(5, ''b''), (11, ''b'')]
      (empty_db\<lparr>db_leases := [(''acme'', ''a'', 10)]\<rparr>))" by code_simp
qed simp_all

section \<open>Sessions and bans\<close>

text \<open>
  A ban takes effect and only on its address: after a successful AddBan the address counts as
  banned exactly while the ban is permanent or its expiry lies ahead, and every other address is
  banned or not as before.
\<close>

theorem ban_takes_effect:
  assumes "fst (AddBan now b d) = Inr ()" "db_faults (snd (AddBan now b d)) = []" "db_faults d = []"
    and "distinct (map br_ip (db_bans d))"
  shows "fst (IsActivelyBanned t (b_IP b) (snd (AddBan now b d))) = Inr (ban_expiry b = 0 \<or> t < ban_expiry b)
    \<and> (\<forall>i. i \<noteq> b_IP b \<longrightarrow> fst (IsActivelyBanned t i (snd (AddBan now b d))) = fst (IsActivelyBanned t i d))
    \<and> distinct (map br_ip (db_bans (snd (AddBan now b d))))"
proof (cases "b_IP b \<in> br_ip ` set (db_bans d)")
  case True
  let ?f = "\<lambda>r. if br_ip r = b_IP b
     then r\<lparr>br_reason := b_Reason b, br_manual := b_Manual b, br_hits := b_Hits b, br_expires := ban_expiry b\<rparr> else r"
  have d': "snd (AddBan now b d) = d\<lparr>db_bans := map ?f (db_bans d)\<rparr>"
    using True assms(3) by (simp add: AddBan_def and_then_def stmt_def done_with_def)
  have keys: "map br_ip (map ?f (db_bans d)) = map br_ip (db_bans d)" by simp
  have ex: "(\<exists>r \<in> set (map ?f (db_bans d)). br_ip r = i \<and> ban_active t r) \<longleftrightarrow>
      (\<exists>r \<in> set (db_bans d). br_ip r = i \<and> ban_active t (?f r))" for i
    by (simp only: set_map bex_simps) (rule bex_cong, simp_all)
  from True obtain r where r: "r \<in> set (db_bans d)" "br_ip r = b_IP b" by auto
  have "(\<exists>r \<in> set (db_bans d). br_ip r = b_IP b \<and> ban_active t (?f r)) \<longleftrightarrow> ban_expiry b = 0 \<or> t < ban_expiry b"
    using r by (auto simp: ban_active_def)
  moreover have "(\<exists>r \<in> set (db_bans d). br_ip r = i \<and> ban_active t (?f r)) \<longleftrightarrow>
      (\<exists>r \<in> set (db_bans d). br_ip r = i \<and> ban_active t r)" if "i \<noteq> b_IP b" for i
    using that by (auto simp: ban_active_def)
  ultimately show ?thesis
    using keys assms(3,4) by (simp add: d' IsActivelyBanned_def ex del: set_map map_map)
next
  case False
  then have d': "snd (AddBan now b d) = d\<lparr>db_bans := db_bans d @
      [\<lparr>br_ip = b_IP b, br_reason = b_Reason b, br_manual = b_Manual b, br_hits = b_Hits b,
        br_created = now, br_expires = ban_expiry b\<rparr>]\<rparr>"
  proof -
    let ?f = "\<lambda>r. if br_ip r = b_IP b
       then r\<lparr>br_reason := b_Reason b, br_manual := b_Manual b, br_hits := b_Hits b, br_expires := ban_expiry b\<rparr> else r"
    have same: "map ?f (db_bans d) = db_bans d" using False by (intro map_idI) (metis image_eqI)
    show ?thesis
      unfolding AddBan_def and_then_def using assms(3) False by (simp add: stmt_def same del: image_iff)
  qed
  with False assms(3,4) show ?thesis
    by (auto simp: IsActivelyBanned_def ban_active_def image_iff)
qed

definition probe_ban :: ban where
  "probe_ban = \<lparr>b_IP = ''9.9.9.9'', b_Reason = ''probe'', b_Manual = False, b_Hits = 3, b_CreatedAt = 0,
     b_ExpiresAt = Some (of_unix 100)\<rparr>"

lemma ban_takes_effect_witness:
  "fst (IsActivelyBanned 99 ''9.9.9.9'' (snd (AddBan 5 probe_ban empty_db))) = Inr True
    \<and> fst (IsActivelyBanned 100 ''9.9.9.9'' (snd (AddBan 5 probe_ban empty_db))) = Inr False"
proof -
  have "fst (AddBan 5 probe_ban empty_db) = Inr ()" "db_faults (snd (AddBan 5 probe_ban empty_db)) = []"
    "db_faults empty_db = []" "distinct (map br_ip (db_bans empty_db))"
    "b_IP probe_ban = ''9.9.9.9''" "ban_expiry probe_ban = 100"
    by (simp_all add: AddBan_def and_then_def stmt_def empty_db_def probe_ban_def ban_expiry_def
        of_unix_def unix_of_def zero_time_def)
  with ban_takes_effect [of 5 probe_ban empty_db] show ?thesis by simp
qed

text \<open>
  Sessions expire: reading a session by its token returns it, with the token the caller supplied,
  up to its expiry, and afterwards reports that it does not exist and removes the row, so that it
  cannot be used again even with the clock set back.
\<close>

theorem session_expires:
  assumes "fst (CreateSession sha s d) = Inr ()" "sessions.ok d" "db_faults d = []"
  defines "d1 \<equiv> snd (CreateSession sha s d)" and "e \<equiv> of_unix (unix_of (ses_ExpiresAt s))"
  shows "fst (GetSession sha now (ses_Token s) d1) =
      (if now \<le> e then Inr (s\<lparr>ses_CreatedAt := of_unix (unix_of (ses_CreatedAt s)), ses_ExpiresAt := e\<rparr>)
       else Inl NotFound)
    \<and> (e < now \<longrightarrow> fst (GetSession sha t (ses_Token s) (snd (GetSession sha now (ses_Token s) d1))) = Inl NotFound)"
proof -
  let ?r = "s\<lparr>ses_Token := hashSessionToken sha (ses_Token s),
    ses_CreatedAt := of_unix (unix_of (ses_CreatedAt s)), ses_ExpiresAt := e\<rparr>"
  have look: "find (\<lambda>x. ses_Token x = hashSessionToken sha (ses_Token s)) (db_sessions d1) = Some ?r"
    using sessions.insert_lookup [OF assms(2), of ?r] assms(1)
    by (simp add: CreateSession_def sessions.lookup_def d1_def e_def)
  have nf: "db_faults d1 = []"
    using assms(3) by (simp add: d1_def CreateSession_def t_insert_def stmt_def)
  have 1: "GetSession sha now (ses_Token s) d1 =
      (if now \<le> e then (Inr (s\<lparr>ses_CreatedAt := of_unix (unix_of (ses_CreatedAt s)), ses_ExpiresAt := e\<rparr>), d1)
       else (Inl NotFound, snd (DeleteSession sha (ses_Token s) d1)))"
    using look nf by (simp add: GetSession_def and_then_def t_get_def)
  have "find (\<lambda>x. ses_Token x = h) (filter (\<lambda>x. ses_Token x \<noteq> h) rows) = None" for h and rows :: "session list"
    by (induction rows) simp_all
  then have 2: "fst (GetSession sha t (ses_Token s) (snd (DeleteSession sha (ses_Token s) d1))) = Inl NotFound"
    using nf by (simp add: GetSession_def and_then_def t_get_def DeleteSession_def t_delete_def)
  from 1 2 show ?thesis by simp
qed

definition a_session :: session where
  "a_session = \<lparr>ses_Token = ''t'', ses_UserID = ''u'', ses_UserAgent = [], ses_IP = [],
     ses_CreatedAt = of_unix 0, ses_ExpiresAt = of_unix 60\<rparr>"

lemma session_expires_witness:
  "fst (GetSession rev (of_unix 61) ''t'' (snd (CreateSession rev a_session empty_db))) = Inl NotFound"
proof -
  have "fst (CreateSession rev a_session empty_db) = Inr ()" "sessions.ok empty_db" "db_faults empty_db = []"
    "ses_Token a_session = ''t''" "\<not> of_unix 61 \<le> of_unix (unix_of (ses_ExpiresAt a_session))"
    by (simp_all add: CreateSession_def t_insert_def empty_db_def sessions.ok_def a_session_def of_unix_def unix_of_def)
  with session_expires [of rev a_session empty_db "of_unix 61"] show ?thesis by simp
qed

end
