(* ===== verification/Acme.thy ===== *)
theory Acme
  imports Store
begin

text \<open>
  The certificate manager \<open>internal/acme\<close>: the choice of directory and account, the issuance state
  machine of \<open>Obtain\<close> on the stored record, the credentials handed to DNS providers through the process
  environment, and the HTTP-01 responder. The lego library and the secret box are fields of the record
  \<open>lego\<close>; a call that can fail returns its error on the left.
\<close>

section \<open>Manager and libraries\<close>

record acme_manager =
  am_defaultEmail :: string
  am_staging :: bool
  am_caDirURL :: string
  am_dnsResolvers :: "string list"

datatype acme_err = ADb db_err | AMsg string | AWrapped string acme_err

type_synonym env = "(string, string) gomap"

record acme_user =
  au_email :: string
  au_key :: string
  au_registration :: string

record lego =
  lg_production :: string
  lg_staging :: string
  lg_newKey :: "acme_err + string"
  lg_unmarshalKey :: "string \<Rightarrow> acme_err + string"
  lg_marshalKey :: "string \<Rightarrow> acme_err + string"
  lg_unmarshalReg :: "string \<Rightarrow> acme_err + string"
  lg_marshalReg :: "string \<Rightarrow> acme_err + string"
  lg_newClient :: "acme_user \<Rightarrow> string \<Rightarrow> acme_err option"
  lg_register :: "acme_user \<Rightarrow> string \<Rightarrow> acme_err + string"
  lg_dnsByName :: "string \<Rightarrow> env \<Rightarrow> acme_err option"
  lg_setDNS01 :: "string list \<Rightarrow> acme_err option"
  lg_setHTTP01 :: "acme_err option"
  lg_obtain :: "acme_user \<Rightarrow> string \<Rightarrow> string list \<Rightarrow> env \<Rightarrow> acme_err + (string \<times> string)"
  lg_leafExpiry :: "string \<Rightarrow> gotime option"
  lg_creds :: "string \<Rightarrow> acme_err + env"
  lg_encrypt :: "string \<Rightarrow> acme_err + string"
  lg_decrypt :: "string \<Rightarrow> acme_err + string"
  lg_errText :: "acme_err \<Rightarrow> string"

type_synonym 'a aop = "db \<times> env \<Rightarrow> (acme_err + 'a) \<times> (db \<times> env)"

definition a_db :: "'a dbop \<Rightarrow> 'a aop" where
  "a_db f s = (case f (fst s) of (Inl e, d) \<Rightarrow> (Inl (ADb e), (d, snd s)) | (Inr x, d) \<Rightarrow> (Inr x, (d, snd s)))"

definition a_then :: "'a aop \<Rightarrow> ('a \<Rightarrow> 'b aop) \<Rightarrow> 'b aop" where
  "a_then f g s = (case f s of (Inl e, s') \<Rightarrow> (Inl e, s') | (Inr x, s') \<Rightarrow> g x s')"

definition a_lift :: "acme_err + 'a \<Rightarrow> 'a aop" where
  "a_lift r s = (r, s)"

definition a_check :: "acme_err option \<Rightarrow> unit aop" where
  "a_check r s = (case r of None \<Rightarrow> Inr () | Some e \<Rightarrow> Inl e, s)"

definition a_wrap :: "string \<Rightarrow> acme_err + 'a \<Rightarrow> acme_err + 'a" where
  "a_wrap msg r = (case r of Inl e \<Rightarrow> Inl (AWrapped msg e) | Inr x \<Rightarrow> Inr x)"

definition caURL :: "lego \<Rightarrow> acme_manager \<Rightarrow> string" where
  "caURL L m =
     (if am_caDirURL m \<noteq> [] then am_caDirURL m
      else if am_staging m then lg_staging L else lg_production L)"

section \<open>Credentials in the environment\<close>

text \<open>\<open>setEnv\<close> returns the previous values of the keys it sets; the restore function puts them back.\<close>

fun setEnv :: "(string \<times> string) list \<Rightarrow> env \<Rightarrow> env \<times> (string \<times> string option) list" where
  "setEnv [] e = (e, [])"
| "setEnv ((k, v) # vs) e = (let (e', prev) = setEnv vs (mput k v e) in (e', (k, mget e k) # prev))"

fun restoreEnv :: "(string \<times> string option) list \<Rightarrow> env \<Rightarrow> env" where
  "restoreEnv [] e = e"
| "restoreEnv ((k, None) # ps) e = restoreEnv ps (mdel k e)"
| "restoreEnv ((k, Some v) # ps) e = restoreEnv ps (mput k v e)"

section \<open>Accounts\<close>

definition contact_email :: "acme_manager \<Rightarrow> string \<Rightarrow> string aop" where
  "contact_email m email s =
     (let (e1, s1) = (if email = []
            then (case a_db (GetSetting ''acme.email'') s of (Inr v, s') \<Rightarrow> (v, s') | (Inl _, s') \<Rightarrow> ([], s'))
            else (email, s));
          e2 = (if e1 = [] then am_defaultEmail m else e1) in
      (if e2 = [] then Inl (AMsg ''no ACME contact email configured'') else Inr e2, s1))"

definition existing_account :: "lego \<Rightarrow> string \<Rightarrow> acme_account \<Rightarrow> acme_err + acme_user" where
  "existing_account L email a =
     (case a_wrap ''decrypt account key'' (lg_decrypt L (acc_PrivateKeyEnc a)) of
        Inl e \<Rightarrow> Inl e
      | Inr pem \<Rightarrow>
          (case lg_unmarshalKey L pem of
             Inl e \<Rightarrow> Inl e
           | Inr key \<Rightarrow>
               (case (if acc_Registration a = [] then Inr [] else lg_unmarshalReg L (acc_Registration a)) of
                  Inl e \<Rightarrow> Inl e
                | Inr reg \<Rightarrow> Inr \<lparr>au_email = email, au_key = key, au_registration = reg\<rparr>)))"

definition register_account :: "lego \<Rightarrow> acme_manager \<Rightarrow> int \<Rightarrow> string \<Rightarrow> string \<Rightarrow> acme_user aop" where
  "register_account L m now fresh email =
     a_then (a_lift (lg_newKey L)) (\<lambda>key.
     let u = \<lparr>au_email = email, au_key = key, au_registration = []\<rparr> in
     a_then (a_check (lg_newClient L u (caURL L m))) (\<lambda>_.
     a_then (a_lift (a_wrap ''register ACME account'' (lg_register L u (caURL L m)))) (\<lambda>reg.
     a_then (a_lift (lg_marshalKey L key)) (\<lambda>pem.
     a_then (a_lift (lg_encrypt L pem)) (\<lambda>enc.
     a_then (a_lift (lg_marshalReg L reg)) (\<lambda>js.
     a_then (a_db (CreateACMEAccount now fresh
               \<lparr>acc_ID = [], acc_Email = email, acc_CADirURL = caURL L m, acc_Registration = js,
                acc_PrivateKeyEnc = enc, acc_CreatedAt = zero_time\<rparr>)) (\<lambda>_.
     a_lift (Inr (u\<lparr>au_registration := reg\<rparr>)))))))))"

text \<open>Any error of the lookup, a missing row or a failed query, leads to a new registration.\<close>

definition getOrCreateAccount :: "lego \<Rightarrow> acme_manager \<Rightarrow> int \<Rightarrow> string \<Rightarrow> string \<Rightarrow> acme_user aop" where
  "getOrCreateAccount L m now fresh email0 =
     a_then (contact_email m email0) (\<lambda>email s.
       (case a_db (GetACMEAccountByEmail email (caURL L m)) s of
          (Inr a, s1) \<Rightarrow> (existing_account L email a, s1)
        | (Inl _, s1) \<Rightarrow> register_account L m now fresh email s1))"

section \<open>Issuance\<close>

definition dnsProvider :: "lego \<Rightarrow> string \<Rightarrow> (string \<times> string option) list aop" where
  "dnsProvider L i =
     a_then (a_db (GetDNSProvider i)) (\<lambda>rec.
     a_then (a_lift (a_wrap ''decrypt dns credentials'' (lg_decrypt L (dp_ConfigEnc rec)))) (\<lambda>cfg.
     a_then (a_lift (lg_creds L cfg)) (\<lambda>creds s.
       (let (e', prev) = setEnv creds (snd s) in
        case lg_dnsByName L (dp_Provider rec) e' of
          Some err \<Rightarrow> (Inl (AWrapped (''dns provider '' @ dp_Provider rec) err), (fst s, restoreEnv prev e'))
        | None \<Rightarrow> (Inr prev, (fst s, e'))))))"

text \<open>The order and the restore of the environment, which runs on every way out once the provider is set.\<close>

definition obtain_cert ::
  "lego \<Rightarrow> acme_manager \<Rightarrow> int \<Rightarrow> string \<Rightarrow> certificate \<Rightarrow> (string \<times> string) aop" where
  "obtain_cert L m now fresh c =
     a_then (getOrCreateAccount L m now fresh []) (\<lambda>u.
     a_then (a_check (lg_newClient L u (caURL L m))) (\<lambda>_ s.
       (if c_ChallengeType c = ''dns-01''
        then
          (if c_DNSProviderID c = [] then (Inl (AMsg ''dns-01 challenge requires a DNS provider''), s)
           else
             (case dnsProvider L (c_DNSProviderID c) s of
                (Inl e, s1) \<Rightarrow> (Inl e, s1)
              | (Inr prev, (d1, e1)) \<Rightarrow>
                  (case lg_setDNS01 L (am_dnsResolvers m) of
                     Some e \<Rightarrow> (Inl e, (d1, restoreEnv prev e1))
                   | None \<Rightarrow> (lg_obtain L u (caURL L m) (c_Domains c) e1, (d1, restoreEnv prev e1)))))
        else
          (case lg_setHTTP01 L of
             Some e \<Rightarrow> (Inl e, s)
           | None \<Rightarrow> (lg_obtain L u (caURL L m) (c_Domains c) (snd s), s)))))"

definition Obtain ::
  "lego \<Rightarrow> acme_manager \<Rightarrow> gotime \<Rightarrow> string \<Rightarrow> certificate \<Rightarrow> db \<times> env \<Rightarrow>
    (acme_err option \<times> certificate) \<times> (db \<times> env)" where
  "Obtain L m now fresh c0 s0 =
     (let c1 = c0\<lparr>c_LastAttemptAt := Some now, c_Status := CertStatusPending\<rparr>;
          (_, s1) = a_db (UpdateCertificate (unix_of now) c1) s0 in
      case obtain_cert L m (unix_of now) fresh c1 s1 of
        (Inl e, s2) \<Rightarrow>
          (let c2 = c1\<lparr>c_Status := CertStatusFailed, c_LastError := lg_errText L e\<rparr> in
           ((Some e, c2), snd (a_db (UpdateCertificate (unix_of now) c2) s2)))
      | (Inr (pem, key), s2) \<Rightarrow>
          (case lg_encrypt L key of
             Inl e \<Rightarrow> ((Some e, c1), s2)
           | Inr enc \<Rightarrow>
               (let c2 = c1\<lparr>c_CertPEM := pem, c_KeyPEMEnc := enc, c_Status := CertStatusValid, c_LastError := [],
                            c_ExpiresAt := (case lg_leafExpiry L pem of Some t \<Rightarrow> Some t | None \<Rightarrow> c_ExpiresAt c1),
                            c_IssuedAt := Some now\<rparr> in
                case a_db (UpdateCertificate (unix_of now) c2) s2 of
                  (Inl e, s3) \<Rightarrow> ((Some e, c2), s3)
                | (Inr _, s3) \<Rightarrow> ((None, c2), s3))))"

section \<open>HTTP-01 responder\<close>

type_synonym responder = "(string, string) gomap"

definition NewHTTP01Responder :: responder where
  "NewHTTP01Responder = []"

definition Present :: "string \<Rightarrow> string \<Rightarrow> string \<Rightarrow> responder \<Rightarrow> responder" where
  "Present domain token keyAuth r = mput token keyAuth r"

definition CleanUp :: "string \<Rightarrow> string \<Rightarrow> string \<Rightarrow> responder \<Rightarrow> responder" where
  "CleanUp domain token keyAuth r = mdel token r"

text \<open>The body served for a path, or None for the not-found answer.\<close>

definition serve_challenge :: "responder \<Rightarrow> string \<Rightarrow> string option" where
  "serve_challenge r path =
     (if \<not> has_prefix path ''/.well-known/acme-challenge/'' then None
      else mget r (trim_prefix path ''/.well-known/acme-challenge/''))"

section \<open>Issuance leaves the environment as it was\<close>

lemma setEnv_notin: "k \<notin> fst ` set vs \<Longrightarrow> mget (fst (setEnv vs e)) k = mget e k"
  by (induction vs e rule: setEnv.induct) (auto simp: split_beta)

lemma setEnv_in: "distinct (map fst vs) \<Longrightarrow> (k, v) \<in> set vs \<Longrightarrow> mget (fst (setEnv vs e)) k = Some v"
proof (induction vs e rule: setEnv.induct)
  case (2 k' v' vs e)
  then show ?case by (auto simp: split_beta setEnv_notin)
qed simp

lemma setEnv_prev: "distinct (map fst vs) \<Longrightarrow>
    snd (setEnv vs e) = map (\<lambda>(k, v). (k, mget e k)) vs"
proof (induction vs e rule: setEnv.induct)
  case (2 k v vs e)
  have "mget (mput k v e) (fst x) = mget e (fst x)" if "x \<in> set vs" for x
    using 2(2) that by force
  then show ?case using 2 by (auto simp: split_beta)
qed simp

lemma restoreEnv_notin: "k \<notin> fst ` set ps \<Longrightarrow> mget (restoreEnv ps e) k = mget e k"
  by (induction ps e rule: restoreEnv.induct) auto

lemma restoreEnv_in: "distinct (map fst ps) \<Longrightarrow> (k, v) \<in> set ps \<Longrightarrow> mget (restoreEnv ps e) k = v"
  by (induction ps e rule: restoreEnv.induct) (auto simp: restoreEnv_notin)

lemma restore_setEnv:
  assumes "distinct (map fst vs)"
  shows "mget (restoreEnv (snd (setEnv vs e)) (fst (setEnv vs e))) k = mget e k"
proof (cases "k \<in> fst ` set vs")
  case True
  then have "(k, mget e k) \<in> set (snd (setEnv vs e))" by (force simp: setEnv_prev [OF assms])
  moreover have "distinct (map fst (snd (setEnv vs e)))"
    using assms by (simp add: setEnv_prev [OF assms] comp_def split_beta)
  ultimately show ?thesis by (simp add: restoreEnv_in)
next
  case False
  then have "k \<notin> fst ` set (snd (setEnv vs e))" by (force simp: setEnv_prev [OF assms])
  then show ?thesis using False by (simp add: restoreEnv_notin setEnv_notin)
qed

text \<open>Account handling never touches the environment.\<close>

definition keeps_env :: "'a aop \<Rightarrow> bool" where
  "keeps_env f \<longleftrightarrow> (\<forall>s. snd (snd (f s)) = snd s)"

named_theorems keeps

lemma keeps_db [keeps]: "keeps_env (a_db f)"
  by (auto simp: keeps_env_def a_db_def split: prod.splits sum.splits)

lemma keeps_lift [keeps]: "keeps_env (a_lift r)"
  by (simp add: keeps_env_def a_lift_def)

lemma keeps_check [keeps]: "keeps_env (a_check r)"
  by (simp add: keeps_env_def a_check_def)

lemma keeps_then [keeps]:
  assumes "keeps_env f" "\<And>x. keeps_env (g x)"
  shows "keeps_env (a_then f g)"
proof -
  have "snd (snd (a_then f g s)) = snd s" for s
  proof -
    obtain r t where f: "f s = (r, t)" by (cases "f s")
    then have "snd t = snd s" using assms(1) by (metis keeps_env_def snd_conv)
    with f assms(2) [unfolded keeps_env_def, rule_format] show ?thesis
      by (cases r) (simp_all add: a_then_def)
  qed
  then show ?thesis by (simp add: keeps_env_def)
qed

lemma keeps_register [keeps]: "keeps_env (register_account L m now fresh email)"
  unfolding register_account_def Let_def by (intro keeps)

lemma keeps_contact [keeps]: "keeps_env (contact_email m email)"
  using keeps_db [of "GetSetting ''acme.email''"]
  by (auto simp: keeps_env_def contact_email_def Let_def split: prod.splits sum.splits) (metis snd_conv)+

lemma keeps_account [keeps]: "keeps_env (getOrCreateAccount L m now fresh email)"
proof -
  have "keeps_env (\<lambda>s. case a_db (GetACMEAccountByEmail e (caURL L m)) s of
          (Inr a, s1) \<Rightarrow> (existing_account L e a, s1)
        | (Inl _, s1) \<Rightarrow> register_account L m now fresh e s1)" for e
    using keeps_db [of "GetACMEAccountByEmail e (caURL L m)"] keeps_register [of L m now fresh e]
    by (auto simp: keeps_env_def split: prod.splits sum.splits) (metis snd_conv)+
  then show ?thesis
    unfolding getOrCreateAccount_def by (intro keeps)
qed

text \<open>
  The libraries decode credentials into a map, so each variable occurs once.
\<close>

definition one_value_each :: "lego \<Rightarrow> bool" where
  "one_value_each L \<longleftrightarrow> (\<forall>cfg creds. lg_creds L cfg = Inr creds \<longrightarrow> wf_gomap creds)"

lemma dnsProvider_env:
  assumes "one_value_each L" "dnsProvider L i s = (r, s')"
  shows "case r of Inl _ \<Rightarrow> mget (snd s') k = mget (snd s) k
                 | Inr prev \<Rightarrow> mget (restoreEnv prev (snd s')) k = mget (snd s) k"
proof -
  obtain r0 s0 where g: "a_db (GetDNSProvider i) s = (r0, s0)" by (cases "a_db (GetDNSProvider i) s")
  then have s0: "snd s0 = snd s" using keeps_db by (metis keeps_env_def snd_conv)
  show ?thesis
  proof (cases r0)
    case (Inl e)
    with assms(2) g s0 show ?thesis by (auto simp: dnsProvider_def a_then_def)
  next
    case (Inr rec)
    note def = assms(2) [unfolded dnsProvider_def a_then_def g Inr a_lift_def prod.case sum.case]
    show ?thesis
    proof (cases "a_wrap ''decrypt dns credentials'' (lg_decrypt L (dp_ConfigEnc rec))")
      case (Inl e)
      with def s0 show ?thesis by auto
    next
      case (Inr cfg)
      note def2 = def [unfolded Inr prod.case sum.case]
      show ?thesis
      proof (cases "lg_creds L cfg")
        case (Inl e)
        with def2 s0 show ?thesis by auto
      next
        case (Inr creds)
        with assms(1) have "distinct (map fst creds)" by (auto simp: one_value_each_def)
        from restore_setEnv [OF this, of "snd s0" k] def2 Inr s0 show ?thesis
          by (auto simp: split_beta split: option.splits)
      qed
    qed
  qed
qed

lemma obtain_cert_env:
  assumes "one_value_each L"
  shows "mget (snd (snd (obtain_cert L m t fresh c s))) k = mget (snd s) k"
proof -
  obtain r1 s1 where u: "getOrCreateAccount L m t fresh [] s = (r1, s1)"
    by (cases "getOrCreateAccount L m t fresh [] s")
  then have s1: "snd s1 = snd s" using keeps_account by (metis keeps_env_def snd_conv)
  show ?thesis
  proof (cases r1)
    case (Inl e)
    with u s1 show ?thesis by (simp add: obtain_cert_def a_then_def)
  next
    case (Inr u')
    obtain r2 s2 where p: "dnsProvider L (c_DNSProviderID c) s1 = (r2, s2)"
      by (cases "dnsProvider L (c_DNSProviderID c) s1")
    from dnsProvider_env [OF assms p, of k] u s1 Inr p show ?thesis
      by (cases s2) (auto simp: obtain_cert_def a_then_def a_check_def split: option.splits sum.splits)
  qed
qed

text \<open>
  C25: Credentials do not outlive the order: however an issuance ends, in success or in any of its
  errors, every environment variable has the value it had before, although the DNS provider read its
  credentials from the environment meanwhile.
\<close>

theorem issuance_restores_env:
  assumes "one_value_each L"
  shows "mget (snd (snd (Obtain L m now fresh c s))) k = mget (snd s) k"
proof -
  have db: "snd (snd (a_db f x)) = snd x" for f :: "unit dbop" and x
    using keeps_db [of f] unfolding keeps_env_def by blast
  let ?c = "c\<lparr>c_LastAttemptAt := Some now, c_Status := CertStatusPending\<rparr>"
  obtain r1 s1 where p: "a_db (UpdateCertificate (unix_of now) ?c) s = (r1, s1)"
    by (cases "a_db (UpdateCertificate (unix_of now) ?c) s")
  then have s1: "snd s1 = snd s" using db by (metis snd_conv)
  obtain r2 s2 where q: "obtain_cert L m (unix_of now) fresh ?c s1 = (r2, s2)"
    by (cases "obtain_cert L m (unix_of now) fresh ?c s1")
  then have s2: "mget (snd s2) k = mget (snd s) k" using obtain_cert_env [OF assms] s1 by (metis snd_conv)
  show ?thesis
  proof (cases r2)
    case (Inl e)
    then show ?thesis by (simp add: Obtain_def Let_def p q db s2)
  next
    case (Inr pk)
    obtain pem key where pk: "pk = (pem, key)" by (cases pk)
    show ?thesis
    proof (cases "lg_encrypt L key")
      case (Inl e)
      then show ?thesis by (simp add: Obtain_def Let_def p q Inr pk s2)
    next
      case enc: (Inr enc)
      have "snd t = snd s2" if "a_db f s2 = (r, t)" for f :: "unit dbop" and r t
        using db [of f s2] that by simp
      with enc show ?thesis
        by (auto simp: Obtain_def Let_def p q Inr pk s2 split: sum.splits prod.splits) (metis s2)+
    qed
  qed
qed

definition sample_lego :: lego where
  "sample_lego = \<lparr>lg_production = ''https://acme'', lg_staging = ''https://staging'',
     lg_newKey = Inr ''key'', lg_unmarshalKey = Inr, lg_marshalKey = Inr, lg_unmarshalReg = Inr, lg_marshalReg = Inr,
     lg_newClient = (\<lambda>_ _. None), lg_register = (\<lambda>_ _. Inr ''reg''), lg_dnsByName = (\<lambda>_ _. None),
     lg_setDNS01 = (\<lambda>_. None), lg_setHTTP01 = None,
     lg_obtain = (\<lambda>_ _ doms e. if mget e ''TOKEN'' = Some ''s3cret'' then Inr (''cert'', ''priv'')
                                else Inl (AMsg ''unauthorized'')),
     lg_leafExpiry = (\<lambda>_. Some (90 * 86400 * second)),
     lg_creds = (\<lambda>cfg. Inr [(''TOKEN'', cfg)]), lg_encrypt = Inr, lg_decrypt = Inr,
     lg_errText = (\<lambda>_. ''failed'')\<rparr>"

definition sample_manager :: acme_manager where
  "sample_manager = \<lparr>am_defaultEmail = ''a@b.c'', am_staging = False, am_caDirURL = [], am_dnsResolvers = []\<rparr>"

definition sample_cert :: certificate where
  "sample_cert = \<lparr>c_ID = ''c1'', c_Type = CertTypeACME, c_Domains = [''a.b''], c_Status = CertStatusPending,
     c_ChallengeType = ''dns-01'', c_DNSProviderID = ''p'', c_ACMEAccountID = [], c_CertPEM = [], c_KeyPEMEnc = [],
     c_IssuedAt = None, c_ExpiresAt = None, c_LastError = [], c_LastAttemptAt = None, c_AutoRenew = True,
     c_CreatedAt = 0, c_UpdatedAt = 0\<rparr>"

definition cert_db :: db where
  "cert_db = empty_db\<lparr>db_certs := [sample_cert],
     db_dns := [\<lparr>dp_ID = ''p'', dp_Name = ''p'', dp_Provider = ''x'', dp_ConfigEnc = ''s3cret'', dp_ConfigKeys = [],
                 dp_CreatedAt = 0, dp_UpdatedAt = 0\<rparr>]\<rparr>"

lemma sample_issued:
  "fst (fst (Obtain sample_lego sample_manager 0 ''f'' sample_cert (cert_db, [(''TOKEN'', ''old'')]))) = None"
  by code_simp

lemma issuance_restores_env_witness:
  "fst (fst (Obtain sample_lego sample_manager 0 ''f'' sample_cert (cert_db, [(''TOKEN'', ''old'')]))) = None
    \<and> mget (snd (snd (Obtain sample_lego sample_manager 0 ''f'' sample_cert (cert_db, [(''TOKEN'', ''old'')])))) ''TOKEN''
       = Some ''old''"
proof -
  have "one_value_each sample_lego" by (simp add: one_value_each_def sample_lego_def)
  from issuance_restores_env [OF this, of sample_manager 0 "''f''" sample_cert "(cert_db, [(''TOKEN'', ''old'')])" "''TOKEN''"]
  show ?thesis using sample_issued by simp
qed

end
