(* ===== verification/Keys.thy ===== *)
theory Keys
  imports Models "HOL-Library.List_Lexorder"
begin

text \<open>
  \<open>internal/traefikcfg/keys.go\<close>: private keys are spliced into the served document only when it is
  served. The document is its JSON value; parsing and encoding are the parameters \<open>parse\<close> and \<open>enc\<close>,
  the key lookup is \<open>resolve\<close>.
\<close>

definition keyPlaceholderPrefix :: string where
  "keyPlaceholderPrefix = ''@@KEY:''"

type_synonym jobj = "(string \<times> json) list"

text \<open>
  The decoded \<open>tls\<close> section: certificates as objects (a null one is a nil map), and the raw stores and
  options when present. A section or certificate of another shape is an error.
\<close>

record tls_raw =
  tl_certs :: "jobj option list"
  tl_stores :: "json option"
  tl_options :: "json option"

fun cert_objs :: "json list \<Rightarrow> jobj option list option" where
  "cert_objs [] = Some []"
| "cert_objs (JObj m # js) = map_option (Cons (Some m)) (cert_objs js)"
| "cert_objs (JNull # js) = map_option (Cons None) (cert_objs js)"
| "cert_objs (_ # js) = None"

definition decode_tls :: "json \<Rightarrow> tls_raw option" where
  "decode_tls j =
     (case j of
        JNull \<Rightarrow> Some \<lparr>tl_certs = [], tl_stores = None, tl_options = None\<rparr>
      | JObj m \<Rightarrow>
          (let fin = (\<lambda>cs. \<lparr>tl_certs = cs, tl_stores = mget m ''stores'', tl_options = mget m ''options''\<rparr>) in
           case mget m ''certificates'' of
             None \<Rightarrow> Some (fin [])
           | Some JNull \<Rightarrow> Some (fin [])
           | Some (JArr js) \<Rightarrow> map_option fin (cert_objs js)
           | _ \<Rightarrow> None)
      | _ \<Rightarrow> None)"

text \<open>The placeholder's certificate id, when the object's key file is one.\<close>

definition placeholder :: "jobj option \<Rightarrow> string option" where
  "placeholder c =
     (case c of
        None \<Rightarrow> None
      | Some m \<Rightarrow>
          (case mget m ''keyFile'' of
             Some (JStr kf) \<Rightarrow>
               if has_prefix kf keyPlaceholderPrefix then Some (trim_prefix kf keyPlaceholderPrefix) else None
           | _ \<Rightarrow> None))"

text \<open>The loop over the certificates: the kept ones and whether anything changed.\<close>

fun inject_certs :: "(string \<Rightarrow> string option) \<Rightarrow> jobj option list \<Rightarrow> jobj option list \<times> bool" where
  "inject_certs resolve [] = ([], False)"
| "inject_certs resolve (c # cs) =
     (let (kept, changed) = inject_certs resolve cs in
      case placeholder c of
        None \<Rightarrow> (c # kept, changed)
      | Some i \<Rightarrow>
          (case resolve i of
             None \<Rightarrow> (kept, True)
           | Some pem \<Rightarrow> (map_option (mput ''keyFile'' (JStr pem)) c # kept, True)))"

definition enc_cert :: "jobj option \<Rightarrow> json" where
  "enc_cert c = (case c of None \<Rightarrow> JNull | Some m \<Rightarrow> JObj m)"

definition new_tls :: "tls_raw \<Rightarrow> jobj option list \<Rightarrow> json" where
  "new_tls t kept = JObj (
     [(''certificates'', JArr (map enc_cert kept))]
     @ (case tl_stores t of None \<Rightarrow> [] | Some s \<Rightarrow> [(''stores'', s)])
     @ (case tl_options t of None \<Rightarrow> [] | Some s \<Rightarrow> [(''options'', s)]))"

datatype inject_result = Unchanged | Spliced jobj | InjectError string

text \<open>On the parsed document.\<close>

definition inject_doc :: "(string \<Rightarrow> string option) \<Rightarrow> jobj \<Rightarrow> inject_result" where
  "inject_doc resolve doc =
     (case mget doc ''tls'' of
        None \<Rightarrow> Unchanged
      | Some raw \<Rightarrow>
          (case decode_tls raw of
             None \<Rightarrow> InjectError ''inject keys: parse tls''
           | Some t \<Rightarrow>
               (let (kept, changed) = inject_certs resolve (tl_certs t) in
                if \<not> changed then Unchanged else Spliced (mput ''tls'' (new_tls t kept) doc))))"

definition InjectKeys ::
  "(string \<Rightarrow> jobj option) \<Rightarrow> (json \<Rightarrow> string) \<Rightarrow> (string \<Rightarrow> string option) \<Rightarrow> string \<Rightarrow> string + string" where
  "InjectKeys parse enc resolve rendered =
     (if \<not> str_contains rendered keyPlaceholderPrefix then Inr rendered
      else
        (case parse rendered of
           None \<Rightarrow> Inl ''inject keys: parse config''
         | Some doc \<Rightarrow>
             (case inject_doc resolve doc of
                Unchanged \<Rightarrow> Inr rendered
              | InjectError e \<Rightarrow> Inl e
              | Spliced doc' \<Rightarrow> Inr (enc (JObj doc')))))"

section \<open>What injection does\<close>

text \<open>One certificate in the served document, or none when its key does not resolve.\<close>

definition served_cert :: "(string \<Rightarrow> string option) \<Rightarrow> jobj option \<Rightarrow> jobj option option" where
  "served_cert resolve c =
     (case placeholder c of
        None \<Rightarrow> Some c
      | Some i \<Rightarrow> map_option (\<lambda>pem. map_option (mput ''keyFile'' (JStr pem)) c) (resolve i))"

lemma inject_certs_spec:
  "inject_certs resolve cs = (List.map_filter (served_cert resolve) cs, \<exists>c \<in> set cs. placeholder c \<noteq> None)"
  by (induction cs)
    (auto simp: served_cert_def List.map_filter_simps split: option.splits)

lemma placeholder_key: "placeholder (Some m) = Some i \<Longrightarrow> mget m ''keyFile'' = Some (JStr (keyPlaceholderPrefix @ i))"
  by (auto simp: placeholder_def trim_prefix_def prefix_def split: option.splits json.splits if_splits)


definition two_certs :: jobj where
  "two_certs = [(''http'', JStr ''@@KEY:a''), (''tls'', JObj [(''certificates'', JArr
     [JObj [(''certFile'', JStr ''@@KEY:b''), (''keyFile'', JStr ''@@KEY:a'')],
      JObj [(''keyFile'', JStr ''@@KEY:b'')]])])]"


end
