(* ===== verification/Cron.thy ===== *)
theory Cron
  imports Net Models
begin

text \<open>
  The 5-field cron expressions of \<open>internal/engine/schedule.go\<close>: \<open>cronMatches\<close>, \<open>matchField\<close>,
  \<open>matchPart\<close>, with the errors of \<open>Atoi\<close> ignored where the source ignores them. A clock reading is its
  calendar fields. The abstract syntax of fields below is the reference the matcher is compared with.
\<close>

record calendar =
  cal_Minute :: int
  cal_Hour :: int
  cal_Day :: int
  cal_Month :: int
  cal_Weekday :: int

text \<open>The part without its step, and the step (0 and bad numbers count as 1).\<close>

definition split_step :: "string \<Rightarrow> string \<times> int" where
  "split_step part =
     (case split_first (CHR ''/'') part of
        None \<Rightarrow> (part, 1)
      | Some (p, s) \<Rightarrow> (p, let n = fst (atoi s) in if n \<le> 0 then 1 else n))"

definition part_range :: "string \<Rightarrow> int \<Rightarrow> int \<Rightarrow> (int \<times> int) option" where
  "part_range part mn mx =
     (if part = ''*'' \<or> part = [] then Some (mn, mx)
      else
        (case split_first (CHR ''-'') part of
           Some (a, b) \<Rightarrow> Some (fst (atoi a), fst (atoi b))
         | None \<Rightarrow> (case atoi part of (n, True) \<Rightarrow> Some (n, n) | (_, False) \<Rightarrow> None)))"

definition matchPart :: "string \<Rightarrow> int \<Rightarrow> int \<Rightarrow> int \<Rightarrow> bool" where
  "matchPart part v mn mx =
     (let (p, step) = split_step part in
      case part_range p mn mx of
        None \<Rightarrow> False
      | Some (lo, hi) \<Rightarrow> if v < lo \<or> v > hi then False else go_rem (v - lo) step = 0)"

definition matchField :: "string \<Rightarrow> int \<Rightarrow> int \<Rightarrow> int \<Rightarrow> bool" where
  "matchField field v mn mx =
     (\<exists>part \<in> set (split_on (CHR '','') field). matchPart (trim_space part) v mn mx)"

definition cronMatches :: "string \<Rightarrow> calendar \<Rightarrow> bool" where
  "cronMatches expr t =
     (case str_fields expr of
        [f0, f1, f2, f3, f4] \<Rightarrow>
          matchField f0 (cal_Minute t) 0 59 \<and> matchField f1 (cal_Hour t) 0 23
          \<and> matchField f2 (cal_Day t) 1 31 \<and> matchField f3 (cal_Month t) 1 12
          \<and> matchField f4 (cal_Weekday t) 0 6
      | _ \<Rightarrow> False)"

section \<open>Reference\<close>

text \<open>The syntax the documentation gives: star, number, range, each with an optional step, in lists.\<close>

datatype cron_base = Star | Num nat | Range nat nat
datatype cron_part = Part cron_base "nat option"

fun show_base :: "cron_base \<Rightarrow> string" where
  "show_base Star = ''*''"
| "show_base (Num n) = show_nat n"
| "show_base (Range a b) = show_nat a @ ''-'' @ show_nat b"

fun show_part :: "cron_part \<Rightarrow> string" where
  "show_part (Part b None) = show_base b"
| "show_part (Part b (Some k)) = show_base b @ ''/'' @ show_nat k"

definition show_field :: "cron_part list \<Rightarrow> string" where
  "show_field ps = str_join '','' (map show_part ps)"

fun base_bounds :: "cron_base \<Rightarrow> int \<Rightarrow> int \<Rightarrow> int \<times> int" where
  "base_bounds Star mn mx = (mn, mx)"
| "base_bounds (Num n) mn mx = (int n, int n)"
| "base_bounds (Range a b) mn mx = (int a, int b)"

text \<open>The values a part stands for.\<close>

fun denotes :: "cron_part \<Rightarrow> int \<Rightarrow> int \<Rightarrow> int \<Rightarrow> bool" where
  "denotes (Part b st) mn mx v \<longleftrightarrow>
     (case base_bounds b mn mx of (lo, hi) \<Rightarrow>
        lo \<le> v \<and> v \<le> hi \<and> (\<exists>k \<in> {0..nat (v - lo)}. v = lo + int k * (case st of None \<Rightarrow> 1 | Some s \<Rightarrow> int s)))"

fun sane_base :: "cron_base \<Rightarrow> bool" where
  "sane_base Star = True"
| "sane_base (Num n) = (n < 2 ^ 63)"
| "sane_base (Range a b) = (a < 2 ^ 63 \<and> b < 2 ^ 63)"

fun sane_part :: "cron_part \<Rightarrow> bool" where
  "sane_part (Part b st) = (sane_base b \<and> (case st of None \<Rightarrow> True | Some k \<Rightarrow> 0 < k \<and> k < 2 ^ 63))"

section \<open>Matching the reference\<close>

lemma index_byte_append:
  "d \<notin> set s \<Longrightarrow> index_byte (s @ d # t) d = Some (length s)"
  by (induction s) auto

lemma index_byte_None: "d \<notin> set s \<Longrightarrow> index_byte s d = None"
  by (induction s) auto

lemma split_first_append: "d \<notin> set s \<Longrightarrow> split_first d (s @ d # t) = Some (s, t)"
  by (simp add: split_first_def index_byte_append)

lemma split_first_None: "d \<notin> set s \<Longrightarrow> split_first d s = None"
  by (simp add: split_first_def index_byte_None)

lemma cron_seps: "\<not> is_digit (CHR ''/'')" "\<not> is_digit (CHR ''-'')" "\<not> is_digit (CHR '','')" "\<not> is_digit (CHR ''*'')"
  by (simp_all add: is_digit_def)

lemmas cron_notin = cron_seps [THEN not_digit_notin]

lemma show_base_no_sep: "CHR ''/'' \<notin> set (show_base b)" "CHR '','' \<notin> set (show_base b)"
  by (cases b; simp add: cron_notin)+

lemma show_part_no_comma: "CHR '','' \<notin> set (show_part p)"
  by (cases p rule: show_part.cases) (simp_all add: show_base_no_sep cron_notin)

lemma show_nat_not_star: "show_nat n \<noteq> ''*''"
  using cron_notin(4) [of n] by (metis list.set_intros(1))

lemma part_range_show:
  assumes "sane_base b"
  shows "part_range (show_base b) mn mx = Some (base_bounds b mn mx)"
proof (cases b)
  case (Num n)
  with assms show ?thesis
    by (simp add: part_range_def show_nat_nonempty show_nat_not_star split_first_None cron_notin atoi_show_nat)
next
  case (Range a c)
  have "show_nat a @ CHR ''-'' # show_nat c \<noteq> ''*''" using show_nat_nonempty [of a] by (cases "show_nat a") auto
  with Range assms show ?thesis
    using split_first_append [OF cron_notin(2), of a "show_nat c"]
    by (simp add: part_range_def atoi_show_nat)
qed (simp add: part_range_def)

lemma split_step_show:
  assumes "sane_part (Part b st)"
  shows "split_step (show_part (Part b st)) = (show_base b, case st of None \<Rightarrow> 1 | Some k \<Rightarrow> int k)"
proof (cases st)
  case None
  then show ?thesis by (simp add: split_step_def split_first_None show_base_no_sep)
next
  case (Some k)
  with assms show ?thesis
    using split_first_append [OF show_base_no_sep(1), of b "show_nat k"]
    by (simp add: split_step_def atoi_show_nat)
qed

lemma multiple_iff:
  assumes "lo \<le> v" "0 < (s :: int)"
  shows "(v - lo) mod s = 0 \<longleftrightarrow> (\<exists>k \<in> {0..nat (v - lo)}. v = lo + int k * s)"
proof
  assume "(v - lo) mod s = 0"
  then obtain q where q: "v - lo = s * q" by (auto simp: mod_eq_0_iff_dvd dvd_def)
  have "0 \<le> s * q" using q assms by simp
  then have "0 \<le> q" using assms by (simp add: zero_le_mult_iff)
  moreover have "1 * q \<le> s * q" using assms \<open>0 \<le> q\<close> by (intro mult_right_mono) auto
  ultimately have "nat q \<in> {0..nat (v - lo)}" using q by (simp add: nat_le_eq_zle)
  moreover have "v = lo + int (nat q) * s" using q \<open>0 \<le> q\<close> by (simp add: algebra_simps)
  ultimately show "\<exists>k \<in> {0..nat (v - lo)}. v = lo + int k * s" by blast
qed auto

lemma matchPart_show:
  assumes "sane_part p"
  shows "matchPart (show_part p) v mn mx = denotes p mn mx v"
proof -
  obtain b st where p: "p = Part b st" by (cases p)
  obtain lo hi where bb: "base_bounds b mn mx = (lo, hi)" by fastforce
  define k where "k = (case st of None \<Rightarrow> 1 | Some n \<Rightarrow> int n)"
  have k: "0 < k" using assms by (simp add: p k_def split: option.splits)
  have sb: "sane_base b" using assms by (simp add: p)
  have "matchPart (show_part p) v mn mx \<longleftrightarrow> lo \<le> v \<and> v \<le> hi \<and> (v - lo) mod k = 0"
    using split_step_show [of b st] assms part_range_show [OF sb, of mn mx] k
    by (auto simp: matchPart_def p bb k_def [symmetric] go_rem_nonneg)
  also have "\<dots> \<longleftrightarrow> denotes p mn mx v"
    using multiple_iff [OF _ k, of lo v] by (auto simp: p bb k_def)
  finally show ?thesis .
qed

definition plain :: "char \<Rightarrow> bool" where
  "plain c \<longleftrightarrow> is_digit c \<or> c = CHR ''*''"

lemma plain_printable: "plain c \<Longrightarrow> printable c"
  by (auto simp: plain_def is_digit_def printable_def)

lemma trim_space_plain: "s \<noteq> [] \<Longrightarrow> plain (hd s) \<Longrightarrow> plain (last s) \<Longrightarrow> trim_space s = s"
  by (simp add: trim_space_printable plain_printable)

lemma hd_show_plain: "plain (hd (show_nat n))" and last_show_plain: "plain (last (show_nat n))"
  using show_nat_digits [of n] show_nat_nonempty [of n]
  by (auto simp: plain_def list_all_iff)

lemma plain_star: "plain (CHR ''*'')"
  by (simp add: plain_def)

lemma show_base_ends: "show_base b \<noteq> [] \<and> plain (hd (show_base b)) \<and> plain (last (show_base b))"
  by (cases b) (simp_all add: show_nat_nonempty hd_show_plain last_show_plain hd_append plain_star)

lemma show_part_ends: "show_part p \<noteq> [] \<and> plain (hd (show_part p)) \<and> plain (last (show_part p))"
  using show_base_ends show_nat_nonempty
  by (cases p rule: show_part.cases) (auto simp: hd_append last_show_plain)

lemma split_on_join: "ps \<noteq> [] \<Longrightarrow> split_on (CHR '','') (show_field ps) = map show_part ps"
  by (simp add: show_field_def split_on_str_join show_part_no_comma)

lemma matchField_show:
  assumes "ps \<noteq> []" "\<forall>p \<in> set ps. sane_part p"
  shows "matchField (show_field ps) v mn mx \<longleftrightarrow> (\<exists>p \<in> set ps. denotes p mn mx v)"
  using assms show_part_ends
  by (auto simp: matchField_def split_on_join trim_space_plain matchPart_show simp del: denotes.simps)

text \<open>
  Cron fields mean what their syntax says: for every list of parts (star, number or range, each
  with an optional step), the field written out matches a value exactly when one of the parts stands
  for it: within the bounds and a whole number of steps from the lower one.
\<close>

theorem cron_field_matches:
  assumes "ps \<noteq> []" "\<forall>p \<in> set ps. sane_part p"
  shows "matchField (show_field ps) v mn mx \<longleftrightarrow> (\<exists>p \<in> set ps. denotes p mn mx v)"
  using assms by (rule matchField_show)

lemma cron_field_matches_witness:
  "matchField (show_field [Part (Range 10 20) (Some 5), Part (Num 3) None]) 15 0 59
    \<and> \<not> matchField (show_field [Part (Range 10 20) (Some 5), Part (Num 3) None]) 16 0 59"
proof -
  let ?ps = "[Part (Range 10 20) (Some 5), Part (Num 3) None]"
  have "?ps \<noteq> []" "\<forall>p \<in> set ?ps. sane_part p" by simp_all
  note m = cron_field_matches [OF this, of _ 0 59]
  have "denotes (Part (Range 10 20) (Some 5)) 0 59 15" by (auto intro: bexI [of _ 1])
  then have "\<exists>p \<in> set ?ps. denotes p 0 59 15" by simp
  moreover have "16 \<noteq> 10 + int k * 5" for k by presburger
  then have "\<not> (\<exists>p \<in> set ?ps. denotes p 0 59 16)" by auto
  ultimately show ?thesis using m by blast
qed

section \<open>Whole expressions\<close>

lemma printable_digit: "is_digit c \<Longrightarrow> printable c"
  by (auto simp: is_digit_def printable_def)

lemma printable_show: "list_all printable (show_nat n)"
  using show_nat_digits [of n] by (auto simp: list_all_iff printable_digit)

lemma printable_part: "list_all printable (show_part p)"
proof -
  have "printable (CHR ''*'')" "printable (CHR ''-'')" "printable (CHR ''/'')" by (simp_all add: printable_def)
  then show ?thesis
    by (cases p rule: show_part.cases; cases "case p of Part b _ \<Rightarrow> b") (simp_all add: printable_show)
qed

lemma printable_field: "ps \<noteq> [] \<Longrightarrow> show_field ps \<noteq> [] \<and> list_all printable (show_field ps)"
proof (induction ps rule: list_nonempty_induct)
  case (single p)
  then show ?case using show_part_ends [of p] by (simp add: show_field_def printable_part)
next
  case (cons p ps)
  obtain q qs where ps: "ps = q # qs" using cons.hyps by (cases ps) auto
  have "printable (CHR '','')" by (simp add: printable_def)
  with cons show ?case by (simp add: show_field_def ps printable_part)
qed

lemma cron_expression:
  assumes "\<forall>ps \<in> {p0, p1, p2, p3, p4}. ps \<noteq> [] \<and> list_all sane_part ps"
  shows "cronMatches (str_join '' '' (map show_field [p0, p1, p2, p3, p4])) t \<longleftrightarrow>
    (\<exists>p \<in> set p0. denotes p 0 59 (cal_Minute t)) \<and> (\<exists>p \<in> set p1. denotes p 0 23 (cal_Hour t))
    \<and> (\<exists>p \<in> set p2. denotes p 1 31 (cal_Day t)) \<and> (\<exists>p \<in> set p3. denotes p 1 12 (cal_Month t))
    \<and> (\<exists>p \<in> set p4. denotes p 0 6 (cal_Weekday t))"
proof -
  have "str_fields (str_join '' '' (map show_field [p0, p1, p2, p3, p4])) = map show_field [p0, p1, p2, p3, p4]"
    using assms printable_field by (intro fields_words) auto
  then show ?thesis
    using assms by (simp add: cronMatches_def matchField_show list_all_iff del: denotes.simps)
qed

definition at_ten :: "cron_part list list" where
  "at_ten = [[Part (Num 0) None], [Part (Num 22) None], [Part Star None], [Part Star None], [Part Star None]]"

definition ten_pm :: calendar where
  "ten_pm = \<lparr>cal_Minute = 0, cal_Hour = 22, cal_Day = 1, cal_Month = 5, cal_Weekday = 3\<rparr>"

lemma at_ten_now: "cronMatches ''0 22 * * *'' ten_pm"
proof -
  have "str_join '' '' (map show_field at_ten) = ''0 22 * * *''" by code_simp
  then have e: "str_join '' '' (map show_field [[Part (Num 0) None], [Part (Num 22) None], [Part Star None],
      [Part Star None], [Part Star None]]) = ''0 22 * * *''" by (simp only: at_ten_def)
  show ?thesis
    unfolding e [symmetric] by (subst cron_expression) (auto simp: ten_pm_def)
qed

text \<open>
  A cron expression means what its five fields say: written out with single spaces between the
  fields, it matches a clock reading exactly when each field, minute, hour, day of month, month and
  weekday in that order, has a part that stands for the reading's value. Day of month and weekday are
  both required.
\<close>

theorem cron_expression_matches:
  assumes "\<forall>ps \<in> {p0, p1, p2, p3, p4}. ps \<noteq> [] \<and> list_all sane_part ps"
  shows "cronMatches (str_join '' '' (map show_field [p0, p1, p2, p3, p4])) t \<longleftrightarrow>
    (\<exists>p \<in> set p0. denotes p 0 59 (cal_Minute t)) \<and> (\<exists>p \<in> set p1. denotes p 0 23 (cal_Hour t))
    \<and> (\<exists>p \<in> set p2. denotes p 1 31 (cal_Day t)) \<and> (\<exists>p \<in> set p3. denotes p 1 12 (cal_Month t))
    \<and> (\<exists>p \<in> set p4. denotes p 0 6 (cal_Weekday t))"
  using assms by (rule cron_expression)

lemma cron_expression_matches_witness:
  "cronMatches (str_join '' '' (map show_field [[Part (Num 0) None], [Part (Num 22) None], [Part Star None],
      [Part Star None], [Part Star None]])) ten_pm"
  by (subst cron_expression_matches) (auto simp: ten_pm_def)

lemma atoi_letter:
  assumes "s \<noteq> []" "is_lower (hd s)"
  shows "fst (atoi s) = 0"
proof -
  obtain c cs where s: "s = c # cs" using assms(1) by (cases s) auto
  have c: "\<not> is_digit c" "c \<noteq> CHR ''+''" "c \<noteq> CHR ''-''"
    using assms(2) by (auto simp: s is_lower_def is_digit_def)
  then show ?thesis by (simp add: s atoi_def atoi_unsigned_def)
qed

text \<open>
  A range between names matches zero: a part such as mon-fri, whose bounds are not numbers,
  is not refused but read as the range from 0 to 0, since the errors of the two conversions are
  ignored. In the weekday field it matches Sunday and no other day, while a single name matches
  nothing.
\<close>

theorem cron_name_range:
  assumes "a \<noteq> []" "is_lower (hd a)" "b \<noteq> []" "is_lower (hd b)"
    and "set (a @ b) \<inter> {CHR ''-'', CHR ''/''} = {}"
  shows "matchPart (a @ ''-'' @ b) v mn mx \<longleftrightarrow> v = 0"
proof -
  have "split_first (CHR ''/'') (a @ ''-'' @ b) = None" using assms(5) by (intro split_first_None) auto
  then have "split_step (a @ ''-'' @ b) = (a @ ''-'' @ b, 1)" by (simp add: split_step_def)
  moreover have "a @ ''-'' @ b \<noteq> ''*''" "a @ ''-'' @ b \<noteq> []" using assms(1) by (cases a; auto)+
  moreover have "split_first (CHR ''-'') (a @ ''-'' @ b) = Some (a, b)"
    using split_first_append [of "CHR ''-''" a b] assms(5) by auto
  ultimately have "matchPart (a @ ''-'' @ b) v mn mx = (if v < 0 \<or> v > 0 then False else go_rem (v - 0) 1 = 0)"
    using atoi_letter assms by (simp add: matchPart_def part_range_def)
  then show ?thesis by (auto simp: go_rem_def)
qed

lemma cron_name_range_witness:
  "matchPart (''mon'' @ ''-'' @ ''fri'') 0 0 6 \<and> \<not> matchPart (''mon'' @ ''-'' @ ''fri'') 1 0 6"
proof -
  have "''mon'' \<noteq> []" "is_lower (hd ''mon'')" "''fri'' \<noteq> []" "is_lower (hd ''fri'')"
    "set (''mon'' @ ''fri'') \<inter> {CHR ''-'', CHR ''/''} = {}"
    by (simp_all add: is_lower_def)
  from cron_name_range [OF this] show ?thesis by simp
qed

end
