(* ===== verification/Engine.thy ===== *)
theory Engine
  imports Acme Render Keys Cron
begin

text \<open>
  The orchestration core of \<open>internal/engine/engine.go\<close>: the pipeline from the database to the served
  configuration (\<open>renderConfig\<close>, \<open>Reload\<close>, \<open>Preview\<close>, \<open>Rollback\<close>, \<open>ProviderDocument\<close>), the feature
  toggles, the WAF build status and certificate renewal, with the scheduler's tick of \<open>schedule.go\<close>.
  The engine's state holds the database and what the edge was told, so the order of effects and the
  point at which an error stops an operation are visible.
\<close>

section \<open>State\<close>

record eng_cfg =
  ec_HTTPEntryPoint :: string
  ec_HTTPSEntryPoint :: string
  ec_WAFDefaultEnabled :: bool
  ec_TraefikManaged :: bool
  ec_HasEdge :: bool
  ec_ChallengeBackend :: string
  ec_CacheBackend :: string
  ec_CacheToken :: string
  ec_HolderID :: string
  ec_RenewalLeaseTTL :: duration
  ec_ExternalCerts :: "(string \<times> string) list"

record served =
  sv_JSON :: string
  sv_Hash :: string

record ban_config =
  bc_Enabled :: bool
  bc_Threshold :: int
  bc_WindowSec :: int
  bc_DurationSec :: int

record engine =
  en_db :: db
  en_env :: env
  en_rendered :: "served option"
  en_version :: int
  en_edgeHosts :: "host list"
  en_edgeFlags :: "bool \<times> bool"
  en_banHits :: "(string, gotime list) gomap"
  en_banReload :: bool
  en_banConfig :: "ban_config option"
  en_recoverLevel :: nat
  en_lastRecovery :: string
  en_lastRecoveryAt :: gotime
  en_wafStatus :: "bool \<times> string"
  en_alerts :: "(string \<times> string) list"

datatype eng_err = EDB db_err | ERaw string | ERender string | EValidate string | EInject string

type_synonym 'a eop = "engine \<Rightarrow> (eng_err + 'a) \<times> engine"

definition run_db :: "'a dbop \<Rightarrow> 'a eop" where
  "run_db f e =
     (case f (en_db e) of
        (Inl x, d) \<Rightarrow> (Inl (EDB x), e\<lparr>en_db := d\<rparr>)
      | (Inr x, d) \<Rightarrow> (Inr x, e\<lparr>en_db := d\<rparr>))"

definition e_then :: "'a eop \<Rightarrow> ('a \<Rightarrow> 'b eop) \<Rightarrow> 'b eop" where
  "e_then f g e = (case f e of (Inl x, e') \<Rightarrow> (Inl x, e') | (Inr x, e') \<Rightarrow> g x e')"

definition e_return :: "'a \<Rightarrow> 'a eop" where
  "e_return x e = (Inr x, e)"

definition e_fail :: "eng_err \<Rightarrow> 'a eop" where
  "e_fail x e = (Inl x, e)"

definition e_update :: "(engine \<Rightarrow> engine) \<Rightarrow> unit eop" where
  "e_update f e = (Inr (), f e)"

section \<open>Feature toggles\<close>

definition truthy :: "string \<Rightarrow> bool" where
  "truthy v \<longleftrightarrow> v = ''true'' \<or> v = ''1''"

definition settingBoolMap :: "(string, string) gomap \<Rightarrow> string \<Rightarrow> bool \<Rightarrow> bool" where
  "settingBoolMap m key dflt = (case mget m key of None \<Rightarrow> dflt | Some v \<Rightarrow> truthy v)"

definition settingBool :: "string \<Rightarrow> bool \<Rightarrow> engine \<Rightarrow> bool \<times> engine" where
  "settingBool key dflt e =
     (case run_db (GetSetting key) e of (Inl _, e') \<Rightarrow> (dflt, e') | (Inr v, e') \<Rightarrow> (truthy v, e'))"

definition wafEnabledFrom :: "eng_cfg \<Rightarrow> (string, string) gomap \<Rightarrow> bool" where
  "wafEnabledFrom cfg m =
     (case mget m ''plugins.waf.enabled'' of
        None \<Rightarrow> ec_WAFDefaultEnabled cfg
      | Some v \<Rightarrow> if v = [] then ec_WAFDefaultEnabled cfg else truthy v)"

definition wafEnabled :: "eng_cfg \<Rightarrow> engine \<Rightarrow> bool \<times> engine" where
  "wafEnabled cfg e =
     (case run_db (GetSetting ''plugins.waf.enabled'') e of
        (Inl _, e') \<Rightarrow> (ec_WAFDefaultEnabled cfg, e')
      | (Inr v, e') \<Rightarrow> (if v = [] then ec_WAFDefaultEnabled cfg else truthy v, e'))"

section \<open>Rendering\<close>

definition render_inputs ::
  "eng_cfg \<Rightarrow> host list \<Rightarrow> middleware list \<Rightarrow> certificate list \<Rightarrow> access_list list \<Rightarrow> ban list
    \<Rightarrow> (string, string) gomap \<Rightarrow> dyn_config option \<Rightarrow> inputs" where
  "render_inputs cfg hosts mws certs acls bans settings raw = \<lparr>
     in_Hosts = hosts, in_Middlewares = mws, in_Certificates = certs, in_AccessLists = acls,
     in_EntryPoints = \<lparr>ep_HTTP = ec_HTTPEntryPoint cfg, ep_HTTPS = ec_HTTPSEntryPoint cfg\<rparr>,
     in_ChallengeBackend = ec_ChallengeBackend cfg, in_ContentBackend = ec_ChallengeBackend cfg,
     in_DefaultSiteEnabled =
       (let m = mget_or [] settings ''defaultsite.mode'' in m \<noteq> ''off'' \<and> m \<noteq> ''disabled''),
     in_RawConfig = raw,
     in_WAFEnabled = wafEnabledFrom cfg settings,
     in_CacheEnabled = settingBoolMap settings ''plugins.cache.enabled'' False,
     in_CacheBackend = ec_CacheBackend cfg, in_CacheToken = ec_CacheToken cfg,
     in_ExternalCerts = ec_ExternalCerts cfg,
     in_BannedIPs = map b_IP bans\<rparr>"

text \<open>The part after the reads: raw configuration, rendering, validation.\<close>

definition render_checked :: "libs \<Rightarrow> (string \<Rightarrow> string) \<Rightarrow> eng_cfg \<Rightarrow> host list \<Rightarrow> middleware list \<Rightarrow>
    certificate list \<Rightarrow> access_list list \<Rightarrow> ban list \<Rightarrow> (string, string) gomap \<Rightarrow> eng_err + render_result" where
  "render_checked L uni cfg hosts mws certs acls bans settings =
     (let yaml = mget_or [] settings ''raw.dynamicYaml'' in
      case (if yaml \<noteq> [] then ParseRawConfig L yaml else Inr None) of
        Inl x \<Rightarrow> Inl (ERaw x)
      | Inr raw \<Rightarrow>
          (case Render L uni (render_inputs cfg hosts mws certs acls bans settings raw) of
             Inl x \<Rightarrow> Inl (ERender x)
           | Inr res \<Rightarrow>
               (case ValidateConfig L (rr_Config res) of
                  Some x \<Rightarrow> Inl (EValidate x)
                | None \<Rightarrow> Inr res)))"

definition renderConfig ::
  "libs \<Rightarrow> (string \<Rightarrow> string) \<Rightarrow> eng_cfg \<Rightarrow> int \<Rightarrow> (render_result \<times> host list \<times> (bool \<times> bool)) eop" where
  "renderConfig L uni cfg now =
     e_then (run_db (ListHosts [])) (\<lambda>hosts.
     e_then (run_db ListMiddlewares) (\<lambda>mws.
     e_then (run_db ListCertificates) (\<lambda>certs.
     e_then (run_db ListAccessLists) (\<lambda>acls.
     e_then (run_db (ListActiveBans now)) (\<lambda>bans.
     e_then (run_db ListAllSettings) (\<lambda>settings.
       (case render_checked L uni cfg hosts mws certs acls bans settings of
          Inl x \<Rightarrow> e_fail x
        | Inr res \<Rightarrow>
            e_return (res, hosts, (wafEnabledFrom cfg settings, settingBoolMap settings ''plugins.cache.enabled'' False)))))))))"

definition set_served :: "render_result \<Rightarrow> engine \<Rightarrow> engine" where
  "set_served res e = e\<lparr>en_rendered := Some \<lparr>sv_JSON = rr_JSON res, sv_Hash = rr_Hash res\<rparr>\<rparr>"

definition sync_edge :: "eng_cfg \<Rightarrow> host list \<Rightarrow> bool \<times> bool \<Rightarrow> engine \<Rightarrow> engine" where
  "sync_edge cfg hosts flags e =
     (if ec_HasEdge cfg then e\<lparr>en_edgeHosts := hosts, en_edgeFlags := flags\<rparr> else e)"

text \<open>A best-effort call: its error is dropped.\<close>

definition e_ignore :: "'a eop \<Rightarrow> unit eop" where
  "e_ignore f e = (Inr (), snd (f e))"

definition Reload :: "libs \<Rightarrow> (string \<Rightarrow> string) \<Rightarrow> eng_cfg \<Rightarrow> int \<Rightarrow> render_result eop" where
  "Reload L uni cfg now =
     e_then (renderConfig L uni cfg now) (\<lambda>(res, hosts, flags).
     e_then (e_update (sync_edge cfg hosts flags)) (\<lambda>_ e.
       if (case en_rendered e of Some s \<Rightarrow> sv_Hash s = rr_Hash res | None \<Rightarrow> False)
       then (Inr res, set_served res e)
       else
         e_then (run_db LatestSnapshotVersion) (\<lambda>v.
         e_then (run_db (AddSnapshot now \<lparr>sn_Version = v + 1, sn_JSON = rr_JSON res, sn_Hash = rr_Hash res,
                                          sn_Valid = True, sn_CreatedAt = zero_time\<rparr>)) (\<lambda>_.
         e_then (e_ignore (run_db (PruneSnapshots 50))) (\<lambda>_.
         e_then (e_update (\<lambda>e. (set_served res e)\<lparr>en_version := v + 1\<rparr>)) (\<lambda>_.
           e_return res)))) e))"

definition Preview :: "libs \<Rightarrow> (string \<Rightarrow> string) \<Rightarrow> eng_cfg \<Rightarrow> int \<Rightarrow> render_result eop" where
  "Preview L uni cfg now = e_then (renderConfig L uni cfg now) (\<lambda>(res, _, _). e_return res)"

definition Rollback :: "int \<Rightarrow> int \<Rightarrow> unit eop" where
  "Rollback now version =
     e_then (run_db (GetSnapshot version)) (\<lambda>snap.
     e_then (e_update (\<lambda>e. e\<lparr>en_rendered := Some \<lparr>sv_JSON = sn_JSON snap, sv_Hash = sn_Hash snap\<rparr>\<rparr>)) (\<lambda>_ e.
       (case run_db LatestSnapshotVersion e of
          (r, e1) \<Rightarrow>
            (let next = (case r of Inl _ \<Rightarrow> 0 | Inr v \<Rightarrow> v) + 1 in
             e_then (e_ignore (run_db (AddSnapshot now \<lparr>sn_Version = next, sn_JSON = sn_JSON snap,
                        sn_Hash = sn_Hash snap, sn_Valid = True, sn_CreatedAt = zero_time\<rparr>))) (\<lambda>_.
             e_update (\<lambda>e. e\<lparr>en_version := next\<rparr>)) e1))))"

definition RenderedHash :: "engine \<Rightarrow> string" where
  "RenderedHash e = (case en_rendered e of None \<Rightarrow> ''empty'' | Some s \<Rightarrow> sv_Hash s)"

text \<open>
  \<open>ProviderDocument\<close>. The resolver reads the certificate and decrypts its key; \<open>decrypt\<close> is the secret
  box. The lookups change nothing in the database but its fault list, which the model leaves to the
  parameter \<open>lookup\<close>.
\<close>

definition key_resolver ::
  "(string \<Rightarrow> certificate option) \<Rightarrow> (string \<Rightarrow> string option) \<Rightarrow> string \<Rightarrow> string option" where
  "key_resolver lookup decrypt i =
     (case lookup i of None \<Rightarrow> None | Some c \<Rightarrow> decrypt (c_KeyPEMEnc c))"

definition ProviderDocument ::
  "(string \<Rightarrow> jobj option) \<Rightarrow> (json \<Rightarrow> string) \<Rightarrow> (string \<Rightarrow> certificate option) \<Rightarrow> (string \<Rightarrow> string option)
    \<Rightarrow> engine \<Rightarrow> eng_err + (string \<times> string)" where
  "ProviderDocument parse enc lookup decrypt e =
     (case en_rendered e of
        None \<Rightarrow> Inr (''{}'', ''empty'')
      | Some s \<Rightarrow>
          (case InjectKeys parse enc (key_resolver lookup decrypt) (sv_JSON s) of
             Inl x \<Rightarrow> Inl (EInject x)
           | Inr doc \<Rightarrow> Inr (doc, sv_Hash s)))"

section \<open>WAF status\<close>

definition recordWAFStatus :: "bool \<Rightarrow> string \<Rightarrow> engine \<Rightarrow> engine" where
  "recordWAFStatus healthy msg e =
     (let was = fst (en_wafStatus e); e' = e\<lparr>en_wafStatus := (healthy, msg)\<rparr> in
      if was \<and> \<not> healthy
      then e'\<lparr>en_alerts := en_alerts e' @ [(''error'', ''xgress WAF disabled (engine build failed)'')]\<rparr>
      else e')"

text \<open>\<open>build\<close> is the WAF library: from paranoia, threshold and custom directives to an error or success.\<close>

definition sscanf_d :: "string \<Rightarrow> int option" where
  "sscanf_d v =
     (let s = trim_lead (filter (\<lambda>p. p \<noteq> [CHR 0x0A]) space_seqs) v;
          (neg, s1) = (case s of c # cs \<Rightarrow> if c = CHR ''-'' then (True, cs)
                                            else if c = CHR ''+'' then (False, cs) else (False, s)
                        | [] \<Rightarrow> (False, [])) in
      case atoi_unsigned neg (takeWhile is_digit s1) of (n, True) \<Rightarrow> Some n | (_, False) \<Rightarrow> None)"

definition settingInt :: "string \<Rightarrow> int \<Rightarrow> engine \<Rightarrow> int \<times> engine" where
  "settingInt key dflt e =
     (case run_db (GetSetting key) e of
        (Inl _, e') \<Rightarrow> (dflt, e')
      | (Inr v, e') \<Rightarrow> (if v = [] then dflt else (case sscanf_d v of None \<Rightarrow> dflt | Some n \<Rightarrow> n), e'))"

definition RebuildWAF ::
  "(string \<Rightarrow> string list) \<Rightarrow> (int \<Rightarrow> int \<Rightarrow> string list \<Rightarrow> string option) \<Rightarrow> int \<Rightarrow> int \<Rightarrow> eng_cfg \<Rightarrow> engine
    \<Rightarrow> string option \<times> engine" where
  "RebuildWAF unm build defParanoia defAnomaly cfg e =
     (if \<not> ec_HasEdge cfg then (None, e)
      else
        (let (r, e1) = run_db (GetSetting ''plugins.waf.directives'') e;
             extra = (case r of Inr s \<Rightarrow> if s \<noteq> [] then unm s else [] | Inl _ \<Rightarrow> []);
             (p, e2) = settingInt ''plugins.waf.paranoia'' defParanoia e1;
             (a, e3) = settingInt ''plugins.waf.anomaly'' defAnomaly e2 in
         case build p a extra of
           Some msg \<Rightarrow> (Some msg, recordWAFStatus False msg e3)
         | None \<Rightarrow> (None, recordWAFStatus True [] e3)))"

section \<open>Scheduler tick\<close>

text \<open>One due schedule: the host's flag, and whether something changed. Errors skip the schedule.\<close>

definition apply_schedule :: "int \<Rightarrow> schedule \<Rightarrow> engine \<Rightarrow> bool \<times> engine" where
  "apply_schedule now sc e =
     (case run_db (GetHost (sc_HostID sc)) e of
        (Inl _, e1) \<Rightarrow> (False, e1)
      | (Inr h, e1) \<Rightarrow>
          (let want = (sc_Action sc = ''enable'') in
           if h_Enabled h = want then (False, e1)
           else
             (case run_db (UpdateHost now (h\<lparr>h_Enabled := want\<rparr>)) e1 of
                (Inl _, e2) \<Rightarrow> (False, e2)
              | (Inr _, e2) \<Rightarrow> (True, e2))))"

fun apply_schedules :: "calendar \<Rightarrow> int \<Rightarrow> schedule list \<Rightarrow> bool \<Rightarrow> engine \<Rightarrow> bool \<times> engine" where
  "apply_schedules cal now [] changed e = (changed, e)"
| "apply_schedules cal now (sc # scs) changed e =
     (if cronMatches (sc_Cron sc) cal
      then (let (ch, e') = apply_schedule now sc e in apply_schedules cal now scs (changed \<or> ch) e')
      else apply_schedules cal now scs changed e)"

definition runSchedules ::
  "libs \<Rightarrow> (string \<Rightarrow> string) \<Rightarrow> eng_cfg \<Rightarrow> calendar \<Rightarrow> int \<Rightarrow> engine \<Rightarrow> engine" where
  "runSchedules L uni cfg cal now e =
     (case run_db (ListSchedules []) e of
        (Inl _, e1) \<Rightarrow> e1
      | (Inr scs, e1) \<Rightarrow>
          (let (changed, e2) = apply_schedules cal now scs False e1 in
           if changed then snd (Reload L uni cfg now e2) else e2))"

section \<open>Certificate renewal\<close>

definition day :: duration where
  "day = 24 * hour"

definition renewal_due :: "gotime \<Rightarrow> certificate \<Rightarrow> bool" where
  "renewal_due threshold c \<longleftrightarrow> c_Type c = CertTypeACME \<and> c_AutoRenew c
     \<and> (c_Status c = CertStatusFailed
        \<or> (case c_ExpiresAt c of None \<Rightarrow> True | Some t \<Rightarrow> t < threshold))"

definition run_obtain :: "lego \<Rightarrow> acme_manager \<Rightarrow> gotime \<Rightarrow> string \<Rightarrow> certificate \<Rightarrow> engine \<Rightarrow> acme_err option \<times> engine" where
  "run_obtain LG m now fresh c e =
     (case Obtain LG m now fresh c (en_db e, en_env e) of
        ((r, _), (d, v)) \<Rightarrow> (r, e\<lparr>en_db := d, en_env := v\<rparr>))"

definition add_alert :: "string \<Rightarrow> string \<Rightarrow> engine \<Rightarrow> engine" where
  "add_alert level title e = e\<lparr>en_alerts := en_alerts e @ [(level, title)]\<rparr>"

fun renew_each :: "lego \<Rightarrow> acme_manager \<Rightarrow> gotime \<Rightarrow> string \<Rightarrow> certificate list \<Rightarrow> bool \<Rightarrow> engine \<Rightarrow> bool \<times> engine" where
  "renew_each LG m now fresh [] renewed e = (renewed, e)"
| "renew_each LG m now fresh (c # cs) renewed e =
     (if \<not> renewal_due (now + 30 * day) c then renew_each LG m now fresh cs renewed e
      else
        (case run_obtain LG m now fresh c e of
           (Some _, e') \<Rightarrow> renew_each LG m now fresh cs renewed (add_alert ''error'' ''Certificate renewal failed'' e')
         | (None, e') \<Rightarrow> renew_each LG m now fresh cs True (add_alert ''info'' ''Certificate renewed'' e')))"

definition renewDueCertificates ::
  "libs \<Rightarrow> (string \<Rightarrow> string) \<Rightarrow> lego \<Rightarrow> acme_manager \<Rightarrow> eng_cfg \<Rightarrow> gotime \<Rightarrow> string \<Rightarrow> engine \<Rightarrow> engine" where
  "renewDueCertificates L uni LG m cfg now fresh e =
     (let ttl = (if ec_RenewalLeaseTTL cfg \<le> 0 then 15 * minute else ec_RenewalLeaseTTL cfg) in
      case run_db (AcquireLease (unix_of now) ''acme-renewal'' (ec_HolderID cfg) ttl) e of
        (Inr True, e1) \<Rightarrow>
          (case run_db ListCertificates e1 of
             (Inl _, e2) \<Rightarrow> e2
           | (Inr cs, e2) \<Rightarrow>
               (let (renewed, e3) = renew_each LG m now fresh cs False e2 in
                if renewed then snd (Reload L uni cfg (unix_of now) e3) else e3))
      | (_, e1) \<Rightarrow> e1)"

end
