(* ===== verification/Auth.thy ===== *)
theory Auth
  imports Engine
begin

text \<open>
  Sign-in and roles of the admin API: \<open>internal/api/ratelimit.go\<close>, \<open>auth.go\<close> and the helpers of
  \<open>respond.go\<close> and \<open>server.go\<close> the handlers share. A handler is a function from the decoded request body
  (None when decoding failed) and the server's state to the reply and the new state. bcrypt and the
  random tokens are parameters.
\<close>

section \<open>Replies and requests\<close>

datatype 'b api_reply = ApiErr nat string | ApiIssues "(string \<times> string) list" | ApiOk nat 'b

record login_attempt =
  la_fails :: nat
  la_until :: gotime

record login_limiter =
  lm_attempts :: "(string, login_attempt) gomap"
  lm_maxFails :: nat
  lm_window :: duration

record api_state =
  as_eng :: engine
  as_limiter :: login_limiter

record api_request =
  ar_Cookie :: "string option"
  ar_RemoteAddr :: string
  ar_UserAgent :: string

record auth_libs =
  ax_sha :: "string \<Rightarrow> string"
  ax_hash :: "string \<Rightarrow> string + string"
  ax_check :: "string \<Rightarrow> string \<Rightarrow> bool"
  ax_uni :: "string \<Rightarrow> string"
  ax_errText :: "eng_err \<Rightarrow> string"

definition on_db :: "'a dbop \<Rightarrow> api_state \<Rightarrow> (eng_err + 'a) \<times> api_state" where
  "on_db f st = (case run_db f (as_eng st) of (r, e) \<Rightarrow> (r, st\<lparr>as_eng := e\<rparr>))"

definition on_eng :: "(engine \<Rightarrow> 'a \<times> engine) \<Rightarrow> api_state \<Rightarrow> 'a \<times> api_state" where
  "on_eng f st = (case f (as_eng st) of (r, e) \<Rightarrow> (r, st\<lparr>as_eng := e\<rparr>))"

definition notFoundIf :: "eng_err \<Rightarrow> nat" where
  "notFoundIf e = (if e = EDB NotFound then 404 else 500)"

section \<open>The login limiter\<close>

definition newLoginLimiter :: login_limiter where
  "newLoginLimiter = \<lparr>lm_attempts = [], lm_maxFails = 10, lm_window = 5 * minute\<rparr>"

definition allowed :: "gotime \<Rightarrow> string \<Rightarrow> login_limiter \<Rightarrow> bool" where
  "allowed now key l =
     (case mget (lm_attempts l) key of
        None \<Rightarrow> True
      | Some a \<Rightarrow> la_until a < now \<or> la_fails a < lm_maxFails l)"

text \<open>The entry after a failure, and whether the map is cleaned up on the way.\<close>

definition next_attempt :: "gotime \<Rightarrow> string \<Rightarrow> login_limiter \<Rightarrow> login_attempt" where
  "next_attempt now key l = \<lparr>
     la_fails = Suc (case mget (lm_attempts l) key of Some a \<Rightarrow> if la_until a < now then 0 else la_fails a | None \<Rightarrow> 0),
     la_until = now + lm_window l\<rparr>"

definition cleans :: "gotime \<Rightarrow> string \<Rightarrow> login_limiter \<Rightarrow> bool" where
  "cleans now key l \<longleftrightarrow> 4096 < length (mput key (next_attempt now key l) (lm_attempts l))"

definition fail_attempt :: "gotime \<Rightarrow> string \<Rightarrow> login_limiter \<Rightarrow> login_limiter" where
  "fail_attempt now key l =
     (let m = mput key (next_attempt now key l) (lm_attempts l) in
      l\<lparr>lm_attempts := (if cleans now key l then filter (\<lambda>(k, v). \<not> la_until v < now) m else m)\<rparr>)"

definition success :: "string \<Rightarrow> login_limiter \<Rightarrow> login_limiter" where
  "success key l = l\<lparr>lm_attempts := mdel key (lm_attempts l)\<rparr>"

section \<open>Sessions and roles\<close>

definition sessionTTL :: duration where
  "sessionTTL = 7 * 24 * hour"

record cookie_out =
  co_Value :: string
  co_Expires :: "gotime option"
  co_HttpOnly :: bool
  co_Secure :: bool

definition setSessionCookie :: "bool \<Rightarrow> string \<Rightarrow> gotime \<Rightarrow> cookie_out" where
  "setSessionCookie secure token expiry = \<lparr>co_Value = token, co_Expires = Some expiry, co_HttpOnly = True, co_Secure = secure\<rparr>"

definition clearSessionCookie :: "bool \<Rightarrow> cookie_out" where
  "clearSessionCookie secure = \<lparr>co_Value = [], co_Expires = None, co_HttpOnly = True, co_Secure = secure\<rparr>"

definition clientIP :: "api_request \<Rightarrow> string" where
  "clientIP r = (case SplitHostPort (ar_RemoteAddr r) of Some (host, _) \<Rightarrow> host | None \<Rightarrow> ar_RemoteAddr r)"

definition authenticate :: "auth_libs \<Rightarrow> gotime \<Rightarrow> api_request \<Rightarrow> api_state \<Rightarrow> user option \<times> api_state" where
  "authenticate AL now r st =
     (case ar_Cookie r of
        None \<Rightarrow> (None, st)
      | Some token \<Rightarrow>
          (case on_db (GetSession (ax_sha AL) now token) st of
             (Inl _, st1) \<Rightarrow> (None, st1)
           | (Inr s, st1) \<Rightarrow>
               (case on_db (GetUser (ses_UserID s)) st1 of
                  (Inl _, st2) \<Rightarrow> (None, st2)
                | (Inr u, st2) \<Rightarrow> (if usr_Disabled u then None else Some u, st2))))"

type_synonym 'b handler = "user \<Rightarrow> api_state \<Rightarrow> 'b api_reply \<times> api_state"

definition requireAuth :: "auth_libs \<Rightarrow> gotime \<Rightarrow> 'b handler \<Rightarrow> api_request \<Rightarrow> api_state \<Rightarrow> 'b api_reply \<times> api_state" where
  "requireAuth AL now h r st =
     (case authenticate AL now r st of
        (None, st') \<Rightarrow> (ApiErr 401 ''authentication required'', st')
      | (Some u, st') \<Rightarrow> h u st')"

definition requireRole ::
  "auth_libs \<Rightarrow> gotime \<Rightarrow> role list \<Rightarrow> 'b handler \<Rightarrow> api_request \<Rightarrow> api_state \<Rightarrow> 'b api_reply \<times> api_state" where
  "requireRole AL now roles h =
     requireAuth AL now (\<lambda>u st. if usr_Role u \<in> set roles then h u st else (ApiErr 403 ''insufficient permissions'', st))"

definition audit :: "gotime \<Rightarrow> string \<Rightarrow> user option \<Rightarrow> string \<Rightarrow> string \<Rightarrow> string \<Rightarrow> api_state \<Rightarrow> api_state" where
  "audit now fresh u action target detail st =
     snd (on_db (AddAudit now fresh \<lparr>ae_ID = [], ae_At = now,
       ae_UserID = (case u of Some x \<Rightarrow> usr_ID x | None \<Rightarrow> []), ae_UserEmail = (case u of Some x \<Rightarrow> usr_Email x | None \<Rightarrow> []),
       ae_Action = action, ae_Target = target, ae_Detail = detail\<rparr>) st)"

section \<open>Handlers\<close>

definition login_key :: "auth_libs \<Rightarrow> string \<Rightarrow> string" where
  "login_key AL email = to_lower (ax_uni AL) (trim_space email)"

text \<open>The environment of a call: time, a fresh identifier and a fresh token.\<close>

record call_env =
  ce_now :: gotime
  ce_fresh :: string
  ce_token :: string
  ce_secure :: bool

definition handleLogin ::
  "auth_libs \<Rightarrow> call_env \<Rightarrow> (string \<times> string) option \<Rightarrow> api_request \<Rightarrow> api_state
    \<Rightarrow> (user \<times> cookie_out) api_reply \<times> api_state" where
  "handleLogin AL ce body r st =
     (case body of
        None \<Rightarrow> (ApiErr 400 ''invalid body'', st)
      | Some (email, password) \<Rightarrow>
          (let key = clientIP r; now = ce_now ce in
           if \<not> allowed now key (as_limiter st)
           then (ApiErr 429 ''too many failed login attempts; please try again later'', st)
           else
             (case on_db (GetUserByEmail (login_key AL email)) st of
                (res, st1) \<Rightarrow>
                  (case (case res of Inr u \<Rightarrow> if usr_Disabled u \<or> \<not> ax_check AL (usr_PasswordHash u) password then None else Some u
                                   | Inl _ \<Rightarrow> None) of
                     None \<Rightarrow> (ApiErr 401 ''invalid credentials'', st1\<lparr>as_limiter := fail_attempt now key (as_limiter st1)\<rparr>)
                   | Some u \<Rightarrow>
                       (let st2 = st1\<lparr>as_limiter := success key (as_limiter st1)\<rparr>;
                            sess = \<lparr>ses_Token = ce_token ce, ses_UserID = usr_ID u, ses_UserAgent = ar_UserAgent r,
                                    ses_IP = key, ses_CreatedAt = now, ses_ExpiresAt = now + sessionTTL\<rparr> in
                        (case on_db (CreateSession (ax_sha AL) sess) st2 of
                           (Inl _, st3) \<Rightarrow> (ApiErr 500 ''could not create session'', st3)
                         | (Inr _, st3) \<Rightarrow>
                             (ApiOk 200 (u, setSessionCookie (ce_secure ce) (ses_Token sess) (ses_ExpiresAt sess)),
                              audit now (ce_fresh ce) None ''auth.login'' (usr_ID u) [] st3)))))))"

definition handleLogout :: "auth_libs \<Rightarrow> call_env \<Rightarrow> api_request \<Rightarrow> api_state \<Rightarrow> cookie_out api_reply \<times> api_state" where
  "handleLogout AL ce r st =
     (ApiOk 200 (clearSessionCookie (ce_secure ce)),
      (case ar_Cookie r of Some token \<Rightarrow> snd (on_db (DeleteSession (ax_sha AL) token) st) | None \<Rightarrow> st))"

definition handleMe :: "user handler" where
  "handleMe u st = (ApiOk 200 u, st)"

definition handleSetupStatus :: "auth_libs \<Rightarrow> api_state \<Rightarrow> bool api_reply \<times> api_state" where
  "handleSetupStatus AL st =
     (case on_db CountUsers st of
        (Inl x, st1) \<Rightarrow> (ApiErr 500 (ax_errText AL x), st1)
      | (Inr n, st1) \<Rightarrow> (ApiOk 200 (n = 0), st1))"

definition handleSetup ::
  "auth_libs \<Rightarrow> call_env \<Rightarrow> (string \<times> string \<times> string) option \<Rightarrow> api_state \<Rightarrow> user api_reply \<times> api_state" where
  "handleSetup AL ce body st =
     (case on_db CountUsers st of
        (Inl x, st1) \<Rightarrow> (ApiErr 500 (ax_errText AL x), st1)
      | (Inr n, st1) \<Rightarrow>
          if n > 0 then (ApiErr 409 ''setup already completed'', st1)
          else
            (case body of
               None \<Rightarrow> (ApiErr 400 ''invalid body'', st1)
             | Some (email, name, password) \<Rightarrow>
                 if length password < 8 \<or> \<not> str_contains email ''@''
                 then (ApiErr 400 ''email required and password must be at least 8 characters'', st1)
                 else
                   (case ax_hash AL password of
                      Inl x \<Rightarrow> (ApiErr 500 x, st1)
                    | Inr hash \<Rightarrow>
                        (let u = \<lparr>usr_ID = [], usr_Email = login_key AL email, usr_Name = name, usr_PasswordHash = hash,
                                  usr_Role = RoleAdmin, usr_Disabled = False, usr_CreatedAt = zero_time, usr_UpdatedAt = zero_time\<rparr> in
                         (case on_db (CreateFirstUser (unix_of (ce_now ce)) (ce_fresh ce) u) st1 of
                            (Inl x, st2) \<Rightarrow> (ApiErr 500 (ax_errText AL x), st2)
                          | (Inr False, st2) \<Rightarrow> (ApiErr 409 ''setup already completed'', st2)
                          | (Inr True, st2) \<Rightarrow> (ApiOk 201 (new_user (unix_of (ce_now ce)) (ce_fresh ce) u), st2))))))"

section \<open>How many guesses\<close>

text \<open>
  Attempts one after another: the time, the source and whether the credentials are right. The result is
  the limiter and the times at which a password of the given source was checked, latest first.
\<close>

fun login_run :: "string \<Rightarrow> (gotime \<times> string \<times> bool) list \<Rightarrow> login_limiter \<Rightarrow> gotime list \<Rightarrow> login_limiter \<times> gotime list" where
  "login_run k [] l ts = (l, ts)"
| "login_run k ((now, key, right) # as) l ts =
     (if \<not> allowed now key l then login_run k as l ts
      else login_run k as (if right then success key l else fail_attempt now key l) (if key = k then now # ts else ts))"

definition per_window :: "duration \<Rightarrow> gotime list \<Rightarrow> bool" where
  "per_window w ts \<longleftrightarrow> (\<forall>t. length (filter (\<lambda>x. t \<le> x \<and> x \<le> t + w) ts) \<le> 10)"

text \<open>
  The limiter's entry for a source counts the checks of the current round; every earlier check is more
  than the window before it. Without an entry every check is more than the window ago.
\<close>

fun round_ok :: "duration \<Rightarrow> gotime \<Rightarrow> gotime list \<Rightarrow> login_attempt option \<Rightarrow> bool" where
  "round_ok w now ts None \<longleftrightarrow> (\<forall>x \<in> set ts. x + w < now)"
| "round_ok w now ts (Some a) \<longleftrightarrow> (\<exists>old cur. ts = cur @ old \<and> length cur = la_fails a \<and> la_fails a \<le> 10 \<and> cur \<noteq> []
     \<and> la_until a = hd cur + w \<and> (\<forall>x \<in> set old. \<forall>y \<in> set cur. x + w < y) \<and> (\<forall>x \<in> set ts. x \<le> hd cur))"

definition tracks :: "string \<Rightarrow> gotime \<Rightarrow> login_limiter \<Rightarrow> gotime list \<Rightarrow> bool" where
  "tracks k now l ts \<longleftrightarrow> wf_gomap (lm_attempts l) \<and> lm_maxFails l = 10 \<and> per_window (lm_window l) ts
     \<and> round_ok (lm_window l) now ts (mget (lm_attempts l) k)"

lemma per_window_append:
  assumes "per_window w old" "length cur \<le> 10" "\<forall>x \<in> set old. \<forall>y \<in> set cur. x + w < y"
  shows "per_window w (cur @ old)"
  unfolding per_window_def
proof
  fix t
  show "length (filter (\<lambda>x. t \<le> x \<and> x \<le> t + w) (cur @ old)) \<le> 10"
  proof (cases "filter (\<lambda>x. t \<le> x \<and> x \<le> t + w) cur = []")
    case True
    with assms(1) show ?thesis by (simp add: per_window_def)
  next
    case False
    then obtain y where y: "y \<in> set cur" "y \<le> t + w" by (auto simp: filter_empty_conv)
    have "\<not> t \<le> x" if "x \<in> set old" for x using assms(3) that y by fastforce
    then have "filter (\<lambda>x. t \<le> x \<and> x \<le> t + w) old = []" by (auto simp: filter_empty_conv)
    then have "length (filter (\<lambda>x. t \<le> x \<and> x \<le> t + w) (cur @ old)) \<le> length cur" by simp
    with assms(2) show ?thesis by linarith
  qed
qed

lemma per_window_suffix: "per_window w (cur @ old) \<Longrightarrow> per_window w old"
  unfolding per_window_def by (metis filter_append le_trans length_append le_add2)

lemma fail_entry:
  assumes "wf_gomap (lm_attempts l)" "0 \<le> lm_window l"
  shows "mget (lm_attempts (fail_attempt now key l)) k =
    (if k = key then Some (next_attempt now key l)
     else (case mget (lm_attempts l) k of
             Some a \<Rightarrow> if cleans now key l \<and> la_until a < now then None else Some a
           | None \<Rightarrow> None))"
proof -
  have wf: "wf_gomap (mput key (next_attempt now key l) (lm_attempts l))" using assms(1) by (rule wf_gomap_mput)
  have u: "\<not> la_until (next_attempt now key l) < now" using assms(2) by (simp add: next_attempt_def)
  show ?thesis
    using mget_filter [OF wf, of "\<lambda>_ v. \<not> la_until v < now" k] u
    by (cases "cleans now key l"; cases "mget (lm_attempts l) k") (auto simp: fail_attempt_def)
qed

lemma fail_wf: "wf_gomap (lm_attempts l) \<Longrightarrow> wf_gomap (lm_attempts (fail_attempt now key l))
    \<and> lm_maxFails (fail_attempt now key l) = lm_maxFails l \<and> lm_window (fail_attempt now key l) = lm_window l"
  by (simp add: fail_attempt_def Let_def distinct_map_filter)

lemma success_fields [simp]:
  "lm_maxFails (success key l) = lm_maxFails l" "lm_window (success key l) = lm_window l"
  "lm_attempts (success key l) = mdel key (lm_attempts l)"
  by (simp_all add: success_def)

lemma round_later: "round_ok w now ts e \<Longrightarrow> now \<le> now' \<Longrightarrow> round_ok w now' ts e"
  by (cases e) fastforce+

lemma round_stale: "round_ok w now ts (Some a) \<Longrightarrow> la_until a < now \<Longrightarrow> round_ok w now ts None"
  by fastforce

lemma tracks_later: "tracks k now l ts \<Longrightarrow> now \<le> now' \<Longrightarrow> tracks k now' l ts"
  using round_later by (fastforce simp: tracks_def)

lemma tracks_success_other: "tracks k now l ts \<Longrightarrow> key \<noteq> k \<Longrightarrow> tracks k now (success key l) ts"
  by (simp add: tracks_def)

lemma tracks_fail_other:
  assumes "tracks k now l ts" "0 \<le> lm_window l" "key \<noteq> k"
  shows "tracks k now (fail_attempt now key l) ts"
proof -
  have wf: "wf_gomap (lm_attempts l)" and ro: "round_ok (lm_window l) now ts (mget (lm_attempts l) k)"
    using assms(1) by (simp_all add: tracks_def)
  have "round_ok (lm_window l) now ts (mget (lm_attempts (fail_attempt now key l)) k)"
    using fail_entry [OF wf assms(2), of now key k] assms(3) ro round_stale
    by (cases "mget (lm_attempts l) k"; cases "cleans now key l") (simp_all del: round_ok.simps split: if_splits)
  with assms(1) fail_wf [OF wf, of now key] show ?thesis by (simp add: tracks_def)
qed

lemma round_fail:
  assumes "round_ok w now ts e" "per_window w ts" "\<forall>x \<in> set ts. x \<le> now" "0 \<le> w"
    and "case e of Some a \<Rightarrow> la_until a < now \<or> la_fails a < 10 | None \<Rightarrow> True"
    and n: "n = (case e of Some a \<Rightarrow> if la_until a < now then 0 else la_fails a | None \<Rightarrow> 0)"
  shows "round_ok w now (now # ts) (Some \<lparr>la_fails = Suc n, la_until = now + w\<rparr>) \<and> per_window w (now # ts)"
proof (cases "\<exists>a. e = Some a \<and> \<not> la_until a < now")
  case True
  then obtain a where a: "e = Some a" "\<not> la_until a < now" by blast
  with assms(1) obtain old cur where oc: "ts = cur @ old" "length cur = la_fails a" "cur \<noteq> []"
    "\<forall>x \<in> set old. \<forall>y \<in> set cur. x + w < y"
    by auto
  have few: "la_fails a < 10" using assms(5) a by simp
  obtain c where c: "c \<in> set cur" using oc(3) by (cases cur) auto
  have gap: "\<forall>x \<in> set old. \<forall>y \<in> set (now # cur). x + w < y"
  proof (intro ballI)
    fix x y assume x: "x \<in> set old" and y: "y \<in> set (now # cur)"
    have "c \<le> now" using c assms(3) oc(1) by simp
    with x c oc(4) have "x + w < now" by fastforce
    with x y oc(4) show "x + w < y" by auto
  qed
  have "per_window w old" using per_window_suffix assms(2) oc(1) by blast
  then have pw: "per_window w ((now # cur) @ old)" using few gap oc(2) by (intro per_window_append) simp_all
  have nn: "n = length cur" using n a oc(2) by simp
  have "\<exists>old' cur'. now # ts = cur' @ old' \<and> length cur' = Suc n \<and> Suc n \<le> 10 \<and> cur' \<noteq> [] \<and> now + w = hd cur' + w
      \<and> (\<forall>x \<in> set old'. \<forall>y \<in> set cur'. x + w < y) \<and> (\<forall>x \<in> set (now # ts). x \<le> hd cur')"
    using gap few oc(1,2) assms(3) nn by (intro exI [of _ old] exI [of _ "now # cur"]) simp
  with pw oc(1) show ?thesis by simp
next
  case False
  then have "round_ok w now ts None" using assms(1) round_stale by (cases e) (simp_all del: round_ok.simps)
  then have gone: "\<forall>x \<in> set ts. x + w < now" by simp
  have pw: "per_window w ([now] @ ts)" using assms(2) gone by (intro per_window_append) simp_all
  have nn: "n = 0" using False n by (auto split: option.splits)
  have "\<exists>old' cur'. now # ts = cur' @ old' \<and> length cur' = Suc n \<and> Suc n \<le> 10 \<and> cur' \<noteq> [] \<and> now + w = hd cur' + w
      \<and> (\<forall>x \<in> set old'. \<forall>y \<in> set cur'. x + w < y) \<and> (\<forall>x \<in> set (now # ts). x \<le> hd cur')"
    using gone assms(3) nn by (intro exI [of _ ts] exI [of _ "[now]"]) simp
  with pw show ?thesis by simp
qed

lemma tracks_fail_same:
  assumes "tracks k now l ts" "0 \<le> lm_window l" "allowed now k l" "\<forall>x \<in> set ts. x \<le> now"
  shows "tracks k now (fail_attempt now k l) (now # ts)"
proof -
  have t: "wf_gomap (lm_attempts l)" "lm_maxFails l = 10" "per_window (lm_window l) ts"
    "round_ok (lm_window l) now ts (mget (lm_attempts l) k)"
    using assms(1) by (simp_all add: tracks_def)
  have "case mget (lm_attempts l) k of Some a \<Rightarrow> la_until a < now \<or> la_fails a < 10 | None \<Rightarrow> True"
    using assms(3) t(2) by (simp add: allowed_def split: option.splits)
  from round_fail [OF t(4,3) assms(4,2) this refl]
  show ?thesis
    using fail_entry [OF t(1) assms(2), of now k k] fail_wf [OF t(1), of now k] t(2)
    by (simp add: tracks_def next_attempt_def del: round_ok.simps)
qed

lemma login_run_tracks:
  assumes "tracks k now l ts" "0 \<le> lm_window l" "\<forall>x \<in> set ts. x \<le> now" "sorted (now # map fst as)"
    "\<forall>(t, key, right) \<in> set as. key = k \<longrightarrow> \<not> right" "login_run k as l ts = (l', ts')"
  shows "per_window (lm_window l) ts'"
  using assms
proof (induction k as l ts arbitrary: now rule: login_run.induct)
  case (1 k l ts)
  then show ?case by (simp add: tracks_def del: round_ok.simps)
next
  case (2 k t key right as l ts)
  have t: "now \<le> t" "sorted (t # map fst as)" "\<forall>x \<in> set ts. x \<le> t" using "2.prems"(3,4) by fastforce+
  note tr = tracks_later [OF "2.prems"(1) t(1)]
  show ?case
  proof (cases "allowed t key l")
    case False
    with "2.IH"(1) [OF False tr] "2.prems" t show ?thesis by simp
  next
    case True
    have wf: "wf_gomap (lm_attempts l)" using tr by (simp add: tracks_def)
    let ?l = "if right then success key l else fail_attempt t key l" and ?ts = "if key = k then t # ts else ts"
    have w: "lm_window ?l = lm_window l" using fail_wf [OF wf] by (simp add: success_def)
    have "tracks k t ?l ?ts"
    proof (cases "key = k")
      case same: True
      then have "\<not> right" using "2.prems"(5) by auto
      with tracks_fail_same [OF tr "2.prems"(2) _ t(3)] True same show ?thesis by simp
    next
      case False
      with tracks_fail_other [OF tr "2.prems"(2) False] tracks_success_other [OF tr False] show ?thesis by simp
    qed
    moreover have "\<forall>x \<in> set ?ts. x \<le> t" using t(3) by simp
    ultimately show ?thesis
      using "2.IH"(2) [of t] True "2.prems"(2,5,6) t(2) by (simp add: w)
  qed
qed


section \<open>A login's session\<close>

lemma on_db_simps: "on_db f st = (case f (en_db (as_eng st)) of
    (Inl x, d) \<Rightarrow> (Inl (EDB x), st\<lparr>as_eng := (as_eng st)\<lparr>en_db := d\<rparr>\<rparr>)
  | (Inr x, d) \<Rightarrow> (Inr x, st\<lparr>as_eng := (as_eng st)\<lparr>en_db := d\<rparr>\<rparr>))"
  by (simp add: on_db_def run_db_def split: prod.split sum.split)

abbreviation api_db :: "api_state \<Rightarrow> db" where
  "api_db st \<equiv> en_db (as_eng st)"

lemma AddAudit_tables:
  "AddAudit now fresh e d = (r, d') \<Longrightarrow> db_users d' = db_users d \<and> db_sessions d' = db_sessions d
    \<and> (db_faults d = [] \<longrightarrow> db_faults d' = [])"
  by (auto simp: AddAudit_def stmt_def Let_def split: list.splits bool.splits if_splits)

lemma audit_keeps:
  "db_users (api_db (audit now fresh u a t d st)) = db_users (api_db st)"
  "db_sessions (api_db (audit now fresh u a t d st)) = db_sessions (api_db st)"
  "db_faults (api_db st) = [] \<Longrightarrow> db_faults (api_db (audit now fresh u a t d st)) = []"
  by (auto simp: audit_def on_db_simps split: prod.split sum.split dest: AddAudit_tables)

lemma login_ok:
  assumes "handleLogin AL ce (Some (email, pw)) r st = (ApiOk n (u, c), st')" "db_faults (api_db st) = []"
  defines "sess \<equiv> \<lparr>ses_Token = ce_token ce, ses_UserID = usr_ID u, ses_UserAgent = ar_UserAgent r,
              ses_IP = clientIP r, ses_CreatedAt = ce_now ce, ses_ExpiresAt = ce_now ce + sessionTTL\<rparr>"
  shows "n = 200 \<and> find (\<lambda>x. usr_Email x = login_key AL email) (db_users (api_db st)) = Some u \<and> \<not> usr_Disabled u
    \<and> ax_check AL (usr_PasswordHash u) pw \<and> co_Value c = ce_token ce
    \<and> fst (CreateSession (ax_sha AL) sess (api_db st)) = Inr ()
    \<and> db_sessions (api_db st') = db_sessions (snd (CreateSession (ax_sha AL) sess (api_db st)))
    \<and> db_users (api_db st') = db_users (api_db st) \<and> db_faults (api_db st') = []"
proof -
  let ?q = "GetUserByEmail (login_key AL email) (api_db st)"
  have q: "?q = (case find (\<lambda>x. usr_Email x = login_key AL email) (db_users (api_db st)) of None \<Rightarrow> Inl NotFound | Some r \<Rightarrow> Inr r, api_db st)"
    using assms(2) by (simp add: GetUserByEmail_def t_get_def)
  have st1: "st\<lparr>as_eng := (as_eng st)\<lparr>en_db := api_db st\<rparr>\<rparr> = st" by simp
  from assms(1) q obtain "n = 200" and f: "find (\<lambda>x. usr_Email x = login_key AL email) (db_users (api_db st)) = Some u"
    and ok: "\<not> usr_Disabled u" "ax_check AL (usr_PasswordHash u) pw"
    by (auto simp: handleLogin_def Let_def on_db_simps split: if_splits option.splits prod.splits sum.splits)
  let ?st2 = "st\<lparr>as_limiter := success (clientIP r) (as_limiter st)\<rparr>"
  obtain cr d where cs: "CreateSession (ax_sha AL) sess (api_db st) = (cr, d)" by fastforce
  have fr: "db_users d = db_users (api_db st)" "db_faults d = []"
    using cs assms(2) by (auto simp: CreateSession_def t_insert_def split: if_splits)
  have al: "allowed (ce_now ce) (clientIP r) (as_limiter st)"
    using assms(1) by (auto simp: handleLogin_def Let_def split: if_splits)
  have l: "on_db (GetUserByEmail (login_key AL email)) st = (Inr u, st)"
    by (simp add: on_db_simps q f)
  have h0: "handleLogin AL ce (Some (email, pw)) r st =
    (case on_db (CreateSession (ax_sha AL) sess) ?st2 of
       (Inl _, st3) \<Rightarrow> (ApiErr 500 ''could not create session'', st3)
     | (Inr _, st3) \<Rightarrow> (ApiOk 200 (u, setSessionCookie (ce_secure ce) (ses_Token sess) (ses_ExpiresAt sess)),
                       audit (ce_now ce) (ce_fresh ce) None ''auth.login'' (usr_ID u) [] st3))"
    using al ok unfolding sess_def by (simp add: handleLogin_def Let_def l)
  have cs': "on_db (CreateSession (ax_sha AL) sess) ?st2 =
    (case cr of Inl x \<Rightarrow> (Inl (EDB x), ?st2\<lparr>as_eng := (as_eng st)\<lparr>en_db := d\<rparr>\<rparr>) | Inr x \<Rightarrow> (Inr x, ?st2\<lparr>as_eng := (as_eng st)\<lparr>en_db := d\<rparr>\<rparr>))"
    by (simp add: on_db_simps cs split: sum.split)
  note h = h0 [unfolded cs']
  show ?thesis
  proof (cases cr)
    case (Inl x)
    with h assms(1) show ?thesis by simp
  next
    case (Inr x)
    let ?st3 = "?st2\<lparr>as_eng := (as_eng st)\<lparr>en_db := d\<rparr>\<rparr>"
    have "c = setSessionCookie (ce_secure ce) (ses_Token sess) (ses_ExpiresAt sess)"
      "st' = audit (ce_now ce) (ce_fresh ce) None ''auth.login'' (usr_ID u) [] ?st3"
      using h assms(1) Inr by simp_all
    then show ?thesis using f ok \<open>n = 200\<close> cs Inr fr audit_keeps [where st = ?st3]
      by (simp add: setSessionCookie_def sess_def)
  qed
qed

lemma login_session_lookup:
  assumes "fst (CreateSession sha s d) = Inr ()" "sessions.ok d" "db_faults d = []"
    and d': "db_sessions d' = db_sessions (snd (CreateSession sha s d))" "db_faults d' = []"
  shows "fst (GetSession sha now (ses_Token s) d') =
      (if now \<le> of_unix (unix_of (ses_ExpiresAt s))
       then Inr (s\<lparr>ses_CreatedAt := of_unix (unix_of (ses_CreatedAt s)), ses_ExpiresAt := of_unix (unix_of (ses_ExpiresAt s))\<rparr>)
       else Inl NotFound)
    \<and> (now \<le> of_unix (unix_of (ses_ExpiresAt s)) \<longrightarrow> snd (GetSession sha now (ses_Token s) d') = d')"
proof -
  let ?r = "s\<lparr>ses_Token := hashSessionToken sha (ses_Token s),
    ses_CreatedAt := of_unix (unix_of (ses_CreatedAt s)), ses_ExpiresAt := of_unix (unix_of (ses_ExpiresAt s))\<rparr>"
  have look: "find (\<lambda>x. ses_Token x = hashSessionToken sha (ses_Token s)) (db_sessions d') = Some ?r"
    using sessions.insert_lookup [OF assms(2), of ?r] assms(1)
    by (simp add: CreateSession_def sessions.lookup_def d'(1))
  have "GetSession sha now (ses_Token s) d' =
      (if now \<le> of_unix (unix_of (ses_ExpiresAt s))
       then (Inr (s\<lparr>ses_CreatedAt := of_unix (unix_of (ses_CreatedAt s)), ses_ExpiresAt := of_unix (unix_of (ses_ExpiresAt s))\<rparr>), d')
       else (Inl NotFound, snd (DeleteSession sha (ses_Token s) d')))"
    using look d'(2) by (simp add: GetSession_def and_then_def t_get_def)
  then show ?thesis by simp
qed

text \<open>
  A login is checked and its session lasts a week: a successful login was for a stored, enabled user
  with that address, trimmed and in lower case, whose password check passed, and the cookie it sets
  authenticates as that user until its expiry, to the second, and as nobody afterwards.
\<close>

theorem login_session:
  assumes "handleLogin AL ce (Some (email, pw)) r st = (ApiOk n (u, c), st')" "db_faults (api_db st) = []"
    and "users.ok (api_db st)" "sessions.ok (api_db st)"
  shows "u \<in> set (db_users (api_db st)) \<and> usr_Email u = login_key AL email \<and> \<not> usr_Disabled u
    \<and> ax_check AL (usr_PasswordHash u) pw
    \<and> fst (authenticate AL t (r'\<lparr>ar_Cookie := Some (co_Value c)\<rparr>) st')
        = (if t \<le> of_unix (unix_of (ce_now ce + sessionTTL)) then Some u else None)"
proof -
  define sess where "sess = \<lparr>ses_Token = ce_token ce, ses_UserID = usr_ID u, ses_UserAgent = ar_UserAgent r,
              ses_IP = clientIP r, ses_CreatedAt = ce_now ce, ses_ExpiresAt = ce_now ce + sessionTTL\<rparr>"
  note l = login_ok [OF assms(1,2), folded sess_def]
  from l have f: "find (\<lambda>x. usr_Email x = login_key AL email) (db_users (api_db st)) = Some u" by blast
  then have u: "u \<in> set (db_users (api_db st))" "usr_Email u = login_key AL email" by (auto simp: find_Some_iff)
  have g: "GetUser (usr_ID u) (api_db st') = (Inr u, api_db st')"
    using users.lookup_Some [OF assms(3) u(1)] l by (simp add: GetUser_def t_get_def users.lookup_def)
  have st': "st'\<lparr>as_eng := (as_eng st')\<lparr>en_db := api_db st'\<rparr>\<rparr> = st'" by simp
  let ?lim = "of_unix (unix_of (ce_now ce + sessionTTL))"
  have s: "fst (GetSession (ax_sha AL) t (ce_token ce) (api_db st')) =
      (if t \<le> ?lim then Inr (sess\<lparr>ses_CreatedAt := of_unix (unix_of (ce_now ce)), ses_ExpiresAt := ?lim\<rparr>) else Inl NotFound)
    \<and> (t \<le> ?lim \<longrightarrow> snd (GetSession (ax_sha AL) t (ce_token ce) (api_db st')) = api_db st')"
    using login_session_lookup [of "ax_sha AL" sess "api_db st" "api_db st'" t] l assms(2,4) by (simp add: sess_def)
  have "fst (authenticate AL t (r'\<lparr>ar_Cookie := Some (co_Value c)\<rparr>) st') = (if t \<le> ?lim then Some u else None)"
  proof (cases "t \<le> ?lim")
    case True
    with s have "GetSession (ax_sha AL) t (ce_token ce) (api_db st') =
        (Inr (sess\<lparr>ses_CreatedAt := of_unix (unix_of (ce_now ce)), ses_ExpiresAt := ?lim\<rparr>), api_db st')"
      by (simp add: prod_eq_iff)
    then show ?thesis using l g True by (simp add: authenticate_def on_db_simps sess_def)
  next
    case False
    with s obtain d where "GetSession (ax_sha AL) t (ce_token ce) (api_db st') = (Inl NotFound, d)"
      by (cases "GetSession (ax_sha AL) t (ce_token ce) (api_db st')") simp
    then show ?thesis using l False by (simp add: authenticate_def on_db_simps)
  qed
  with u l show ?thesis by blast
qed

text \<open>What a role gate lets through.\<close>

lemma requireRole_refuses:
  assumes "authenticate AL now r st = (Some u, st1)" "usr_Role u \<notin> set roles"
  shows "requireRole AL now roles h r st = (ApiErr 403 ''insufficient permissions'', st1)"
  using assms by (simp add: requireRole_def requireAuth_def)

lemma requireRole_anonymous:
  "authenticate AL now r st = (None, st1) \<Longrightarrow> requireRole AL now roles h r st = (ApiErr 401 ''authentication required'', st1)"
  by (simp add: requireRole_def requireAuth_def)

section \<open>Witnesses\<close>


definition anna :: user where
  "anna = \<lparr>usr_ID = ''1'', usr_Email = ''anna@x'', usr_Name = ''Anna'', usr_PasswordHash = ''pw'', usr_Role = RoleAdmin,
     usr_Disabled = False, usr_CreatedAt = 0, usr_UpdatedAt = 0\<rparr>"

definition plain_auth :: auth_libs where
  "plain_auth = \<lparr>ax_sha = rev, ax_hash = Inr, ax_check = (=), ax_uni = id, ax_errText = (\<lambda>_. ''error'')\<rparr>"

definition anna_state :: api_state where
  "anna_state = \<lparr>as_eng = \<lparr>en_db = empty_db\<lparr>db_users := [anna]\<rparr>, en_env = [], en_rendered = None, en_version = 0, en_edgeHosts = [],
     en_edgeFlags = (False, False), en_banHits = [], en_banReload = False, en_banConfig = None, en_recoverLevel = 0,
     en_lastRecovery = [], en_lastRecoveryAt = zero_time, en_wafStatus = (True, []), en_alerts = []\<rparr>, as_limiter = newLoginLimiter\<rparr>"

definition anna_call :: call_env where
  "anna_call = \<lparr>ce_now = 0, ce_fresh = ''a'', ce_token = ''tok'', ce_secure = True\<rparr>"

definition anna_request :: api_request where
  "anna_request = \<lparr>ar_Cookie = None, ar_RemoteAddr = ''1.2.3.4'', ar_UserAgent = []\<rparr>"

lemma anna_logs_in: "\<exists>st'. handleLogin plain_auth anna_call (Some (''anna@x'', ''pw'')) anna_request anna_state
    = (ApiOk 200 (anna, setSessionCookie True ''tok'' sessionTTL), st')"
proof -
  have k: "login_key plain_auth ''anna@x'' = ''anna@x''" by code_simp
  have "on_db (GetUserByEmail (login_key plain_auth ''anna@x'')) anna_state = (Inr anna, anna_state)"
    unfolding k by (simp add: on_db_simps GetUserByEmail_def t_get_def anna_state_def empty_db_def anna_def)
  then show ?thesis
    by (simp add: handleLogin_def Let_def allowed_def newLoginLimiter_def anna_state_def)
      (simp add: on_db_simps CreateSession_def t_insert_def empty_db_def anna_def plain_auth_def anna_call_def)
qed

lemma login_session_witness:
  "\<exists>st'. fst (authenticate plain_auth second (anna_request\<lparr>ar_Cookie := Some ''tok''\<rparr>) st') = Some anna"
proof -
  obtain st' where l: "handleLogin plain_auth anna_call (Some (''anna@x'', ''pw'')) anna_request anna_state
    = (ApiOk 200 (anna, setSessionCookie True ''tok'' sessionTTL), st')"
    using anna_logs_in by blast
  have "db_faults (api_db anna_state) = []" "users.ok (api_db anna_state)" "sessions.ok (api_db anna_state)"
    by (simp_all add: anna_state_def empty_db_def users.ok_def sessions.ok_def)
  from login_session [OF l this, of second anna_request] show ?thesis
    by (intro exI [of _ st'])
      (simp add: setSessionCookie_def anna_call_def of_unix_def unix_of_def sessionTTL_def)
qed

end
