(* ===== verification/EngineProps.thy ===== *)
theory EngineProps
  imports Engine RenderRefs
begin

text \<open>
  What the orchestration core promises: a failed reload leaves the served configuration alone, a
  successful one serves what the database says, every served configuration is in the snapshot history,
  a preview has no effect, and the ETag of the provider endpoint is the hash of what it serves.
\<close>

section \<open>Reading the database\<close>

definition reads :: "'a dbop \<Rightarrow> bool" where
  "reads f \<longleftrightarrow> (\<forall>d. \<exists>fs. snd (f d) = d\<lparr>db_faults := fs\<rparr>)"

definition only_faults :: "'a eop \<Rightarrow> bool" where
  "only_faults f \<longleftrightarrow> (\<forall>e. \<exists>fs. snd (f e) = e\<lparr>en_db := (en_db e)\<lparr>db_faults := fs\<rparr>\<rparr>)"

named_theorems reading

lemma reads_stmt: "(\<And>d. snd (f d) = d) \<Longrightarrow> reads (stmt f)"
  unfolding reads_def
proof
  fix d assume f: "\<And>d. snd (f d) = d"
  show "\<exists>fs. snd (stmt f d) = d\<lparr>db_faults := fs\<rparr>"
  proof (cases "db_faults d")
    case Nil
    then have "snd (stmt f d) = d\<lparr>db_faults := []\<rparr>" using f by (cases d) simp
    then show ?thesis ..
  next
    case (Cons b fs)
    then have "snd (stmt f d) = d\<lparr>db_faults := fs\<rparr>" using f by (cases b) (simp_all add: stmt_def)
    then show ?thesis ..
  qed
qed

lemma reads_lists [reading]:
  "reads ListMiddlewares" "reads ListCertificates" "reads ListAccessLists" "reads (ListActiveBans now)"
  "reads ListAllSettings" "reads LatestSnapshotVersion" "reads (GetSnapshot v)" "reads (GetSetting k)"
  by (simp_all add: ListMiddlewares_def ListCertificates_def ListAccessLists_def t_list_def ListActiveBans_def
      ListAllSettings_def LatestSnapshotVersion_def GetSnapshot_def t_get_def GetSetting_def reads_stmt)

lemma reads_then:
  assumes "reads f" "\<And>x. reads (g x)"
  shows "reads (and_then f g)"
  unfolding reads_def
proof
  fix d
  obtain r d1 where f: "f d = (r, d1)" by (cases "f d")
  from assms(1) f obtain fs where d1: "d1 = d\<lparr>db_faults := fs\<rparr>" by (metis reads_def snd_conv)
  show "\<exists>fs. snd (and_then f g d) = d\<lparr>db_faults := fs\<rparr>"
  proof (cases r)
    case (Inr x)
    from assms(2) [of x] obtain fs' where "snd (g x d1) = d1\<lparr>db_faults := fs'\<rparr>" by (auto simp: reads_def)
    then show ?thesis using f d1 Inr by (auto simp: and_then_def)
  qed (use f d1 in \<open>auto simp: and_then_def\<close>)
qed

lemma reads_done: "reads (done_with x)"
proof -
  have "snd (done_with x d) = d\<lparr>db_faults := db_faults d\<rparr>" for d by (simp add: done_with_def)
  then show ?thesis unfolding reads_def by blast
qed

lemma reads_ListHosts [reading]: "reads (ListHosts k)"
  unfolding ListHosts_def t_list_def by (intro reads_then reads_done reads_stmt) simp

lemma only_faults_db [reading]:
  assumes "reads f"
  shows "only_faults (run_db f)"
  unfolding only_faults_def
proof
  fix e :: engine
  obtain r d where f: "f (en_db e) = (r, d)" by (cases "f (en_db e)")
  with assms obtain fs where "d = (en_db e)\<lparr>db_faults := fs\<rparr>" by (metis reads_def snd_conv)
  then show "\<exists>fs. snd (run_db f e) = e\<lparr>en_db := (en_db e)\<lparr>db_faults := fs\<rparr>\<rparr>"
    by (cases r) (auto simp: run_db_def f)
qed

lemma only_faults_then [reading]:
  assumes "only_faults f" "\<And>x. only_faults (g x)"
  shows "only_faults (e_then f g)"
  unfolding only_faults_def
proof
  fix e
  obtain r e1 where f: "f e = (r, e1)" by (cases "f e")
  with assms(1) obtain fs where e1: "e1 = e\<lparr>en_db := (en_db e)\<lparr>db_faults := fs\<rparr>\<rparr>" by (metis only_faults_def snd_conv)
  show "\<exists>fs. snd (e_then f g e) = e\<lparr>en_db := (en_db e)\<lparr>db_faults := fs\<rparr>\<rparr>"
  proof (cases r)
    case (Inr x)
    from assms(2) [of x] obtain fs' where "snd (g x e1) = e1\<lparr>en_db := (en_db e1)\<lparr>db_faults := fs'\<rparr>\<rparr>"
      by (auto simp: only_faults_def)
    then show ?thesis using f e1 Inr by (auto simp: e_then_def)
  qed (use f e1 in \<open>auto simp: e_then_def\<close>)
qed

lemma only_faults_id: "(\<And>e. snd (f e) = e) \<Longrightarrow> only_faults f"
proof -
  assume f: "\<And>e. snd (f e) = e"
  have "snd (f e) = e\<lparr>en_db := (en_db e)\<lparr>db_faults := db_faults (en_db e)\<rparr>\<rparr>" for e by (simp add: f)
  then show ?thesis unfolding only_faults_def by blast
qed

lemma only_faults_render [reading]: "only_faults (renderConfig L uni cfg now)"
  unfolding renderConfig_def
  by (intro reading only_faults_id) (auto simp: e_fail_def e_return_def split: sum.splits)

text \<open>
  A preview has no effect: whatever it returns, the engine and the database are as before, up to
  the statements that ran.
\<close>

theorem preview_is_pure:
  "\<exists>fs. snd (Preview L uni cfg now e) = e\<lparr>en_db := (en_db e)\<lparr>db_faults := fs\<rparr>\<rparr>"
proof -
  have "only_faults (Preview L uni cfg now)"
    unfolding Preview_def by (intro reading only_faults_id) (simp add: e_return_def split_beta)
  then show ?thesis by (simp add: only_faults_def)
qed

section \<open>Reload\<close>

text \<open>A reload after the reads: edge, comparison, snapshot, swap.\<close>

definition commit_reload :: "eng_cfg \<Rightarrow> int \<Rightarrow> render_result \<Rightarrow> host list \<Rightarrow> bool \<times> bool \<Rightarrow> render_result eop" where
  "commit_reload cfg now res hosts flags =
     e_then (e_update (sync_edge cfg hosts flags)) (\<lambda>_ e.
       if (case en_rendered e of Some s \<Rightarrow> sv_Hash s = rr_Hash res | None \<Rightarrow> False)
       then (Inr res, set_served res e)
       else
         e_then (run_db LatestSnapshotVersion) (\<lambda>v.
         e_then (run_db (AddSnapshot now \<lparr>sn_Version = v + 1, sn_JSON = rr_JSON res, sn_Hash = rr_Hash res,
                                          sn_Valid = True, sn_CreatedAt = zero_time\<rparr>)) (\<lambda>_.
         e_then (e_ignore (run_db (PruneSnapshots 50))) (\<lambda>_.
         e_then (e_update (\<lambda>e. (set_served res e)\<lparr>en_version := v + 1\<rparr>)) (\<lambda>_.
           e_return res)))) e)"

lemma Reload_commit:
  "Reload L uni cfg now = e_then (renderConfig L uni cfg now) (\<lambda>(res, hosts, flags). commit_reload cfg now res hosts flags)"
  by (simp add: Reload_def commit_reload_def)

lemma sync_edge_simps [simp]:
  "en_rendered (sync_edge cfg hs fl e) = en_rendered e" "en_version (sync_edge cfg hs fl e) = en_version e"
  "en_db (sync_edge cfg hs fl e) = en_db e"
  by (simp_all add: sync_edge_def)

lemma run_db_frame: "snd (run_db f e) = e\<lparr>en_db := snd (f (en_db e))\<rparr>"
  by (simp add: run_db_def split: prod.splits sum.splits)

lemma AddSnapshot_refused: "fst (AddSnapshot now s d) = Inl x \<Longrightarrow> db_snapshots (snd (AddSnapshot now s d)) = db_snapshots d"
  by (auto simp: AddSnapshot_def stmt_def split: list.splits bool.splits if_splits)

lemma AddSnapshot_stored: "fst (AddSnapshot now s d) = Inr u \<Longrightarrow>
    db_snapshots (snd (AddSnapshot now s d)) = db_snapshots d @ [s\<lparr>sn_CreatedAt := of_unix now\<rparr>]"
  by (auto simp: AddSnapshot_def stmt_def split: list.splits bool.splits if_splits)

lemma only_faults_frame:
  assumes "only_faults f" "f e = (r, e')"
  shows "en_rendered e' = en_rendered e \<and> en_version e' = en_version e
    \<and> db_snapshots (en_db e') = db_snapshots (en_db e) \<and> en_edgeHosts e' = en_edgeHosts e
    \<and> en_edgeFlags e' = en_edgeFlags e"
proof -
  from assms(1) obtain fs where "snd (f e) = e\<lparr>en_db := (en_db e)\<lparr>db_faults := fs\<rparr>\<rparr>"
    by (auto simp: only_faults_def)
  with assms(2) show ?thesis by simp
qed

text \<open>The three ways a commit ends.\<close>

lemma commit_cases:
  assumes e0_def: "e0 = sync_edge cfg hosts flags (e :: engine)"
    and c: "commit_reload cfg now res hosts flags e = (r, e')"
  shows "(\<exists>s. en_rendered e = Some s \<and> sv_Hash s = rr_Hash res \<and> r = Inr res \<and> e' = set_served res e0)
    \<or> (\<exists>x. r = Inl x \<and> en_rendered e' = en_rendered e \<and> en_version e' = en_version e
          \<and> db_snapshots (en_db e') = db_snapshots (en_db e))
    \<or> (\<exists>v d1 d2 d3. fst (LatestSnapshotVersion (en_db e)) = Inr v
          \<and> d1 = snd (LatestSnapshotVersion (en_db e))
          \<and> AddSnapshot now \<lparr>sn_Version = v + 1, sn_JSON = rr_JSON res, sn_Hash = rr_Hash res,
                 sn_Valid = True, sn_CreatedAt = zero_time\<rparr> d1 = (Inr (), d2)
          \<and> d3 = snd (PruneSnapshots 50 d2) \<and> r = Inr res
          \<and> e' = (set_served res (e0\<lparr>en_db := d3\<rparr>))\<lparr>en_version := v + 1\<rparr>)"
proof (cases "case en_rendered e of Some s \<Rightarrow> sv_Hash s = rr_Hash res | None \<Rightarrow> False")
  case True
  with c show ?thesis
    by (auto simp: commit_reload_def e_then_def e_update_def e0_def split: option.splits)
next
  case False
  obtain rv d1 where l: "LatestSnapshotVersion (en_db e) = (rv, d1)" by (cases "LatestSnapshotVersion (en_db e)")
  from reads_lists(6) l obtain fs where d1: "d1 = (en_db e)\<lparr>db_faults := fs\<rparr>" by (metis reads_def snd_conv)
  have db0: "en_db e0 = en_db e" by (simp add: e0_def)
  show ?thesis
  proof (cases rv)
    case (Inl x)
    with c False l d1 db0 show ?thesis
      by (auto simp: commit_reload_def e_then_def e_update_def e0_def run_db_def)
  next
    case (Inr v)
    let ?s = "\<lparr>sn_Version = v + 1, sn_JSON = rr_JSON res, sn_Hash = rr_Hash res,
                 sn_Valid = True, sn_CreatedAt = zero_time\<rparr>"
    obtain ra d2 where a: "AddSnapshot now ?s d1 = (ra, d2)" by (cases "AddSnapshot now ?s d1")
    show ?thesis
    proof (cases ra)
      case l2: (Inl x)
      with AddSnapshot_refused [of now ?s d1 x] a d1 have "db_snapshots d2 = db_snapshots (en_db e)" by simp
      with c False l Inr db0 a l2 show ?thesis
        by (auto simp: commit_reload_def e_then_def e_update_def e0_def run_db_def)
    next
      case r2: (Inr u)
      with c False l Inr db0 a show ?thesis
        by (auto simp: commit_reload_def e_then_def e_update_def e0_def run_db_frame e_ignore_def e_return_def
            run_db_def [of LatestSnapshotVersion] run_db_def [of "AddSnapshot now ?s"])
    qed
  qed
qed

text \<open>
  C6: A failed reload is harmless to the proxy: whatever stops it, a database error in any of its
  statements, a raw configuration that does not parse, a rendering or validation error, the served
  document, its version and the snapshot history stay as they were.
\<close>

theorem failed_reload_keeps_served:
  assumes "fst (Reload L uni cfg now e) = Inl x"
  shows "en_rendered (snd (Reload L uni cfg now e)) = en_rendered e
    \<and> en_version (snd (Reload L uni cfg now e)) = en_version e
    \<and> db_snapshots (en_db (snd (Reload L uni cfg now e))) = db_snapshots (en_db e)"
proof -
  obtain r1 e1 where rc: "renderConfig L uni cfg now e = (r1, e1)" by (cases "renderConfig L uni cfg now e")
  note fr = only_faults_frame [OF only_faults_render rc]
  show ?thesis
  proof (cases r1)
    case (Inl y)
    with rc fr show ?thesis by (simp add: Reload_commit e_then_def)
  next
    case (Inr y)
    obtain res hosts flags where y: "y = (res, hosts, flags)" by (cases y)
    obtain r e' where c: "commit_reload cfg now res hosts flags e1 = (r, e')"
      by (cases "commit_reload cfg now res hosts flags e1")
    have R: "Reload L uni cfg now e = (r, e')" using rc Inr y c by (simp add: Reload_commit e_then_def)
    from commit_cases [OF refl c] assms fr show ?thesis unfolding R by auto
  qed
qed

section \<open>The snapshot history\<close>

lemma fold_max_ge: "x \<in> set (v # vs) \<Longrightarrow> x \<le> fold max vs (v :: int)"
proof -
  have "fold max vs v = Max (set (v # vs))" by (rule Max.set_eq_fold [symmetric])
  then show "x \<in> set (v # vs) \<Longrightarrow> x \<le> fold max vs v" by simp
qed

lemma latest_bounds:
  assumes "fst (LatestSnapshotVersion d) = Inr v" "sn \<in> set (db_snapshots d)"
  shows "sn_Version sn \<le> v"
proof -
  from assms(1) have v: "v = (case map sn_Version (db_snapshots d) of [] \<Rightarrow> 0 | v # vs \<Rightarrow> fold max vs v)"
    by (auto simp: LatestSnapshotVersion_def stmt_def split: list.splits bool.splits)
  from assms(2) have "sn_Version sn \<in> set (map sn_Version (db_snapshots d))" by simp
  then show ?thesis unfolding v using fold_max_ge by (auto split: list.split)
qed

lemma sort_key_head:
  assumes "x \<in> set xs" "\<And>y. y \<in> set xs \<Longrightarrow> f x \<le> f y" "0 < n"
  shows "f x \<in> f ` set (take n (sort_key (f :: 'a \<Rightarrow> int) xs))"
proof -
  obtain y ys where ys: "sort_key f xs = y # ys"
    using assms(1) by (metis list.exhaust set_empty2 set_sort empty_iff)
  then have "sorted (map f (y # ys))" "set (y # ys) = set xs" by (metis sorted_sort_key) (metis set_sort ys)
  with assms(1) have "f y \<le> f x" by auto
  moreover have "f x \<le> f y" using assms(2) \<open>set (y # ys) = set xs\<close> by force
  ultimately show ?thesis using ys assms(3) by (cases n) auto
qed

lemma prune_keeps_latest:
  assumes "sn \<in> set (db_snapshots d)" "\<And>x. x \<in> set (db_snapshots d) \<Longrightarrow> sn_Version x \<le> sn_Version sn" "0 < keep"
  shows "sn \<in> set (db_snapshots (snd (PruneSnapshots keep d)))"
proof -
  have "- sn_Version sn \<in> (\<lambda>s. - sn_Version s) ` set (take (nat keep) (sort_key (\<lambda>s. - sn_Version s) (db_snapshots d)))"
    using assms by (intro sort_key_head) auto
  then have "sn_Version sn \<in> sn_Version ` set (take (nat keep) (sort_key (\<lambda>s. - sn_Version s) (db_snapshots d)))"
    by auto
  then show ?thesis using assms(1) by (auto simp: PruneSnapshots_def stmt_def Let_def split: list.splits bool.splits)
qed

definition recorded :: "engine \<Rightarrow> bool" where
  "recorded e \<longleftrightarrow> (\<forall>s. en_rendered e = Some s \<longrightarrow>
     (\<exists>sn \<in> set (db_snapshots (en_db e)). sn_Version sn = en_version e \<and> sn_Hash sn = sv_Hash s))"

text \<open>What can happen to one instance: reloads and rollbacks, and anything that leaves the served
  document and the snapshot table alone, such as the edits of the API.\<close>

inductive eng_step :: "engine \<Rightarrow> engine \<Rightarrow> bool" where
  reload: "eng_step e (snd (Reload L uni cfg now e))"
| rollback: "db_faults (en_db e) = [] \<Longrightarrow> eng_step e (snd (Rollback now v e))"
| other: "en_rendered e' = en_rendered e \<Longrightarrow> en_version e' = en_version e
    \<Longrightarrow> db_snapshots (en_db e') = db_snapshots (en_db e) \<Longrightarrow> eng_step e e'"

inductive_cases eng_stepE [elim]: "eng_step e e'"

lemma recorded_commit:
  assumes "recorded e" "commit_reload cfg now res hosts flags e = (r, e')"
  shows "recorded e'"
  using commit_cases [OF refl assms(2)]
proof (elim disjE exE conjE)
  fix s assume "en_rendered e = Some s" "sv_Hash s = rr_Hash res" "e' = set_served res (sync_edge cfg hosts flags e)"
  with assms(1) show ?thesis by (auto simp: recorded_def set_served_def sync_edge_def)
next
  fix v d1 d2 d3
  assume v: "fst (LatestSnapshotVersion (en_db e)) = Inr v" and d1: "d1 = snd (LatestSnapshotVersion (en_db e))"
    and a: "AddSnapshot now \<lparr>sn_Version = v + 1, sn_JSON = rr_JSON res, sn_Hash = rr_Hash res,
                 sn_Valid = True, sn_CreatedAt = zero_time\<rparr> d1 = (Inr (), d2)"
    and d3: "d3 = snd (PruneSnapshots 50 d2)"
    and e': "e' = (set_served res ((sync_edge cfg hosts flags e)\<lparr>en_db := d3\<rparr>))\<lparr>en_version := v + 1\<rparr>"
  define sn where "sn = \<lparr>sn_Version = v + 1, sn_JSON = rr_JSON res, sn_Hash = rr_Hash res,
                 sn_Valid = True, sn_CreatedAt = of_unix now\<rparr>"
  have old: "db_snapshots d1 = db_snapshots (en_db e)"
    using reads_lists(6) by (metis d1 reads_def db.select_convs(11) db.update_convs(15) db.surjective)
  from AddSnapshot_stored [of now _ d1 "()"] a have d2: "db_snapshots d2 = db_snapshots (en_db e) @ [sn]"
    by (metis (no_types, lifting) config_snapshot.update_convs(5) fst_conv old sn_def snd_conv)
  have "sn \<in> set (db_snapshots d3)" unfolding d3
  proof (rule prune_keeps_latest)
    fix x assume "x \<in> set (db_snapshots d2)"
    then show "sn_Version x \<le> sn_Version sn"
      using latest_bounds [OF v, of x] d2 by (auto simp: sn_def)
  qed (simp_all add: d2)
  then show ?thesis by (auto simp: e' recorded_def set_served_def sn_def intro!: bexI [of _ sn])
qed (use assms(1) in \<open>simp add: recorded_def\<close>)

lemma recorded_reload:
  assumes "recorded e"
  shows "recorded (snd (Reload L uni cfg now e))"
proof -
  obtain r1 e1 where rc: "renderConfig L uni cfg now e = (r1, e1)" by (cases "renderConfig L uni cfg now e")
  note fr = only_faults_frame [OF only_faults_render rc]
  then have e1: "recorded e1" using assms by (simp add: recorded_def)
  show ?thesis
  proof (cases r1)
    case (Inl y)
    with rc e1 show ?thesis by (simp add: Reload_commit e_then_def)
  next
    case (Inr y)
    obtain res hosts flags where y: "y = (res, hosts, flags)" by (cases y)
    obtain r e' where c: "commit_reload cfg now res hosts flags e1 = (r, e')"
      by (cases "commit_reload cfg now res hosts flags e1")
    have "Reload L uni cfg now e = (r, e')" using rc Inr y c by (simp add: Reload_commit e_then_def)
    with recorded_commit [OF e1 c] show ?thesis by simp
  qed
qed

text \<open>A rollback when no statement fails.\<close>

definition next_version :: "db \<Rightarrow> int" where
  "next_version d = (case map sn_Version (db_snapshots d) of [] \<Rightarrow> 0 | v # vs \<Rightarrow> fold max vs v) + 1"

lemma next_version_fresh: "sn \<in> set (db_snapshots d) \<Longrightarrow> sn_Version sn < next_version d"
proof -
  assume a: "sn \<in> set (db_snapshots d)"
  have "fst (LatestSnapshotVersion (d\<lparr>db_faults := []\<rparr>)) = Inr (next_version d - 1)"
    by (simp add: LatestSnapshotVersion_def next_version_def)
  from latest_bounds [OF this, of sn] a show ?thesis by simp
qed

lemma rollback_effect:
  assumes "db_faults (en_db e) = []" "find (\<lambda>s. sn_Version s = v) (db_snapshots (en_db e)) = Some sn"
  shows "Rollback now v e = (Inr (), e\<lparr>
    en_rendered := Some \<lparr>sv_JSON = sn_JSON sn, sv_Hash = sn_Hash sn\<rparr>,
    en_version := next_version (en_db e),
    en_db := (en_db e)\<lparr>db_snapshots := db_snapshots (en_db e) @ [\<lparr>sn_Version = next_version (en_db e),
      sn_JSON = sn_JSON sn, sn_Hash = sn_Hash sn, sn_Valid = True, sn_CreatedAt = of_unix now\<rparr>]\<rparr>\<rparr>)"
proof -
  let ?s = "\<lparr>sn_Version = next_version (en_db e), sn_JSON = sn_JSON sn, sn_Hash = sn_Hash sn, sn_Valid = True,
             sn_CreatedAt = zero_time\<rparr>"
  have "next_version (en_db e) \<notin> sn_Version ` set (db_snapshots (en_db e))"
    using next_version_fresh by fastforce
  then have a: "AddSnapshot now ?s (en_db e) = (Inr (), (en_db e)\<lparr>db_snapshots := db_snapshots (en_db e) @
      [?s\<lparr>sn_CreatedAt := of_unix now\<rparr>]\<rparr>)"
    using assms(1) by (simp add: AddSnapshot_def)
  have g: "GetSnapshot v (en_db e) = (Inr sn, en_db e)"
    using assms by (simp add: GetSnapshot_def t_get_def)
  have l: "LatestSnapshotVersion (en_db e) = (Inr (next_version (en_db e) - 1), en_db e)"
    using assms(1) by (simp add: LatestSnapshotVersion_def next_version_def)
  show ?thesis
    by (simp add: Rollback_def e_then_def run_db_def g l a e_update_def e_ignore_def Let_def)
qed

lemma rollback_missing:
  assumes "db_faults (en_db e) = []" "find (\<lambda>s. sn_Version s = v) (db_snapshots (en_db e)) = None"
  shows "Rollback now v e = (Inl (EDB NotFound), e)"
  using assms by (simp add: Rollback_def e_then_def run_db_def GetSnapshot_def t_get_def)

lemma recorded_rollback:
  assumes "recorded e" "db_faults (en_db e) = []"
  shows "recorded (snd (Rollback now v e))"
proof (cases "find (\<lambda>s. sn_Version s = v) (db_snapshots (en_db e))")
  case None
  with rollback_missing [OF assms(2) None] assms(1) show ?thesis by simp
next
  case (Some sn)
  show ?thesis unfolding rollback_effect [OF assms(2) Some] by (simp add: recorded_def)
qed

lemma recorded_step: "eng_step e e' \<Longrightarrow> recorded e \<Longrightarrow> recorded e'"
  by (erule eng_stepE) (simp_all add: recorded_reload recorded_rollback, simp add: recorded_def)


text \<open>
  A rollback serves the chosen snapshot and records it under a version above every earlier one,
  keeping the history; afterwards the provider's ETag is the snapshot's hash.
\<close>

theorem rollback_restores:
  assumes "db_faults (en_db e) = []" "sn \<in> set (db_snapshots (en_db e))"
    "distinct (map sn_Version (db_snapshots (en_db e)))"
  shows "en_rendered (snd (Rollback now (sn_Version sn) e)) = Some \<lparr>sv_JSON = sn_JSON sn, sv_Hash = sn_Hash sn\<rparr>
    \<and> set (db_snapshots (en_db e)) \<subseteq> set (db_snapshots (en_db (snd (Rollback now (sn_Version sn) e))))
    \<and> (\<forall>x \<in> set (db_snapshots (en_db e)). sn_Version x < en_version (snd (Rollback now (sn_Version sn) e)))
    \<and> RenderedHash (snd (Rollback now (sn_Version sn) e)) = sn_Hash sn"
proof -
  have "distinct (map sn_Version xs) \<Longrightarrow> sn \<in> set xs \<Longrightarrow> find (\<lambda>s. sn_Version s = sn_Version sn) xs = Some sn" for xs
    by (induction xs) force+
  with assms have f: "find (\<lambda>s. sn_Version s = sn_Version sn) (db_snapshots (en_db e)) = Some sn" by blast
  show ?thesis
    unfolding rollback_effect [OF assms(1) f] by (auto simp: RenderedHash_def next_version_fresh)
qed

text \<open>
  Rollback drops the error of the version lookup: when that statement fails, the engine reports
  version 1 whatever the history, and the version it reports is not one that it recorded.
\<close>

theorem rollback_version_on_error:
  assumes "find (\<lambda>s. sn_Version s = v) (db_snapshots (en_db e)) = Some sn"
    "db_faults (en_db e) = [False, True]"
  shows "en_version (snd (Rollback now v e)) = 1 \<and> fst (Rollback now v e) = Inr ()"
proof -
  have g: "GetSnapshot v (en_db e) = (Inr sn, (en_db e)\<lparr>db_faults := [True]\<rparr>)"
    using assms by (simp add: GetSnapshot_def t_get_def stmt_def)
  show ?thesis
    by (simp add: Rollback_def e_then_def run_db_def g LatestSnapshotVersion_def stmt_def e_update_def e_ignore_def
        split: prod.splits sum.splits)
qed

section \<open>A reload serves the database\<close>

text \<open>The inputs of the renderer that a database state stands for, and the document they give.\<close>

definition db_hosts_now :: "db \<Rightarrow> host list" where
  "db_hosts_now d = map scanHost (sort_key hr_created (db_hosts d))"

definition db_document :: "libs \<Rightarrow> (string \<Rightarrow> string) \<Rightarrow> eng_cfg \<Rightarrow> int \<Rightarrow> db \<Rightarrow> eng_err + render_result" where
  "db_document L uni cfg now d =
     render_checked L uni cfg (db_hosts_now d) (sort_key mw_Name (db_middlewares d))
       (sort_key c_CreatedAt (db_certs d)) (sort_key al_Name (db_access_lists d))
       (map scan_ban (sort_key (\<lambda>r. - br_created r) (filter (ban_active now) (db_bans d)))) (db_settings d)"

lemma renderConfig_db:
  assumes "db_faults (en_db e) = []"
  shows "renderConfig L uni cfg now e =
    (case db_document L uni cfg now (en_db e) of
       Inl x \<Rightarrow> Inl x
     | Inr res \<Rightarrow> Inr (res, db_hosts_now (en_db e), (wafEnabledFrom cfg (db_settings (en_db e)),
                     settingBoolMap (db_settings (en_db e)) ''plugins.cache.enabled'' False)), e)"
proof -
  have "ListHosts [] (en_db e) = (Inr (db_hosts_now (en_db e)), en_db e)"
    using assms by (simp add: ListHosts_def t_list_def and_then_def done_with_def db_hosts_now_def)
  moreover have "ListMiddlewares (en_db e) = (Inr (sort_key mw_Name (db_middlewares (en_db e))), en_db e)"
    "ListCertificates (en_db e) = (Inr (sort_key c_CreatedAt (db_certs (en_db e))), en_db e)"
    "ListAccessLists (en_db e) = (Inr (sort_key al_Name (db_access_lists (en_db e))), en_db e)"
    "ListActiveBans now (en_db e) = (Inr (map scan_ban (sort_key (\<lambda>r. - br_created r)
        (filter (ban_active now) (db_bans (en_db e))))), en_db e)"
    "ListAllSettings (en_db e) = (Inr (db_settings (en_db e)), en_db e)"
    using assms by (simp_all add: ListMiddlewares_def ListCertificates_def ListAccessLists_def ListActiveBans_def
        ListAllSettings_def t_list_def)
  ultimately show ?thesis
    by (simp add: renderConfig_def e_then_def run_db_def db_document_def e_fail_def e_return_def split: sum.split)
qed

lemma reload_outcome:
  assumes "db_faults (en_db e) = []"
  shows "fst (Reload L uni cfg now e) = db_document L uni cfg now (en_db e)
    \<and> en_rendered (snd (Reload L uni cfg now e)) =
        (case db_document L uni cfg now (en_db e) of
           Inl _ \<Rightarrow> en_rendered e
         | Inr res \<Rightarrow> Some \<lparr>sv_JSON = rr_JSON res, sv_Hash = rr_Hash res\<rparr>)"
proof (cases "db_document L uni cfg now (en_db e)")
  case (Inl x)
  then show ?thesis by (simp add: Reload_commit e_then_def renderConfig_db [OF assms])
next
  case (Inr res)
  let ?h = "db_hosts_now (en_db e)" and ?fl = "(wafEnabledFrom cfg (db_settings (en_db e)),
              settingBoolMap (db_settings (en_db e)) ''plugins.cache.enabled'' False)"
  obtain r e' where c: "commit_reload cfg now res ?h ?fl e = (r, e')"
    by (cases "commit_reload cfg now res ?h ?fl e")
  have R: "Reload L uni cfg now e = (r, e')"
    using c Inr by (simp add: Reload_commit e_then_def renderConfig_db [OF assms])
  have latest: "LatestSnapshotVersion (en_db e) = (Inr (next_version (en_db e) - 1), en_db e)"
    using assms by (simp add: LatestSnapshotVersion_def next_version_def)
  have "next_version (en_db e) \<notin> sn_Version ` set (db_snapshots (en_db e))"
    using next_version_fresh by fastforce
  then have add: "fst (AddSnapshot now \<lparr>sn_Version = next_version (en_db e), sn_JSON = j, sn_Hash = k, sn_Valid = True,
      sn_CreatedAt = zero_time\<rparr> (en_db e)) = Inr ()" for j k
    using assms by (simp add: AddSnapshot_def)
  have "\<not> (\<exists>x. r = Inl x)"
  proof
    assume "\<exists>x. r = Inl x"
    then obtain x where x: "r = Inl x" by blast
    show False
      using c add [of "rr_JSON res" "rr_Hash res"] latest
      by (auto simp: x commit_reload_def e_then_def e_update_def run_db_def e_ignore_def e_return_def
          split: if_splits prod.splits sum.splits)
  qed
  with commit_cases [OF refl c] have "r = Inr res" "en_rendered e' = Some \<lparr>sv_JSON = rr_JSON res, sv_Hash = rr_Hash res\<rparr>"
    by (auto simp: set_served_def)
  then show ?thesis by (simp add: R Inr)
qed

text \<open>
  C5: A reload serves the database: without database errors its result is the checked rendering of the
  hosts, middlewares, certificates, access lists, active bans and settings stored now, and when there
  is one it becomes the served document, while an error leaves the served document alone.
\<close>

theorem reload_serves_database:
  assumes "db_faults (en_db e) = []"
  shows "fst (Reload L uni cfg now e) = db_document L uni cfg now (en_db e)
    \<and> en_rendered (snd (Reload L uni cfg now e)) =
        (case db_document L uni cfg now (en_db e) of
           Inl _ \<Rightarrow> en_rendered e
         | Inr res \<Rightarrow> Some \<lparr>sv_JSON = rr_JSON res, sv_Hash = rr_Hash res\<rparr>)"
  using assms by (rule reload_outcome)

section \<open>What Traefik polls\<close>

text \<open>
  The polling endpoint's shortcut is sound: the hash that answers a conditional request without
  building the document is the ETag that the full document would carry, and before the first
  successful render both name the empty document.
\<close>

theorem provider_etag_is_hash:
  "case en_rendered e of
     None \<Rightarrow> ProviderDocument parse enc lookup decrypt e = Inr (''{}'', RenderedHash e)
   | Some s \<Rightarrow>
       (case ProviderDocument parse enc lookup decrypt e of
          Inl _ \<Rightarrow> True
        | Inr (doc, etag) \<Rightarrow> etag = RenderedHash e \<and> InjectKeys parse enc (key_resolver lookup decrypt) (sv_JSON s) = Inr doc)"
  by (auto simp: ProviderDocument_def RenderedHash_def split: option.splits sum.splits)

section \<open>WAF health\<close>

text \<open>A run of build results, and how often a healthy firewall fails in it.\<close>

definition record_builds :: "(bool \<times> string) list \<Rightarrow> engine \<Rightarrow> engine" where
  "record_builds rs = fold (\<lambda>(h, msg). recordWAFStatus h msg) rs"

fun falls :: "bool \<Rightarrow> bool list \<Rightarrow> nat" where
  "falls was [] = 0"
| "falls was (h # hs) = (if was \<and> \<not> h then 1 else 0) + falls h hs"

text \<open>
  The operator is alerted once per failure of the firewall: over any run of builds the alerts
  sent are exactly one for each change from a healthy to a failing build, and the status shown is that
  of the last build.
\<close>

theorem waf_alert_per_transition:
  "en_alerts (record_builds rs e) =
     en_alerts e @ replicate (falls (fst (en_wafStatus e)) (map fst rs)) (''error'', ''xgress WAF disabled (engine build failed)'')
   \<and> en_wafStatus (record_builds rs e) = last (en_wafStatus e # rs)"
proof (induction rs arbitrary: e)
  case (Cons r rs)
  obtain h msg where r: "r = (h, msg)" by (cases r)
  have "record_builds (r # rs) e = record_builds rs (recordWAFStatus h msg e)"
    by (simp add: record_builds_def r)
  moreover have "en_wafStatus (recordWAFStatus h msg e) = (h, msg)"
    "en_alerts (recordWAFStatus h msg e) = en_alerts e @ replicate (if fst (en_wafStatus e) \<and> \<not> h then 1 else 0)
        (''error'', ''xgress WAF disabled (engine build failed)'')"
    by (simp_all add: recordWAFStatus_def Let_def)
  ultimately show ?case
    using Cons.IH [of "recordWAFStatus h msg e"] by (simp add: r replicate_add)
qed (simp add: record_builds_def)

section \<open>Schedules\<close>

definition enabled_of :: "engine \<Rightarrow> string \<Rightarrow> bool option" where
  "enabled_of e i = map_option hr_enabled (hosts.lookup (en_db e) i)"

lemma find_map_key:
  assumes "\<And>x. key (f x) = key x"
  shows "find (\<lambda>x. key x = i) (map f xs) = map_option f (find (\<lambda>x. key x = i) xs)"
  using assms by (induction xs) auto

lemma find_key: "find (\<lambda>x. key x = i) xs = Some y \<Longrightarrow> key y = i"
  by (auto simp: find_Some_iff)

lemma UpdateHost_rows:
  assumes "db_faults d = []" "hosts.ok d"
  shows "UpdateHost now h d = (Inr (), d\<lparr>db_hosts := map (\<lambda>r. if hr_id r = h_ID h
       then r\<lparr>hr_kind := h_Kind h, hr_enabled := h_Enabled h, hr_domains := h_Domains h,
              hr_data := hostData h, hr_updated := now\<rparr> else r) (db_hosts d)\<rparr>)"
proof -
  let ?f = "\<lambda>r. if hr_id r = h_ID h then r\<lparr>hr_kind := h_Kind h, hr_enabled := h_Enabled h, hr_domains := h_Domains h,
              hr_data := hostData h, hr_updated := now\<rparr> else r"
  have "map hr_id (map ?f (db_hosts d)) = map hr_id (db_hosts d)" by simp
  then have "distinct (map hr_id (map ?f (db_hosts d)))" using assms(2) by (simp add: hosts.ok_def del: map_map)
  with assms(1) show ?thesis by (simp add: UpdateHost_def t_update_def Let_def del: map_map)
qed

lemma apply_schedule_enabled:
  assumes "db_faults (en_db e) = []" "hosts.ok (en_db e)" "apply_schedule now sc e = (ch, e')"
  shows "db_faults (en_db e') = [] \<and> hosts.ok (en_db e')
    \<and> enabled_of e' i = (if sc_HostID sc = i then map_option (\<lambda>_. sc_Action sc = ''enable'') (enabled_of e i) else enabled_of e i)
    \<and> (\<not> ch \<longrightarrow> e' = e)"
proof (cases "find (\<lambda>r. hr_id r = sc_HostID sc) (db_hosts (en_db e))")
  case None
  then have "apply_schedule now sc e = (False, e)"
    using assms(1) by (simp add: apply_schedule_def run_db_def GetHost_def and_then_def t_get_def)
  with assms None show ?thesis by (auto simp: enabled_of_def hosts.lookup_def)
next
  case (Some r)
  then have id: "hr_id r = sc_HostID sc" by (rule find_key)
  have g: "run_db (GetHost (sc_HostID sc)) e = (Inr (scanHost r), e)"
    using Some assms(1) by (simp add: run_db_def GetHost_def and_then_def t_get_def done_with_def)
  let ?want = "sc_Action sc = ''enable''"
  show ?thesis
  proof (cases "hr_enabled r = ?want")
    case True
    then have "apply_schedule now sc e = (False, e)"
      by (simp add: apply_schedule_def g scanHost_def)
    with assms Some True show ?thesis by (auto simp: enabled_of_def hosts.lookup_def)
  next
    case False
    let ?h = "(scanHost r)\<lparr>h_Enabled := ?want\<rparr>"
    let ?f = "\<lambda>r. if hr_id r = h_ID ?h then r\<lparr>hr_kind := h_Kind ?h, hr_enabled := h_Enabled ?h, hr_domains := h_Domains ?h,
              hr_data := hostData ?h, hr_updated := now\<rparr> else r"
    have ap: "apply_schedule now sc e = (True, e\<lparr>en_db := (en_db e)\<lparr>db_hosts := map ?f (db_hosts (en_db e))\<rparr>\<rparr>)"
    proof -
      have "run_db (UpdateHost now ?h) e = (Inr (), e\<lparr>en_db := (en_db e)\<lparr>db_hosts := map ?f (db_hosts (en_db e))\<rparr>\<rparr>)"
        by (simp add: run_db_def UpdateHost_rows [OF assms(1,2), of now ?h])
      moreover have "h_Enabled (scanHost r) = hr_enabled r" by (simp add: scanHost_def)
      ultimately show ?thesis using False by (simp add: apply_schedule_def g Let_def)
    qed
    have hid: "h_ID ?h = sc_HostID sc" by (simp add: scanHost_def id)
    define f :: "host_row \<Rightarrow> host_row" where "f = ?f"
    have f: "hr_id (f x) = hr_id x" "hr_enabled (f x) = (if hr_id x = sc_HostID sc then ?want else hr_enabled x)" for x
      by (simp_all add: f_def hid)
    have e': "ch" "e' = e\<lparr>en_db := (en_db e)\<lparr>db_hosts := map f (db_hosts (en_db e))\<rparr>\<rparr>"
      using ap assms(3) by (simp_all add: f_def)
    have look: "hosts.lookup (en_db e') i = map_option f (hosts.lookup (en_db e) i)"
      using find_map_key [of hr_id f i "db_hosts (en_db e)"] f(1) by (simp add: e' hosts.lookup_def)
    have "hosts.ok (en_db e')" using assms(2) f(1) by (simp add: e' hosts.ok_def comp_def)
    moreover have "enabled_of e' i = (if sc_HostID sc = i then map_option (\<lambda>_. ?want) (enabled_of e i) else enabled_of e i)"
    proof (cases "hosts.lookup (en_db e) i")
      case (Some x)
      then have "hr_id x = i" unfolding hosts.lookup_def by (rule find_key)
      with Some show ?thesis by (auto simp: enabled_of_def look f(2))
    qed (simp add: enabled_of_def look)
    ultimately show ?thesis using assms(1) e' by simp
  qed
qed

lemma apply_schedules_flag: "apply_schedules cal now scs True e = (ch, e') \<Longrightarrow> ch"
proof (induction scs arbitrary: e)
  case (Cons sc scs)
  then show ?case by (cases "apply_schedule now sc e") (auto split: if_splits)
qed simp

text \<open>The flag a host ends up with: that of the last schedule of the tick that is due and names it.\<close>

definition wanted :: "calendar \<Rightarrow> schedule list \<Rightarrow> string \<Rightarrow> bool \<Rightarrow> bool" where
  "wanted cal scs i = fold (\<lambda>sc b. if cronMatches (sc_Cron sc) cal \<and> sc_HostID sc = i
                                   then sc_Action sc = ''enable'' else b) scs"

text \<open>
  A scheduler tick sets each host as its schedules say: the host's flag after the tick is that of
  the last due schedule that names it and is otherwise unchanged, no host appears or disappears, and
  when the tick reports no change, so that no reload follows, nothing was changed.
\<close>

theorem schedules_last_wins:
  assumes "db_faults (en_db e) = []" "hosts.ok (en_db e)"
    "apply_schedules cal now scs changed e = (ch, e')"
  shows "enabled_of e' i = map_option (wanted cal scs i) (enabled_of e i) \<and> (\<not> ch \<longrightarrow> e' = e)"
  using assms
proof (induction scs arbitrary: changed e)
  case Nil
  then show ?case by (simp add: wanted_def option.map_ident)
next
  case (Cons sc scs)
  show ?case
  proof (cases "cronMatches (sc_Cron sc) cal")
    case False
    with Cons.IH [of e changed] Cons.prems show ?thesis by (simp add: wanted_def)
  next
    case True
    obtain c1 e1 where a: "apply_schedule now sc e = (c1, e1)" by (cases "apply_schedule now sc e")
    note one = apply_schedule_enabled [OF Cons.prems(1,2) a]
    have "apply_schedules cal now scs (changed \<or> c1) e1 = (ch, e')"
      using Cons.prems(3) True a by simp
    moreover from this have "\<not> ch \<Longrightarrow> \<not> c1"
      using apply_schedules_flag [of cal now scs e1 ch e'] by (cases c1) auto
    moreover have "enabled_of e1 i = (if sc_HostID sc = i then map_option (\<lambda>_. sc_Action sc = ''enable'') (enabled_of e i) else enabled_of e i)"
      using one by blast
    ultimately show ?thesis
      using Cons.IH [of e1 "changed \<or> c1"] one True by (cases "enabled_of e i") (auto simp: wanted_def)
  qed
qed

section \<open>One renewal leader\<close>

lemma stmt_reading:
  assumes "\<And>fs. f (d\<lparr>db_faults := fs\<rparr>) = (r, d\<lparr>db_faults := fs\<rparr>)"
  shows "\<exists>fs r'. stmt f d = (r', d\<lparr>db_faults := fs\<rparr>) \<and> (r' = r \<or> (\<exists>x. r' = Inl x))"
proof (cases "db_faults d")
  case Nil
  with assms [of "[]"] have "stmt f d = (r, d\<lparr>db_faults := []\<rparr>)" by (cases d) simp
  then show ?thesis by blast
next
  case (Cons b fs)
  with assms [of fs] show ?thesis by (cases b) (auto simp: stmt_def)
qed

lemma lease_refused:
  assumes "mget (db_leases d) name = Some (owner, ex)" "holder \<noteq> owner" "now \<le> ex"
  shows "\<exists>fs. snd (AcquireLease now name holder ttl d) = d\<lparr>db_faults := fs\<rparr>
    \<and> fst (AcquireLease now name holder ttl d) \<noteq> Inr True"
proof -
  have "\<exists>fs r. lease_update now name holder (lease_exp now ttl) d = (r, d\<lparr>db_faults := fs\<rparr>)
      \<and> (r = Inr False \<or> (\<exists>x. r = Inl x))"
    unfolding lease_update_def by (rule stmt_reading) (use assms in auto)
  then obtain fs r where u: "lease_update now name holder (lease_exp now ttl) d = (r, d\<lparr>db_faults := fs\<rparr>)"
    and r: "r = Inr False \<or> (\<exists>x. r = Inl x)" by blast
  have "\<exists>fs' r'. lease_insert name holder (lease_exp now ttl) (d\<lparr>db_faults := fs\<rparr>)
        = (r', d\<lparr>db_faults := fs, db_faults := fs'\<rparr>) \<and> (r' = Inl Conflict \<or> (\<exists>x. r' = Inl x))"
    unfolding lease_insert_def by (rule stmt_reading) (use assms in auto)
  then obtain fs' r' where i: "lease_insert name holder (lease_exp now ttl) (d\<lparr>db_faults := fs\<rparr>) = (r', d\<lparr>db_faults := fs'\<rparr>)"
    and r': "r' = Inl Conflict \<or> (\<exists>x. r' = Inl x)" by auto
  from r show ?thesis
  proof (elim disjE exE)
    assume "r = Inr False"
    with u i r' show ?thesis by (auto simp: AcquireLease_def)
  next
    fix x assume "r = Inl x"
    with u show ?thesis by (auto simp: AcquireLease_def)
  qed
qed

text \<open>
  C24: Only the lease holder renews: while another instance's renewal lease has not expired, a renewal
  pass orders no certificate, changes no table and sends no alert, whatever is due.
\<close>

theorem renewal_needs_lease:
  assumes "mget (db_leases (en_db e)) ''acme-renewal'' = Some (holder, ex)"
    "holder \<noteq> ec_HolderID cfg" "unix_of now \<le> ex"
  shows "\<exists>fs. renewDueCertificates L uni LG m cfg now fresh e = e\<lparr>en_db := (en_db e)\<lparr>db_faults := fs\<rparr>\<rparr>"
proof -
  define ttl where "ttl = (if ec_RenewalLeaseTTL cfg \<le> 0 then 15 * minute else ec_RenewalLeaseTTL cfg)"
  have "\<exists>fs. snd (AcquireLease (unix_of now) ''acme-renewal'' (ec_HolderID cfg) ttl (en_db e)) = (en_db e)\<lparr>db_faults := fs\<rparr>
      \<and> fst (AcquireLease (unix_of now) ''acme-renewal'' (ec_HolderID cfg) ttl (en_db e)) \<noteq> Inr True"
    using assms(1) assms(2) assms(3) by (intro lease_refused) auto
  then obtain fs where d: "snd (AcquireLease (unix_of now) ''acme-renewal'' (ec_HolderID cfg) ttl (en_db e)) = (en_db e)\<lparr>db_faults := fs\<rparr>"
    and r: "fst (AcquireLease (unix_of now) ''acme-renewal'' (ec_HolderID cfg) ttl (en_db e)) \<noteq> Inr True" by blast
  obtain b d1 where a: "AcquireLease (unix_of now) ''acme-renewal'' (ec_HolderID cfg) ttl (en_db e) = (b, d1)"
    by (cases "AcquireLease (unix_of now) ''acme-renewal'' (ec_HolderID cfg) ttl (en_db e)")
  have "renewDueCertificates L uni LG m cfg now fresh e = e\<lparr>en_db := d1\<rparr>"
    using r a by (auto simp: renewDueCertificates_def ttl_def [symmetric] run_db_def split: sum.splits bool.splits)
  with d a show ?thesis by auto
qed

section \<open>Concrete runs\<close>

definition sample_cfg :: eng_cfg where
  "sample_cfg = \<lparr>ec_HTTPEntryPoint = ''web'', ec_HTTPSEntryPoint = ''websecure'', ec_WAFDefaultEnabled = True,
     ec_TraefikManaged = True, ec_HasEdge = True, ec_ChallengeBackend = ''http://127.0.0.1:81'',
     ec_CacheBackend = ''http://127.0.0.1:9090'', ec_CacheToken = ''t'', ec_HolderID = ''a-1'', ec_RenewalLeaseTTL = 0,
     ec_ExternalCerts = []\<rparr>"

definition fresh_engine :: "db \<Rightarrow> engine" where
  "fresh_engine d = \<lparr>en_db = d, en_env = [], en_rendered = None, en_version = 0, en_edgeHosts = [],
     en_edgeFlags = (False, False), en_banHits = [], en_banReload = False, en_banConfig = None, en_recoverLevel = 0,
     en_lastRecovery = [], en_lastRecoveryAt = zero_time, en_wafStatus = (True, []), en_alerts = []\<rparr>"

definition old_snap :: config_snapshot where
  "old_snap = \<lparr>sn_Version = 4, sn_JSON = ''{}'', sn_Hash = ''h4'', sn_Valid = True, sn_CreatedAt = 0\<rparr>"

definition snap_db :: db where
  "snap_db = empty_db\<lparr>db_snapshots := [old_snap]\<rparr>"

lemma fresh_engine_simps [simp]:
  "en_db (fresh_engine d) = d" "en_rendered (fresh_engine d) = None" "en_env (fresh_engine d) = []"
  by (simp_all add: fresh_engine_def)

lemma snap_db_simps [simp]: "db_snapshots snap_db = [old_snap]" "db_faults snap_db = []"
  by (simp_all add: snap_db_def empty_db_def)

lemma failed_reload_keeps_served_witness:
  "en_rendered (snd (Reload plain_libs id sample_cfg 0 (fresh_engine (empty_db\<lparr>db_faults := [True]\<rparr>)))) = None"
proof -
  have "fst (Reload plain_libs id sample_cfg 0 (fresh_engine (empty_db\<lparr>db_faults := [True]\<rparr>))) = Inl (EDB DBFault)"
    by (simp add: Reload_def e_then_def renderConfig_def run_db_def ListHosts_def and_then_def t_list_def stmt_def)
  from failed_reload_keeps_served [OF this] show ?thesis by simp
qed

lemma sample_rollback:
  "en_rendered (snd (Rollback 9 4 (fresh_engine snap_db))) = Some \<lparr>sv_JSON = ''{}'', sv_Hash = ''h4''\<rparr>"
  by (subst rollback_effect [of _ _ old_snap]) (simp_all add: old_snap_def)


lemma rollback_restores_witness:
  "en_rendered (snd (Rollback 9 (sn_Version old_snap) (fresh_engine snap_db))) = Some \<lparr>sv_JSON = ''{}'', sv_Hash = ''h4''\<rparr>
    \<and> RenderedHash (snd (Rollback 9 (sn_Version old_snap) (fresh_engine snap_db))) = ''h4''"
  using rollback_restores [of "fresh_engine snap_db" old_snap 9] by (simp add: old_snap_def)

lemma rollback_version_on_error_witness:
  "en_version (snd (Rollback 9 4 (fresh_engine (snap_db\<lparr>db_faults := [False, True]\<rparr>)))) = 1"
  using rollback_version_on_error [of 4 "fresh_engine (snap_db\<lparr>db_faults := [False, True]\<rparr>)" old_snap 9]
  by (simp add: old_snap_def)

lemma reload_serves_database_witness:
  "fst (Reload plain_libs id sample_cfg 0 (fresh_engine snap_db)) = db_document plain_libs id sample_cfg 0 snap_db"
  using reload_serves_database [of "fresh_engine snap_db" plain_libs id sample_cfg 0] by simp

definition night :: schedule where
  "night = \<lparr>sc_ID = ''s'', sc_HostID = ''h'', sc_Action = ''disable'', sc_Cron = ''0 22 * * *'', sc_CreatedAt = 0\<rparr>"

definition hosts_db :: db where
  "hosts_db = empty_db\<lparr>db_hosts := [\<lparr>hr_id = ''h'', hr_kind = HostKindDead, hr_enabled = True, hr_domains = [''a''],
     hr_data = zero_host, hr_created = 1, hr_updated = 1\<rparr>]\<rparr>"

lemma schedules_last_wins_witness:
  "enabled_of (snd (apply_schedules ten_pm 7 [night] False (fresh_engine hosts_db))) ''h'' = Some False"
proof -
  have w: "wanted ten_pm [night] ''h'' True = False" using at_ten_now by (simp add: wanted_def night_def)
  have e: "enabled_of (fresh_engine hosts_db) ''h'' = Some True"
    by (simp add: enabled_of_def hosts.lookup_def hosts_db_def)
  obtain ch e' where a: "apply_schedules ten_pm 7 [night] False (fresh_engine hosts_db) = (ch, e')"
    by (cases "apply_schedules ten_pm 7 [night] False (fresh_engine hosts_db)")
  have "hosts.ok hosts_db" "db_faults hosts_db = []" by (simp_all add: hosts.ok_def hosts_db_def empty_db_def)
  with schedules_last_wins [OF _ _ a, of "''h''"] show ?thesis unfolding a by (simp add: e w)
qed

definition leased_db :: db where
  "leased_db = empty_db\<lparr>db_leases := [(''acme-renewal'', ''b-2'', 10)]\<rparr>"

lemma renewal_needs_lease_witness:
  "\<exists>fs. renewDueCertificates plain_libs id sample_lego sample_manager sample_cfg 7 ''f'' (fresh_engine leased_db)
    = (fresh_engine leased_db)\<lparr>en_db := (en_db (fresh_engine leased_db))\<lparr>db_faults := fs\<rparr>\<rparr>"
proof (rule renewal_needs_lease)
  show "mget (db_leases (en_db (fresh_engine leased_db))) ''acme-renewal'' = Some (''b-2'', 10)"
    by (simp add: leased_db_def)
  show "''b-2'' \<noteq> ec_HolderID sample_cfg" by (simp add: sample_cfg_def)
  show "unix_of 7 \<le> 10" by code_simp
qed

end
