(* ===== verification/SecMetrics.thy ===== *)
theory SecMetrics
  imports Models "HOL-Library.Multiset"
begin

text \<open>
  The security-metrics collector of \<open>internal/secmetrics/collector.go\<close>: the counters a WAF event feeds,
  the caps that bound them under a flood of distinct values, the bounded queue to the observers and the
  snapshot for the API. Counting maps are association lists; Go leaves the order of equal counts open,
  the model takes that of the list.
\<close>

record sec_event =
  ev_At :: gotime
  ev_ClientIP :: string
  ev_Host :: string
  ev_Method :: string
  ev_URI :: string
  ev_RuleID :: string
  ev_Message :: string
  ev_Category :: string
  ev_Severity :: int
  ev_Blocked :: bool

record collector =
  cl_total :: nat
  cl_blocked :: nat
  cl_byRule :: "(string, nat \<times> string) gomap"
  cl_byCategory :: "(string, nat) gomap"
  cl_byIP :: "(string, nat) gomap"
  cl_byHost :: "(string, nat) gomap"
  cl_hourly :: "(int, nat) gomap"
  cl_recent :: "sec_event list"
  cl_observers :: nat
  cl_events :: "sec_event list"

abbreviation recentMax :: nat where "recentMax \<equiv> 200"
abbreviation maxCountKeys :: nat where "maxCountKeys \<equiv> 50000"
abbreviation keepCountKeys :: nat where "keepCountKeys \<equiv> 40000"
abbreviation maxHourBuckets :: nat where "maxHourBuckets \<equiv> 48"
abbreviation observerQueue :: nat where "observerQueue \<equiv> 1024"

definition new_collector :: collector where
  "new_collector = \<lparr>cl_total = 0, cl_blocked = 0, cl_byRule = [], cl_byCategory = [], cl_byIP = [], cl_byHost = [],
     cl_hourly = [], cl_recent = [], cl_observers = 0, cl_events = []\<rparr>"

definition AddObserver :: "collector \<Rightarrow> collector" where
  "AddObserver c = c\<lparr>cl_observers := Suc (cl_observers c)\<rparr>"

definition category :: "(string \<Rightarrow> string) \<Rightarrow> string list \<Rightarrow> string \<Rightarrow> string" where
  "category uni tags msg =
     (case find (\<lambda>t. has_prefix t ''attack-'') tags of
        Some t \<Rightarrow> trim_prefix t ''attack-''
      | None \<Rightarrow>
          (let l = to_lower uni msg in
           if str_contains l ''sql'' then ''sqli''
           else if str_contains l ''xss'' \<or> str_contains l ''cross-site'' then ''xss''
           else if str_contains l ''traversal'' \<or> str_contains l ''lfi'' \<or> str_contains l ''file'' then ''lfi''
           else if str_contains l ''rce'' \<or> str_contains l ''command'' \<or> str_contains l ''code'' then ''rce''
           else if str_contains l ''scanner'' \<or> str_contains l ''user-agent'' then ''scanner''
           else if str_contains l ''protocol'' then ''protocol''
           else ''other''))"

definition bump :: "'k \<Rightarrow> ('k, nat) gomap \<Rightarrow> ('k, nat) gomap" where
  "bump k m = mput k (Suc (mget_or 0 m k)) m"

definition bump_rule :: "string \<Rightarrow> string \<Rightarrow> (string, nat \<times> string) gomap \<Rightarrow> (string, nat \<times> string) gomap" where
  "bump_rule k msg m =
     (let (n, old) = mget_or (0, []) m k in mput k (Suc n, if old = [] then msg else old) m)"

text \<open>Keep the first keys in descending order of count, or of the hour.\<close>

definition capCounts :: "nat \<Rightarrow> nat \<Rightarrow> (string, nat) gomap \<Rightarrow> (string, nat) gomap" where
  "capCounts mx keep m =
     (if length m \<le> mx then m
      else (let gone = map fst (drop keep (sort_key (\<lambda>p. - int (snd p)) m)) in filter (\<lambda>p. fst p \<notin> set gone) m))"

definition capOldestHours :: "nat \<Rightarrow> (int, nat) gomap \<Rightarrow> (int, nat) gomap" where
  "capOldestHours keep m =
     (if length m \<le> keep then m
      else (let gone = drop keep (sort_key uminus (map fst m)) in filter (\<lambda>p. fst p \<notin> set gone) m))"

text \<open>Times are after the Go epoch used for truncation, so truncating to the hour is a floor.\<close>

definition hour_of :: "gotime \<Rightarrow> int" where
  "hour_of t = unix_of (t - t mod hour)"

definition add_event :: "sec_event \<Rightarrow> collector \<Rightarrow> collector" where
  "add_event e c = \<lparr>
     cl_total = Suc (cl_total c),
     cl_blocked = (if ev_Blocked e then Suc (cl_blocked c) else cl_blocked c),
     cl_byRule = (if ev_RuleID e \<noteq> [] then bump_rule (ev_RuleID e) (ev_Message e) (cl_byRule c) else cl_byRule c),
     cl_byCategory = (if ev_Category e \<noteq> [] then bump (ev_Category e) (cl_byCategory c) else cl_byCategory c),
     cl_byIP = capCounts maxCountKeys keepCountKeys
                 (if ev_ClientIP e \<noteq> [] then bump (ev_ClientIP e) (cl_byIP c) else cl_byIP c),
     cl_byHost = capCounts maxCountKeys keepCountKeys
                 (if ev_Host e \<noteq> [] then bump (ev_Host e) (cl_byHost c) else cl_byHost c),
     cl_hourly = capOldestHours maxHourBuckets (bump (hour_of (ev_At e)) (cl_hourly c)),
     cl_recent = (let r = cl_recent c @ [e] in if length r > recentMax then drop (length r - recentMax) r else r),
     cl_observers = cl_observers c,
     cl_events = (if cl_observers c > 0 \<and> length (cl_events c) < observerQueue then cl_events c @ [e] else cl_events c)\<rparr>"

definition Record_event :: "(string \<Rightarrow> string) \<Rightarrow> gotime \<Rightarrow> gotime \<Rightarrow> sec_event \<Rightarrow> collector \<Rightarrow> collector" where
  "Record_event uni zero now e =
     add_event (let e1 = (if ev_At e = zero then e\<lparr>ev_At := now\<rparr> else e) in
                if ev_Category e1 = [] then e1\<lparr>ev_Category := category uni [] (ev_Message e1)\<rparr> else e1)"

text \<open>The worker takes the oldest queued event and hands it to every observer.\<close>

definition next_event :: "collector \<Rightarrow> (sec_event \<times> collector) option" where
  "next_event c = (case cl_events c of [] \<Rightarrow> None | e # es \<Rightarrow> Some (e, c\<lparr>cl_events := es\<rparr>))"

section \<open>Snapshots\<close>

record named_count =
  nc_Name :: string
  nc_Label :: string
  nc_Count :: nat

text \<open>Largest count first, equal counts by name: two stable sorts, the name first.\<close>

definition order_counts :: "named_count list \<Rightarrow> named_count list" where
  "order_counts ncs = sort_key (\<lambda>x. - int (nc_Count x)) (sort_key nc_Name ncs)"

definition topRules :: "(string, nat \<times> string) gomap \<Rightarrow> nat \<Rightarrow> named_count list" where
  "topRules m n = take n (order_counts (map (\<lambda>(k, c, msg). \<lparr>nc_Name = k, nc_Label = msg, nc_Count = c\<rparr>) m))"

definition topN :: "(string, nat) gomap \<Rightarrow> nat \<Rightarrow> named_count list" where
  "topN m n = take n (order_counts (map (\<lambda>(k, c). \<lparr>nc_Name = k, nc_Label = [], nc_Count = c\<rparr>) m))"

record sec_snapshot =
  ss_Total :: nat
  ss_Blocked :: nat
  ss_SinceHours :: nat
  ss_TopRules :: "named_count list"
  ss_Categories :: "named_count list"
  ss_TopIPs :: "named_count list"
  ss_TopHosts :: "named_count list"
  ss_Series :: "(int \<times> nat) list"
  ss_Recent :: "sec_event list"

text \<open>A point of the series is its hour in seconds, which the source prints as a clock time.\<close>

definition Snapshot :: "gotime \<Rightarrow> collector \<Rightarrow> sec_snapshot" where
  "Snapshot now c = \<lparr>ss_Total = cl_total c, ss_Blocked = cl_blocked c, ss_SinceHours = 24,
     ss_TopRules = topRules (cl_byRule c) 10, ss_Categories = topN (cl_byCategory c) 10,
     ss_TopIPs = topN (cl_byIP c) 10, ss_TopHosts = topN (cl_byHost c) 10,
     ss_Series = map (\<lambda>i. let h = hour_of now - 3600 * int i in (h, mget_or 0 (cl_hourly c) h)) (rev [0..<24]),
     ss_Recent = rev (cl_recent c)\<rparr>"

section \<open>Bounds\<close>

lemma wf_bump: "wf_gomap m \<Longrightarrow> wf_gomap (bump k m)"
  by (simp add: bump_def)

lemma length_update: "length (AList.update k v m) \<le> Suc (length m)"
  by (induction m) auto

lemma distinct_filter_drop:
  assumes "distinct (map fst m)" "mset ys = mset (map fst m)" "keep \<le> length m"
  shows "length (filter (\<lambda>p. fst p \<notin> set (drop keep ys)) m) = keep"
proof -
  have d: "distinct ys" using assms(1,2) mset_eq_imp_distinct_iff by blast
  have "distinct (map fst (filter (\<lambda>p. fst p \<notin> set (drop keep ys)) m))" using assms(1) by (rule distinct_map_filter)
  then have "length (filter (\<lambda>p. fst p \<notin> set (drop keep ys)) m) = card (fst ` set (filter (\<lambda>p. fst p \<notin> set (drop keep ys)) m))"
    by (metis distinct_card length_map set_map)
  also have "fst ` set (filter (\<lambda>p. fst p \<notin> set (drop keep ys)) m) = set (map fst m) - set (drop keep ys)" by auto
  also have "\<dots> = set ys - set (drop keep ys)" using assms(2) by (metis mset_eq_setD)
  also have "\<dots> = set (take keep ys)"
  proof -
    have "set (take keep ys) \<inter> set (drop keep ys) = {}" using d by (metis append_take_drop_id distinct_append)
    moreover have "set ys = set (take keep ys) \<union> set (drop keep ys)" by (metis append_take_drop_id set_append)
    ultimately show ?thesis by blast
  qed
  also have "card (set (take keep ys)) = keep"
    using d assms(2,3) by (metis distinct_card distinct_take length_map length_take min.absorb2 size_mset)
  finally show ?thesis .
qed

lemma capCounts_props:
  assumes "wf_gomap m" "keep \<le> mx"
  shows "wf_gomap (capCounts mx keep m) \<and> length (capCounts mx keep m) \<le> mx"
proof (cases "length m \<le> mx")
  case False
  have "mset (map fst (sort_key (\<lambda>p. - int (snd p)) m)) = mset (map fst m)" by simp
  from distinct_filter_drop [OF assms(1) this, of keep] assms False show ?thesis
    by (simp add: capCounts_def Let_def drop_map distinct_map_filter del: mset_map)
qed (use assms in \<open>simp add: capCounts_def\<close>)

lemma capOldest_props:
  assumes "wf_gomap m"
  shows "wf_gomap (capOldestHours keep m) \<and> length (capOldestHours keep m) \<le> keep"
proof (cases "length m \<le> keep")
  case False
  have "mset (sort_key uminus (map fst m)) = mset (map fst m)" by simp
  from distinct_filter_drop [OF assms this, of keep] assms False show ?thesis
    by (simp add: capOldestHours_def Let_def distinct_map_filter del: mset_map)
qed (use assms in \<open>simp add: capOldestHours_def\<close>)

definition collector_ok :: "collector \<Rightarrow> bool" where
  "collector_ok c \<longleftrightarrow> wf_gomap (cl_byIP c) \<and> wf_gomap (cl_byHost c) \<and> wf_gomap (cl_hourly c)
     \<and> length (cl_byIP c) \<le> maxCountKeys \<and> length (cl_byHost c) \<le> maxCountKeys
     \<and> length (cl_hourly c) \<le> maxHourBuckets \<and> length (cl_recent c) \<le> recentMax
     \<and> length (cl_events c) \<le> observerQueue"

lemma add_event_ok: "collector_ok c \<Longrightarrow> collector_ok (add_event e c)"
  using capCounts_props [of _ keepCountKeys maxCountKeys] capOldest_props [of _ maxHourBuckets]
  by (auto simp: collector_ok_def add_event_def wf_bump Let_def)

text \<open>
  The states of a collector under events, new observers and the worker, in any order, with the events
  recorded so far as they were counted.
\<close>

definition stamped :: "(string \<Rightarrow> string) \<Rightarrow> gotime \<Rightarrow> gotime \<Rightarrow> sec_event \<Rightarrow> sec_event" where
  "stamped uni zero now e =
     (let e1 = (if ev_At e = zero then e\<lparr>ev_At := now\<rparr> else e) in
      if ev_Category e1 = [] then e1\<lparr>ev_Category := category uni [] (ev_Message e1)\<rparr> else e1)"

inductive sec_reach :: "(string \<Rightarrow> string) \<Rightarrow> gotime \<Rightarrow> sec_event list \<Rightarrow> collector \<Rightarrow> bool" for uni zero where
  start: "sec_reach uni zero [] new_collector"
| observe: "sec_reach uni zero es c \<Longrightarrow> sec_reach uni zero es (AddObserver c)"
| recorded: "sec_reach uni zero es c \<Longrightarrow>
    sec_reach uni zero (es @ [stamped uni zero now e]) (Record_event uni zero now e c)"
| worker: "sec_reach uni zero es c \<Longrightarrow> next_event c = Some (e, c') \<Longrightarrow> sec_reach uni zero es c'"

lemma Record_add: "Record_event uni zero now e c = add_event (stamped uni zero now e) c"
  by (simp add: Record_event_def stamped_def)

lemma sec_reach_inv:
  "sec_reach uni zero es c \<Longrightarrow> collector_ok c \<and> cl_total c = length es
     \<and> cl_blocked c = length (filter ev_Blocked es) \<and> cl_recent c = drop (length es - recentMax) es"
proof (induction rule: sec_reach.induct)
  case start
  then show ?case by (simp add: new_collector_def collector_ok_def)
next
  case (observe es c)
  then show ?case by (simp add: AddObserver_def collector_ok_def)
next
  case (recorded es c now e)
  let ?e = "stamped uni zero now e"
  have "cl_recent (add_event ?e c) = drop (length (es @ [?e]) - recentMax) (es @ [?e])"
  proof (cases "length es < recentMax")
    case True
    with recorded.IH show ?thesis by (simp add: add_event_def Let_def)
  next
    case False
    then have "Suc (length es - recentMax) = length es - 199" by simp
    with recorded.IH False show ?thesis by (simp add: add_event_def Let_def)
  qed
  with recorded.IH add_event_ok [of c ?e] show ?case by (simp add: Record_add) (simp add: add_event_def)
next
  case (worker es c e c')
  then show ?case by (auto simp: next_event_def collector_ok_def split: list.splits)
qed

text \<open>
  A flood of attacks cannot exhaust the collector: whatever events come, observers are added and
  events are drained, the address and host maps hold at most 50,000 keys, the hours at most 48, the
  feed the last 200 events in order and the queue at most 1,024, while the totals count every event.
\<close>

theorem collector_bounded:
  assumes "sec_reach uni zero es c"
  shows "length (cl_byIP c) \<le> 50000 \<and> length (cl_byHost c) \<le> 50000 \<and> length (cl_hourly c) \<le> 48
    \<and> length (cl_events c) \<le> 1024 \<and> cl_recent c = drop (length es - 200) es
    \<and> cl_total c = length es \<and> cl_blocked c = length (filter ev_Blocked es)"
  using sec_reach_inv [OF assms] by (simp add: collector_ok_def)

lemma collector_bounded_witness: "cl_total (AddObserver new_collector) = length ([] :: sec_event list)"
proof -
  have "sec_reach id 0 [] (AddObserver new_collector)" by (intro sec_reach.intros)
  from collector_bounded [OF this] show ?thesis by blast
qed

lemma sorted_take_drop:
  assumes "sorted (map f xs)" "x \<in> set (take n xs)" "y \<in> set (drop n xs)"
  shows "f x \<le> f y"
proof -
  have "sorted (map f (take n xs) @ map f (drop n xs))" using assms(1) by (simp flip: map_append)
  with assms(2,3) show ?thesis by (simp add: sorted_append)
qed

text \<open>
  Eviction spares the heavy hitters: every key that stays keeps its count, and no key that is
  evicted had a larger count than one that stays, so a flood of one-off addresses cannot push the top
  attackers out.
\<close>

theorem cap_spares_top:
  assumes "wf_gomap m" "(k, n) \<in> set m" "k \<notin> fst ` set (capCounts mx keep m)" "(k', n') \<in> set (capCounts mx keep m)"
  shows "(k', n') \<in> set m \<and> n \<le> n'"
proof -
  define xs where "xs = sort_key (\<lambda>p. - int (snd p)) m"
  have big: "\<not> length m \<le> mx" using assms(2,3) by (force simp: capCounts_def)
  then have cap: "capCounts mx keep m = filter (\<lambda>p. fst p \<notin> set (map fst (drop keep xs))) m"
    by (simp add: capCounts_def Let_def xs_def)
  have s: "set xs = set m" by (simp add: xs_def)
  from assms(3) have "k \<in> fst ` set (drop keep xs)"
    using assms(2) unfolding cap by force
  then obtain n0 where "(k, n0) \<in> set (drop keep xs)" by force
  moreover from this have "(k, n0) \<in> set m" using s in_set_dropD by metis
  ultimately have out: "(k, n) \<in> set (drop keep xs)" using assms(1,2) by (metis eq_key_imp_eq_value)
  from assms(4) have m': "(k', n') \<in> set m" "k' \<notin> fst ` set (drop keep xs)" unfolding cap by auto
  then have "(k', n') \<in> set (take keep xs)"
    using s by (metis UnE append_take_drop_id fst_conv image_eqI set_append)
  from sorted_take_drop [OF _ this out, of "\<lambda>p. - int (snd p)"] have "n \<le> n'" by (simp add: xs_def)
  with m'(1) show ?thesis by blast
qed

lemma cap_spares_top_witness:
  "(''b'', 7) \<in> set [(''a'', 1), (''b'', 7 :: nat)] \<and> (1 :: nat) \<le> 7"
  using cap_spares_top [of "[(''a'', 1), (''b'', 7)]" "''a''" 1 1 1 "''b''" 7]
  by (simp add: capCounts_def)

section \<open>The order of the lists\<close>

text \<open>
  The comparison of the source as an order: the larger count first, equal counts by name. The lists of a
  snapshot are sorted by it.
\<close>

datatype rank = Rank nat string

instantiation rank :: linorder
begin

definition less_eq_rank :: "rank \<Rightarrow> rank \<Rightarrow> bool" where
  "less_eq_rank r s = (case (r, s) of (Rank c x, Rank d y) \<Rightarrow> d < c \<or> d = c \<and> x \<le> y)"

definition less_rank :: "rank \<Rightarrow> rank \<Rightarrow> bool" where
  "less_rank r s = (case (r, s) of (Rank c x, Rank d y) \<Rightarrow> d < c \<or> d = c \<and> x < y)"

instance
  by standard (auto simp: less_eq_rank_def less_rank_def split: rank.splits)

end

lemma rank_le [simp]: "Rank c x \<le> Rank d y \<longleftrightarrow> d < c \<or> d = c \<and> x \<le> y"
  by (simp add: less_eq_rank_def)

definition rank_of :: "named_count \<Rightarrow> rank" where
  "rank_of nc = Rank (nc_Count nc) (nc_Name nc)"

lemma same_count_sort:
  assumes "\<forall>x \<in> set xs. nc_Count x = c"
  shows "sort_key rank_of xs = sort_key nc_Name xs"
proof (rule properties_for_sort_key)
  show "filter (\<lambda>x. rank_of k = rank_of x) (sort_key nc_Name xs) = filter (\<lambda>x. rank_of k = rank_of x) xs"
    if "k \<in> set (sort_key nc_Name xs)" for k
  proof -
    have "filter (\<lambda>x. rank_of k = rank_of x) ys = filter (\<lambda>x. nc_Name k = nc_Name x) ys" if "set ys = set xs" for ys
      using assms that \<open>k \<in> set (sort_key nc_Name xs)\<close> by (intro filter_cong) (auto simp: rank_of_def)
    then show ?thesis using sort_key_stable [of "nc_Name" "nc_Name k" xs] by (simp add: eq_commute)
  qed
  have "sorted_wrt (\<lambda>x y. nc_Name x \<le> nc_Name y) (sort_key nc_Name xs)"
    using sorted_sort_key [of nc_Name xs] by (simp add: sorted_map)
  then show "sorted (map rank_of (sort_key nc_Name xs))"
    unfolding sorted_map by (rule sorted_wrt_mono_rel [rotated]) (use assms in \<open>auto simp: rank_of_def\<close>)
qed simp

lemma order_counts_rank: "order_counts ncs = sort_key rank_of ncs"
  unfolding order_counts_def
proof (rule properties_for_sort_key)
  show "filter (\<lambda>x. - int (nc_Count k) = - int (nc_Count x)) (sort_key rank_of ncs)
      = filter (\<lambda>x. - int (nc_Count k) = - int (nc_Count x)) (sort_key nc_Name ncs)" for k
    using same_count_sort [of "filter (\<lambda>x. nc_Count k = nc_Count x) ncs" "nc_Count k"] by (simp add: filter_sort)
  have "sorted_wrt (\<lambda>x y. rank_of x \<le> rank_of y) (sort_key rank_of ncs)"
    using sorted_sort_key [of rank_of ncs] by (simp add: sorted_map)
  then show "sorted (map (\<lambda>x. - int (nc_Count x)) (sort_key rank_of ncs))"
    unfolding sorted_map by (rule sorted_wrt_mono_rel [rotated]) (auto simp: rank_of_def)
qed simp

lemma top_sorted: "sorted (map rank_of (topN m n))"
  by (simp add: topN_def order_counts_rank sorted_wrt_take flip: take_map)

end
