(* ===== verification/Bans.thy ===== *)
theory Bans
  imports Engine SecMetrics
begin

text \<open>
  Automatic and manual bans, \<open>internal/engine/bans.go\<close>: the cached settings, the sliding window of WAF
  blocks per address, the debounced reload, pruning and the sweep of stale windows. Each step is a
  function on the engine state; the clock is an argument.
\<close>

section \<open>Settings\<close>

abbreviation defBanThreshold :: int where "defBanThreshold \<equiv> 5"
abbreviation defBanWindowSec :: int where "defBanWindowSec \<equiv> 600"
abbreviation defBanDuration :: int where "defBanDuration \<equiv> 3600"

definition boolStr :: "bool \<Rightarrow> string" where
  "boolStr b = (if b then ''true'' else ''false'')"

definition loadBanConfig :: "engine \<Rightarrow> ban_config \<times> engine" where
  "loadBanConfig e =
     (let (en, e1) = settingBool ''ban.enabled'' False e;
          (th, e2) = settingInt ''ban.threshold'' defBanThreshold e1;
          (win, e3) = settingInt ''ban.windowSec'' defBanWindowSec e2;
          (dur, e4) = settingInt ''ban.durationSec'' defBanDuration e3 in
      (\<lparr>bc_Enabled = en, bc_Threshold = th, bc_WindowSec = win, bc_DurationSec = dur\<rparr>, e4))"

definition BanConfig :: "engine \<Rightarrow> ban_config \<times> engine" where
  "BanConfig e =
     (case en_banConfig e of
        Some c \<Rightarrow> (c, e)
      | None \<Rightarrow> (let (c, e') = loadBanConfig e in (c, e'\<lparr>en_banConfig := Some c\<rparr>)))"

definition normal_ban_config :: "ban_config \<Rightarrow> ban_config" where
  "normal_ban_config c = c\<lparr>
     bc_Threshold := (if bc_Threshold c < 1 then defBanThreshold else bc_Threshold c),
     bc_WindowSec := (if bc_WindowSec c < 1 then defBanWindowSec else bc_WindowSec c),
     bc_DurationSec := (if bc_DurationSec c < 0 then defBanDuration else bc_DurationSec c)\<rparr>"

fun set_settings :: "(string \<times> string) list \<Rightarrow> unit eop" where
  "set_settings [] = e_return ()"
| "set_settings ((k, v) # kvs) = e_then (run_db (SetSetting k v)) (\<lambda>_. set_settings kvs)"

definition SetBanConfig :: "ban_config \<Rightarrow> unit eop" where
  "SetBanConfig c0 e =
     (let c = normal_ban_config c0 in
      case set_settings [(''ban.enabled'', boolStr (bc_Enabled c)), (''ban.threshold'', show_int (bc_Threshold c)),
             (''ban.windowSec'', show_int (bc_WindowSec c)), (''ban.durationSec'', show_int (bc_DurationSec c))] e of
        (Inl x, e') \<Rightarrow> (Inl x, e'\<lparr>en_banConfig := None\<rparr>)
      | (Inr _, e') \<Rightarrow> (Inr (), e'\<lparr>en_banConfig := Some c\<rparr>))"

section \<open>Automatic bans\<close>

text \<open>\<open>time.Duration(n) * time.Second\<close>, at 64 bits.\<close>

definition secs :: "int \<Rightarrow> duration" where
  "secs n = wrap64 (n * second)"

definition scheduleBanReload :: "engine \<Rightarrow> engine" where
  "scheduleBanReload e = e\<lparr>en_banReload := True\<rparr>"

text \<open>The window of an address after a block: what is left of it, and whether it crossed the threshold.\<close>

definition slide :: "ban_config \<Rightarrow> gotime \<Rightarrow> gotime list \<Rightarrow> gotime list" where
  "slide c now hits = filter (\<lambda>t. now - secs (bc_WindowSec c) < t) (hits @ [now])"

definition ban_for :: "ban_config \<Rightarrow> gotime \<Rightarrow> string \<Rightarrow> nat \<Rightarrow> ban" where
  "ban_for c now ip cnt = \<lparr>b_IP = ip,
     b_Reason = ''auto: '' @ show_nat cnt @ '' WAF blocks in '' @ show_int (bc_WindowSec c) @ ''s'',
     b_Manual = False, b_Hits = int cnt, b_CreatedAt = zero_time,
     b_ExpiresAt = (if bc_DurationSec c > 0 then Some (now + secs (bc_DurationSec c)) else None)\<rparr>"

definition auto_ban :: "gotime \<Rightarrow> ban \<Rightarrow> engine \<Rightarrow> engine" where
  "auto_ban now b e =
     (case run_db (IsActivelyBanned (unix_of now) (b_IP b)) e of
        (Inr True, e1) \<Rightarrow> e1
      | (_, e1) \<Rightarrow>
          (case run_db (AddBan (unix_of now) b) e1 of
             (Inl _, e2) \<Rightarrow> e2
           | (Inr _, e2) \<Rightarrow> add_alert ''warning'' ''IP auto-banned'' (scheduleBanReload e2)))"

definition onWAFEvent :: "gotime \<Rightarrow> sec_event \<Rightarrow> engine \<Rightarrow> engine" where
  "onWAFEvent now ev e =
     (if \<not> ev_Blocked ev \<or> ev_ClientIP ev = [] then e
      else
        (let (c, e1) = BanConfig e; ip = ev_ClientIP ev in
         if \<not> bc_Enabled c then e1
         else
           (let kept = slide c now (mget_or [] (en_banHits e1) ip) in
            if \<not> bc_Threshold c \<le> int (length kept) then e1\<lparr>en_banHits := mput ip kept (en_banHits e1)\<rparr>
            else auto_ban now (ban_for c now ip (length kept)) (e1\<lparr>en_banHits := mdel ip (en_banHits e1)\<rparr>))))"

definition ban_reload_tick :: "libs \<Rightarrow> (string \<Rightarrow> string) \<Rightarrow> eng_cfg \<Rightarrow> int \<Rightarrow> engine \<Rightarrow> engine" where
  "ban_reload_tick L uni cfg now e =
     (if en_banReload e then snd (Reload L uni cfg now (e\<lparr>en_banReload := False\<rparr>)) else e)"

section \<open>Manual bans and pruning\<close>

definition ListBans :: "int \<Rightarrow> ban list eop" where
  "ListBans now = run_db (ListActiveBans now)"

definition AddManualBan ::
  "libs \<Rightarrow> (string \<Rightarrow> string) \<Rightarrow> eng_cfg \<Rightarrow> gotime \<Rightarrow> string \<Rightarrow> string \<Rightarrow> int \<Rightarrow> unit eop" where
  "AddManualBan L uni cfg now ip reason dur =
     e_then (run_db (AddBan (unix_of now) \<lparr>b_IP = ip, b_Reason = (if reason = [] then ''manual'' else reason),
        b_Manual = True, b_Hits = 0, b_CreatedAt = zero_time,
        b_ExpiresAt = (if dur > 0 then Some (now + secs dur) else None)\<rparr>)) (\<lambda>_.
     e_then (Reload L uni cfg (unix_of now)) (\<lambda>_. e_return ()))"

definition RemoveBan :: "libs \<Rightarrow> (string \<Rightarrow> string) \<Rightarrow> eng_cfg \<Rightarrow> int \<Rightarrow> string \<Rightarrow> unit eop" where
  "RemoveBan L uni cfg now ip =
     e_then (run_db (DeleteBan ip)) (\<lambda>_.
     e_then (e_update (\<lambda>e. e\<lparr>en_banHits := mdel ip (en_banHits e)\<rparr>)) (\<lambda>_.
     e_then (Reload L uni cfg now) (\<lambda>_. e_return ())))"

definition sweepBanHits :: "gotime \<Rightarrow> engine \<Rightarrow> engine" where
  "sweepBanHits now e =
     (let (c, e1) = BanConfig e; cut = now - secs (bc_WindowSec c) in
      e1\<lparr>en_banHits := filter (\<lambda>(ip, ts). \<not> (ts = [] \<or> last ts < cut)) (en_banHits e1)\<rparr>)"

definition ban_prune_tick :: "libs \<Rightarrow> (string \<Rightarrow> string) \<Rightarrow> eng_cfg \<Rightarrow> gotime \<Rightarrow> engine \<Rightarrow> engine" where
  "ban_prune_tick L uni cfg now e =
     (case run_db (PruneExpiredBans (unix_of now)) (sweepBanHits now e) of
        (Inl _, e1) \<Rightarrow> e1
      | (Inr n, e1) \<Rightarrow> if n > 0 then snd (Reload L uni cfg (unix_of now) e1) else e1)"

section \<open>Settings survive the database\<close>

lemma SetSetting_no_fault:
  "db_faults d = [] \<Longrightarrow> SetSetting k v d = (Inr (), d\<lparr>db_settings := mput k v (db_settings d)\<rparr>)"
  by (simp add: SetSetting_def and_then_def done_with_def)

lemma set_settings_no_fault:
  "db_faults (en_db e) = [] \<Longrightarrow> set_settings kvs e =
     (Inr (), e\<lparr>en_db := (en_db e)\<lparr>db_settings := fold (\<lambda>(k, v) m. mput k v m) kvs (db_settings (en_db e))\<rparr>\<rparr>)"
proof (induction kvs arbitrary: e)
  case (Cons kv kvs)
  obtain k v where kv: "kv = (k, v)" by (cases kv)
  let ?e = "e\<lparr>en_db := (en_db e)\<lparr>db_settings := mput k v (db_settings (en_db e))\<rparr>\<rparr>"
  have "set_settings (kv # kvs) e = set_settings kvs ?e"
    using Cons.prems by (simp add: kv e_then_def run_db_def SetSetting_no_fault)
  also have "\<dots> = (Inr (), ?e\<lparr>en_db := (en_db ?e)\<lparr>db_settings := fold (\<lambda>(k, v) m. mput k v m) kvs (db_settings (en_db ?e))\<rparr>\<rparr>)"
    using Cons.prems by (intro Cons.IH) simp
  finally show ?case by (simp add: kv)
qed (simp add: e_return_def)

lemma sscanf_show:
  assumes "0 \<le> n" "n < 2 ^ 63"
  shows "sscanf_d (show_int n) = Some n"
proof -
  define m where "m = nat n"
  have n: "n = int m" "m < 2 ^ 63" using assms by (simp_all add: m_def nat_less_iff)
  obtain c cs where s: "show_nat m = c # cs" using show_nat_nonempty [of m] by (cases "show_nat m") auto
  have d: "is_digit c" using show_nat_digits [of m] by (simp add: s)
  then have nosign: "c \<noteq> CHR ''-''" "c \<noteq> CHR ''+''" by (auto simp: is_digit_def)
  have p: "printable c" using d by (simp add: is_digit_def printable_def)
  have lead: "lead_len (filter (\<lambda>p. p \<noteq> [CHR 0x0A]) space_seqs) (c # cs) = 0"
  proof -
    have "\<not> prefix q (c # cs)" if "q \<in> set (filter (\<lambda>p. p \<noteq> [CHR 0x0A]) space_seqs)" for q
    proof -
      have "q \<noteq> [] \<and> \<not> printable (hd q)" using space_not_printable that by auto
      with p show ?thesis by (cases q) auto
    qed
    then have "find (\<lambda>q. prefix q (c # cs)) (filter (\<lambda>p. p \<noteq> [CHR 0x0A]) space_seqs) = None" by (auto simp: find_None_iff)
    then show ?thesis by (simp add: lead_len_def)
  qed
  have "trim_lead (filter (\<lambda>p. p \<noteq> [CHR 0x0A]) space_seqs) (show_nat m) = show_nat m"
    unfolding s using lead by (subst trim_lead.simps) simp
  moreover have "takeWhile is_digit (show_nat m) = show_nat m"
    using show_nat_digits [of m] by (simp add: takeWhile_eq_all_conv list_all_iff)
  moreover have "atoi_unsigned False (show_nat m) = (int m, True)" using n(2) by (rule atoi_unsigned_show_nat(1))
  ultimately show ?thesis using nosign by (simp add: sscanf_d_def n(1) show_int_def s)
qed

lemma settingInt_stored:
  assumes "db_faults (en_db e) = []" "mget (db_settings (en_db e)) k = Some (show_int n)" "0 \<le> n" "n < 2 ^ 63"
  shows "settingInt k dflt e = (n, e)"
proof -
  have "show_int n \<noteq> []" using show_nat_nonempty [of "nat n"] assms(3) by (simp add: show_int_def)
  with assms sscanf_show [OF assms(3,4)] show ?thesis
    by (simp add: settingInt_def run_db_def GetSetting_def)
qed

lemma settingBool_stored:
  assumes "db_faults (en_db e) = []" "mget (db_settings (en_db e)) k = Some (boolStr b)"
  shows "settingBool k dflt e = (b, e)"
  using assms by (cases b) (simp_all add: settingBool_def run_db_def GetSetting_def boolStr_def truthy_def)

definition stored_config :: "ban_config \<Rightarrow> engine \<Rightarrow> bool" where
  "stored_config c e \<longleftrightarrow> db_faults (en_db e) = []
     \<and> mget (db_settings (en_db e)) ''ban.enabled'' = Some (boolStr (bc_Enabled c))
     \<and> mget (db_settings (en_db e)) ''ban.threshold'' = Some (show_int (bc_Threshold c))
     \<and> mget (db_settings (en_db e)) ''ban.windowSec'' = Some (show_int (bc_WindowSec c))
     \<and> mget (db_settings (en_db e)) ''ban.durationSec'' = Some (show_int (bc_DurationSec c))"

definition in_range :: "ban_config \<Rightarrow> bool" where
  "in_range c \<longleftrightarrow> 0 \<le> bc_Threshold c \<and> bc_Threshold c < 2 ^ 63 \<and> 0 \<le> bc_WindowSec c \<and> bc_WindowSec c < 2 ^ 63
     \<and> 0 \<le> bc_DurationSec c \<and> bc_DurationSec c < 2 ^ 63"

lemma load_stored: "stored_config c e \<Longrightarrow> in_range c \<Longrightarrow> loadBanConfig e = (c, e)"
  unfolding stored_config_def in_range_def loadBanConfig_def
  by (simp add: settingBool_stored settingInt_stored)

text \<open>
  Ban settings survive a restart: after settings are saved without a database error, the engine
  uses the normalised settings at once, and an instance that starts without the cached copy reads the
  same settings back from the database.
\<close>

theorem ban_config_roundtrip:
  assumes "db_faults (en_db e) = []" "bc_Threshold c < 2 ^ 63" "bc_WindowSec c < 2 ^ 63" "bc_DurationSec c < 2 ^ 63"
    and "SetBanConfig c e = (r, e')"
  shows "r = Inr () \<and> fst (BanConfig e') = normal_ban_config c
    \<and> fst (BanConfig (e'\<lparr>en_banConfig := None\<rparr>)) = normal_ban_config c"
proof -
  let ?c = "normal_ban_config c"
  have r: "r = Inr ()" "en_banConfig e' = Some ?c" and st: "stored_config ?c (e'\<lparr>en_banConfig := None\<rparr>)"
    using assms(1,5) unfolding SetBanConfig_def Let_def set_settings_no_fault [OF assms(1)]
    by (auto simp: stored_config_def)
  have "in_range ?c" using assms(2-4) by (auto simp: in_range_def normal_ban_config_def)
  from load_stored [OF st this] r show ?thesis by (simp add: BanConfig_def)
qed

section \<open>Automatic bans are justified\<close>

text \<open>The engine over a run of events, and the blocks of an address in it, with their times.\<close>

definition waf_run :: "(gotime \<times> sec_event) list \<Rightarrow> engine \<Rightarrow> engine" where
  "waf_run evs e = fold (\<lambda>(now, ev). onWAFEvent now ev) evs e"

definition blocks_of :: "string \<Rightarrow> (gotime \<times> sec_event) list \<Rightarrow> gotime list" where
  "blocks_of ip evs = map fst (filter (\<lambda>(t, ev). ev_Blocked ev \<and> ev_ClientIP ev = ip) evs)"

lemma waf_run_snoc: "waf_run (evs @ [(now, ev)]) e = onWAFEvent now ev (waf_run evs e)"
  by (simp add: waf_run_def)

lemma blocks_of_snoc: "blocks_of ip (evs @ [(now, ev)]) =
    blocks_of ip evs @ (if ev_Blocked ev \<and> ev_ClientIP ev = ip then [now] else [])"
  by (simp add: blocks_of_def)

definition justified :: "ban_config \<Rightarrow> (gotime \<times> sec_event) list \<Rightarrow> string \<Rightarrow> bool" where
  "justified c evs ip \<longleftrightarrow> (\<exists>n \<le> length evs. n \<noteq> 0 \<and>
     bc_Threshold c \<le> int (length (filter (\<lambda>t. fst (evs ! (n - 1)) - secs (bc_WindowSec c) < t) (blocks_of ip (take n evs)))))"

lemma justified_snoc: "justified c evs ip \<Longrightarrow> justified c (evs @ [x]) ip"
  unfolding justified_def
proof (elim exE conjE)
  fix n assume n: "n \<le> length evs" "n \<noteq> 0"
    and le: "bc_Threshold c \<le> int (length (filter (\<lambda>t. fst (evs ! (n - 1)) - secs (bc_WindowSec c) < t) (blocks_of ip (take n evs))))"
  then show "\<exists>n \<le> length (evs @ [x]). n \<noteq> 0 \<and> bc_Threshold c \<le> int (length (filter
      (\<lambda>t. fst ((evs @ [x]) ! (n - 1)) - secs (bc_WindowSec c) < t) (blocks_of ip (take n (evs @ [x])))))"
    by (intro exI [of _ n]) (auto simp: nth_append)
qed

text \<open>The windows hold only blocks that happened; each ban row is justified.\<close>

definition windows_ok :: "ban_config \<Rightarrow> (gotime \<times> sec_event) list \<Rightarrow> engine \<Rightarrow> bool" where
  "windows_ok c evs e \<longleftrightarrow> en_banConfig e = Some c
     \<and> (\<forall>ip. mset (mget_or [] (en_banHits e) ip) \<subseteq># mset (blocks_of ip evs))
     \<and> (\<forall>r \<in> set (db_bans (en_db e)). justified c evs (br_ip r))"

lemma justified_now:
  assumes "A \<subseteq># mset (blocks_of ip (evs @ [(now, ev)]))"
    and "bc_Threshold c \<le> int (size (filter_mset (\<lambda>t. now - secs (bc_WindowSec c) < t) A))"
  shows "justified c (evs @ [(now, ev)]) ip"
proof -
  have "size (filter_mset (\<lambda>t. now - secs (bc_WindowSec c) < t) A)
      \<le> length (filter (\<lambda>t. now - secs (bc_WindowSec c) < t) (blocks_of ip (evs @ [(now, ev)])))"
    by (metis assms(1) mset_filter multiset_filter_mono size_mset size_mset_mono)
  with assms(2) show ?thesis
    unfolding justified_def by (intro exI [of _ "Suc (length evs)"]) simp
qed

lemma AddBan_rows:
  "br_ip ` set (db_bans (snd (AddBan now b d))) \<subseteq> insert (b_IP b) (br_ip ` set (db_bans d))"
  by (auto simp: AddBan_def and_then_def stmt_def done_with_def split: list.splits bool.splits)

lemma IsActivelyBanned_frame: "db_bans (snd (IsActivelyBanned now ip d)) = db_bans d"
  by (auto simp: IsActivelyBanned_def stmt_def split: list.splits bool.splits)


lemma windows_ok_slide:
  assumes "windows_ok c evs e"
  shows "mset (slide c now (mget_or [] (en_banHits e) ip)) \<subseteq># mset (blocks_of ip evs) + {#now#}"
proof -
  have "mset (slide c now (mget_or [] (en_banHits e) ip)) \<subseteq># mset (mget_or [] (en_banHits e) ip @ [now])"
    unfolding slide_def mset_filter by (rule multiset_filter_subset)
  also have "\<dots> \<subseteq># mset (blocks_of ip evs) + {#now#}" using assms by (simp add: windows_ok_def)
  finally show ?thesis .
qed

lemma slide_idem: "filter_mset (\<lambda>t. now - secs (bc_WindowSec c) < t) (mset (slide c now hits)) = mset (slide c now hits)"
  by (simp add: slide_def filter_filter_mset)

lemma blocks_of_mono: "mset (blocks_of ip evs) \<subseteq># mset (blocks_of ip (evs @ [x]))"
  by (cases x) (simp add: blocks_of_snoc)

text \<open>The database part of an automatic ban; the first component says whether a row was written.\<close>

definition ban_db :: "gotime \<Rightarrow> ban \<Rightarrow> db \<Rightarrow> bool \<times> db" where
  "ban_db now b d =
     (let (q, d1) = IsActivelyBanned (unix_of now) (b_IP b) d; (r, d2) = AddBan (unix_of now) b d1 in
      if q = Inr True then (False, d1) else (\<not> isl r, d2))"

lemma auto_ban_eq: "auto_ban now b e =
    e\<lparr>en_db := snd (ban_db now b (en_db e)), en_banReload := en_banReload e \<or> fst (ban_db now b (en_db e)),
      en_alerts := en_alerts e @ (if fst (ban_db now b (en_db e)) then [(''warning'', ''IP auto-banned'')] else [])\<rparr>"
proof -
  obtain q d1 where q: "IsActivelyBanned (unix_of now) (b_IP b) (en_db e) = (q, d1)" by fastforce
  obtain r d2 where r: "AddBan (unix_of now) b d1 = (r, d2)" by fastforce
  show ?thesis
  proof (cases "q = Inr True")
    case True
    with q r show ?thesis by (simp add: auto_ban_def ban_db_def run_db_def)
  next
    case False
    then show ?thesis using q r
      by (cases q; cases r) (simp_all add: auto_ban_def ban_db_def run_db_def add_alert_def scheduleBanReload_def)
  qed
qed

lemma auto_ban_frame [simp]:
  "en_banConfig (auto_ban now b e) = en_banConfig e" "en_banHits (auto_ban now b e) = en_banHits e"
  by (simp_all add: auto_ban_eq)

lemma auto_ban_hits: "auto_ban now b (e\<lparr>en_banHits := h\<rparr>) = (auto_ban now b e)\<lparr>en_banHits := h\<rparr>"
  by (simp add: auto_ban_eq)

lemma auto_ban_rows:
  "br_ip ` set (db_bans (en_db (auto_ban now b e))) \<subseteq> insert (b_IP b) (br_ip ` set (db_bans (en_db e)))"
proof -
  have rows: "db_bans d1 = db_bans (en_db e)"
    if "IsActivelyBanned (unix_of now) (b_IP b) (en_db e) = (q, d1)" for q d1
    using IsActivelyBanned_frame [of "unix_of now" "b_IP b" "en_db e"] that by simp
  have add: "br_ip ` set (db_bans d2) \<subseteq> insert (b_IP b) (br_ip ` set (db_bans d1))"
    if "AddBan (unix_of now) b d1 = (r, d2)" for r d1 d2
    using AddBan_rows [of "unix_of now" b d1] that by simp
  show ?thesis
    by (auto simp: auto_ban_eq ban_db_def rows split: prod.splits dest: add [THEN subsetD, OF _ imageI])
qed

text \<open>What one event does, by cases: nothing, a longer window, or a crossing of the threshold.\<close>

definition skips :: "ban_config \<Rightarrow> sec_event \<Rightarrow> bool" where
  "skips c ev \<longleftrightarrow> \<not> ev_Blocked ev \<or> ev_ClientIP ev = [] \<or> \<not> bc_Enabled c"

lemma onWAFEvent_skip: "en_banConfig e = Some c \<Longrightarrow> skips c ev \<Longrightarrow> onWAFEvent now ev e = e"
  by (auto simp: onWAFEvent_def BanConfig_def skips_def)

lemma onWAFEvent_count:
  assumes "en_banConfig e = Some c" "\<not> skips c ev"
    and kept: "kept = slide c now (mget_or [] (en_banHits e) (ev_ClientIP ev))"
  shows "onWAFEvent now ev e =
    (if bc_Threshold c \<le> int (length kept)
     then (auto_ban now (ban_for c now (ev_ClientIP ev) (length kept)) e)\<lparr>en_banHits := mdel (ev_ClientIP ev) (en_banHits e)\<rparr>
     else e\<lparr>en_banHits := mput (ev_ClientIP ev) kept (en_banHits e)\<rparr>)"
  using assms(1,2) by (simp add: onWAFEvent_def BanConfig_def skips_def Let_def auto_ban_hits kept)

lemma onWAFEvent_config: "en_banConfig e = Some c \<Longrightarrow> en_banConfig (onWAFEvent now ev e) = Some c"
  by (cases "skips c ev") (simp_all add: onWAFEvent_skip onWAFEvent_count [OF _ _ refl])

lemma windows_ok_step:
  assumes "windows_ok c evs e"
  shows "windows_ok c (evs @ [(now, ev)]) (onWAFEvent now ev e)"
proof -
  let ?ip = "ev_ClientIP ev" and ?evs = "evs @ [(now, ev)]"
  have c: "en_banConfig e = Some c" and rows: "\<And>r. r \<in> set (db_bans (en_db e)) \<Longrightarrow> justified c ?evs (br_ip r)"
    and hits: "\<And>i. mset (mget_or [] (en_banHits e) i) \<subseteq># mset (blocks_of i ?evs)"
    using assms by (auto simp: windows_ok_def intro: justified_snoc subset_mset.trans [OF _ blocks_of_mono])
  have slid: "ev_Blocked ev \<Longrightarrow> mset (slide c now (mget_or [] (en_banHits e) ?ip)) \<subseteq># mset (blocks_of ?ip ?evs)"
    using windows_ok_slide [OF assms, of now ?ip] by (simp add: blocks_of_snoc)
  have ban: "justified c ?evs ?ip"
    if "ev_Blocked ev" "bc_Threshold c \<le> int (length (slide c now (mget_or [] (en_banHits e) ?ip)))"
  proof -
    let ?A = "mset (slide c now (mget_or [] (en_banHits e) ?ip))"
    have "bc_Threshold c \<le> int (size (filter_mset (\<lambda>t. now - secs (bc_WindowSec c) < t) ?A))"
      using that(2) unfolding slide_idem size_mset .
    with slid [OF that(1)] show ?thesis by (rule justified_now)
  qed
  let ?kept = "slide c now (mget_or [] (en_banHits e) ?ip)"
  consider "skips c ev" | "\<not> skips c ev" "bc_Threshold c \<le> int (length ?kept)"
    | "\<not> skips c ev" "\<not> bc_Threshold c \<le> int (length ?kept)" by blast
  then show ?thesis
  proof cases
    case 1
    with c rows hits show ?thesis by (simp add: windows_ok_def onWAFEvent_skip)
  next
    case 2
    then have bl: "ev_Blocked ev" by (simp add: skips_def)
    have "justified c ?evs (br_ip r)"
      if "r \<in> set (db_bans (en_db (auto_ban now (ban_for c now ?ip (length ?kept)) e)))" for r
    proof -
      from auto_ban_rows [of now "ban_for c now ?ip (length ?kept)" e] that
      consider "br_ip r = ?ip" | r' where "r' \<in> set (db_bans (en_db e))" "br_ip r = br_ip r'"
        by (auto simp: ban_for_def)
      then show ?thesis using ban [OF bl 2(2)] rows by cases simp_all
    qed
    with c hits 2 show ?thesis by (simp add: windows_ok_def onWAFEvent_count [OF _ _ refl] mget_or_def)
  next
    case 3
    then have "ev_Blocked ev" by (simp add: skips_def)
    with c rows hits slid 3 show ?thesis by (simp add: windows_ok_def onWAFEvent_count [OF _ _ refl] mget_or_def)
  qed
qed

lemma windows_ok_run: "windows_ok c [] e \<Longrightarrow> windows_ok c evs (waf_run evs e)"
proof (induction evs rule: rev_induct)
  case (snoc x xs)
  then show ?case by (cases x) (simp add: waf_run_snoc windows_ok_step)
qed (simp add: waf_run_def)


section \<open>The sweep changes no decision\<close>

text \<open>Two sets of windows that agree on what is left of them at a time.\<close>

definition agree_at :: "ban_config \<Rightarrow> gotime \<Rightarrow> (string, gotime list) gomap \<Rightarrow> (string, gotime list) gomap \<Rightarrow> bool" where
  "agree_at c now h1 h2 \<longleftrightarrow> (\<forall>ip. filter (\<lambda>t. now - secs (bc_WindowSec c) < t) (mget_or [] h1 ip)
      = filter (\<lambda>t. now - secs (bc_WindowSec c) < t) (mget_or [] h2 ip))"

lemma agree_later:
  assumes "agree_at c now h1 h2" "now \<le> now'"
  shows "agree_at c now' h1 h2"
proof -
  have "filter (\<lambda>t. now' - w < t) xs = filter (\<lambda>t. now' - w < t) (filter (\<lambda>t. now - w < t) xs)" for w and xs :: "int list"
    using assms(2) by (auto intro: filter_cong)
  with assms(1) show ?thesis unfolding agree_at_def by metis
qed

lemma agree_slide: "agree_at c now h1 h2 \<Longrightarrow> slide c now (mget_or [] h1 ip) = slide c now (mget_or [] h2 ip)"
  by (simp add: agree_at_def slide_def)

lemma agree_mput: "agree_at c now h1 h2 \<Longrightarrow> agree_at c now (mput ip ts h1) (mput ip ts h2)"
  by (simp add: agree_at_def mget_or_def)

lemma agree_mdel: "agree_at c now h1 h2 \<Longrightarrow> agree_at c now (mdel ip h1) (mdel ip h2)"
  by (simp add: agree_at_def mget_or_def)

lemma onWAFEvent_agree:
  assumes c: "en_banConfig e = Some c" and h: "agree_at c now (en_banHits e) h"
  shows "\<exists>h'. onWAFEvent now ev (e\<lparr>en_banHits := h\<rparr>) = (onWAFEvent now ev e)\<lparr>en_banHits := h'\<rparr>
    \<and> agree_at c now (en_banHits (onWAFEvent now ev e)) h'"
proof (cases "skips c ev")
  case True
  with c h show ?thesis by (intro exI [of _ h]) (simp add: onWAFEvent_skip)
next
  case False
  let ?ip = "ev_ClientIP ev" and ?eh = "e\<lparr>en_banHits := h\<rparr>"
  let ?kept = "slide c now (mget_or [] (en_banHits e) ?ip)"
  have "onWAFEvent now ev ?eh =
    (if bc_Threshold c \<le> int (length ?kept)
     then (auto_ban now (ban_for c now ?ip (length ?kept)) ?eh)\<lparr>en_banHits := mdel ?ip h\<rparr>
     else ?eh\<lparr>en_banHits := mput ?ip ?kept h\<rparr>)"
    using onWAFEvent_count [of ?eh c ev ?kept now] c False agree_slide [OF h] by simp
  moreover note onWAFEvent_count [OF c False refl, of now]
  ultimately show ?thesis
    using agree_mput [OF h] agree_mdel [OF h] by (cases "bc_Threshold c \<le> int (length ?kept)") (auto simp: auto_ban_hits)
qed

lemma waf_run_agree:
  assumes "en_banConfig e = Some c" "agree_at c now (en_banHits e) h" "sorted (now # map fst evs)"
  shows "\<exists>h'. waf_run evs (e\<lparr>en_banHits := h\<rparr>) = (waf_run evs e)\<lparr>en_banHits := h'\<rparr>"
  using assms
proof (induction evs arbitrary: e h now)
  case Nil
  then show ?case by (auto simp: waf_run_def)
next
  case (Cons x evs)
  obtain t ev where x: "x = (t, ev)" by (cases x)
  have "now \<le> t" using Cons.prems(3) by (simp add: x)
  from onWAFEvent_agree [OF Cons.prems(1) agree_later [OF Cons.prems(2) this]] obtain h' where
    h': "onWAFEvent t ev (e\<lparr>en_banHits := h\<rparr>) = (onWAFEvent t ev e)\<lparr>en_banHits := h'\<rparr>"
      "agree_at c t (en_banHits (onWAFEvent t ev e)) h'" by blast
  from Cons.IH [OF onWAFEvent_config [OF Cons.prems(1)] h'(2)] Cons.prems(3) h'(1) show ?case by (simp add: x waf_run_def)
qed

text \<open>In a run in time order, each window is in time order and holds no later time.\<close>

definition windows_sorted :: "gotime \<Rightarrow> (string, gotime list) gomap \<Rightarrow> bool" where
  "windows_sorted now h \<longleftrightarrow> wf_gomap h \<and> (\<forall>ip. sorted (mget_or [] h ip @ [now]))"

lemma windows_sorted_later: "windows_sorted now h \<Longrightarrow> now \<le> now' \<Longrightarrow> windows_sorted now' h"
  by (fastforce simp: windows_sorted_def sorted_append)

lemma slide_sorted: "sorted (hits @ [now]) \<Longrightarrow> sorted (slide c now hits @ [now])"
  unfolding slide_def by (auto simp: sorted_append sorted_wrt_filter)

lemma windows_sorted_step:
  assumes "en_banConfig e = Some c" "windows_sorted now (en_banHits e)"
  shows "windows_sorted now (en_banHits (onWAFEvent now ev e))"
proof (cases "skips c ev")
  case True
  with assms show ?thesis by (simp add: onWAFEvent_skip)
next
  case False
  from assms(2) have "sorted (slide c now (mget_or [] (en_banHits e) (ev_ClientIP ev)) @ [now])"
    by (intro slide_sorted) (simp add: windows_sorted_def)
  with assms False show ?thesis
    by (simp add: onWAFEvent_count [OF _ _ refl] windows_sorted_def mget_or_def)
qed

lemma windows_sorted_run:
  "en_banConfig e = Some c \<Longrightarrow> windows_sorted now (en_banHits e) \<Longrightarrow> sorted (now # map fst evs)
   \<Longrightarrow> windows_sorted (last (now # map fst evs)) (en_banHits (waf_run evs e)) \<and> en_banConfig (waf_run evs e) = Some c"
proof (induction evs arbitrary: e now)
  case (Cons x evs)
  obtain t ev where x: "x = (t, ev)" by (cases x)
  have le: "now \<le> t" "sorted (t # map fst evs)" using Cons.prems(3) by (simp_all add: x)
  have "windows_sorted (last (t # map fst evs)) (en_banHits (waf_run evs (onWAFEvent t ev e)))
      \<and> en_banConfig (waf_run evs (onWAFEvent t ev e)) = Some c"
    using Cons.prems(1,2) le
    by (intro Cons.IH onWAFEvent_config windows_sorted_step windows_sorted_later [OF _ le(1)])
  then show ?case by (simp add: x waf_run_def)
qed (simp add: waf_run_def)

lemma sweep_agrees:
  assumes "en_banConfig e = Some c" "windows_sorted now (en_banHits e)"
  shows "\<exists>h. sweepBanHits now e = e\<lparr>en_banHits := h\<rparr> \<and> agree_at c now (en_banHits e) h"
proof -
  define stale where "stale ts \<longleftrightarrow> ts = [] \<or> last ts < now - secs (bc_WindowSec c)" for ts :: "gotime list"
  let ?h = "filter (\<lambda>(ip, ts). \<not> stale ts) (en_banHits e)"
  have old: "filter (\<lambda>t. now - secs (bc_WindowSec c) < t) ts = []" if "stale ts" "sorted ts" for ts
    using that by (cases ts rule: rev_cases) (auto simp: stale_def sorted_append filter_empty_conv)
  have wf: "wf_gomap (en_banHits e)" and so: "\<And>ip. sorted (mget_or [] (en_banHits e) ip)"
    using assms(2) by (auto simp: windows_sorted_def sorted_append)
  have "filter (\<lambda>t. now - secs (bc_WindowSec c) < t) (mget_or [] (en_banHits e) ip)
      = filter (\<lambda>t. now - secs (bc_WindowSec c) < t) (mget_or [] ?h ip)" for ip
  proof (cases "stale (mget_or [] (en_banHits e) ip)")
    case True
    then have "mget_or [] ?h ip = []"
      using mget_filter [OF wf, of "\<lambda>_ ts. \<not> stale ts" ip] by (auto simp: mget_or_def split: option.splits)
    with old [OF True so] show ?thesis by simp
  next
    case False
    then have "mget_or [] ?h ip = mget_or [] (en_banHits e) ip"
      using mget_filter [OF wf, of "\<lambda>_ ts. \<not> stale ts" ip] by (auto simp: mget_or_def split: option.splits)
    then show ?thesis by simp
  qed
  then have "agree_at c now (en_banHits e) ?h" unfolding agree_at_def by blast
  moreover have "sweepBanHits now e = e\<lparr>en_banHits := ?h\<rparr>"
    using assms(1) by (simp add: sweepBanHits_def BanConfig_def stale_def)
  ultimately show ?thesis by blast
qed


section \<open>Witnesses\<close>

definition two_strikes :: ban_config where
  "two_strikes = \<lparr>bc_Enabled = True, bc_Threshold = 2, bc_WindowSec = 600, bc_DurationSec = 3600\<rparr>"

definition quiet_engine :: engine where
  "quiet_engine = \<lparr>en_db = empty_db, en_env = [], en_rendered = None, en_version = 0, en_edgeHosts = [],
     en_edgeFlags = (False, False), en_banHits = [], en_banReload = False, en_banConfig = Some two_strikes,
     en_recoverLevel = 0, en_lastRecovery = [], en_lastRecoveryAt = zero_time, en_wafStatus = (True, []), en_alerts = []\<rparr>"

definition strike :: sec_event where
  "strike = \<lparr>ev_At = 0, ev_ClientIP = ''9.9.9.9'', ev_Host = ''a.b'', ev_Method = ''GET'', ev_URI = ''/'', ev_RuleID = ''1'',
     ev_Message = [], ev_Category = ''sqli'', ev_Severity = 2, ev_Blocked = True\<rparr>"

lemma not_skipped: "\<not> skips two_strikes strike"
  by (simp add: skips_def two_strikes_def strike_def)

lemma secs_600: "secs 600 = 600 * second"
  by (simp add: secs_def wrap64_def)

lemma first_strike: "onWAFEvent 0 strike quiet_engine = quiet_engine\<lparr>en_banHits := [(''9.9.9.9'', [0])]\<rparr>"
proof -
  have "en_banConfig quiet_engine = Some two_strikes" by (simp add: quiet_engine_def)
  from onWAFEvent_count [OF this not_skipped refl, of 0] show ?thesis
    by (simp add: slide_def quiet_engine_def mget_or_def two_strikes_def secs_600 strike_def)
qed

lemma second_strike:
  "br_ip ` set (db_bans (en_db (waf_run [(0, strike), (second, strike)] quiet_engine))) = {''9.9.9.9''}"
proof -
  let ?e = "quiet_engine\<lparr>en_banHits := [(''9.9.9.9'', [0])]\<rparr>"
  let ?b = "ban_for two_strikes second ''9.9.9.9'' 2"
  have c: "en_banConfig ?e = Some two_strikes" by (simp add: quiet_engine_def)
  have ip: "ev_ClientIP strike = ''9.9.9.9''" by (simp add: strike_def)
  have "onWAFEvent second strike ?e = (auto_ban second ?b ?e)\<lparr>en_banHits := []\<rparr>"
    using onWAFEvent_count [OF c not_skipped refl, of second]
    by (simp add: slide_def mget_or_def two_strikes_def secs_600 ip numeral_2_eq_2)
  moreover have "br_ip ` set (db_bans (snd (ban_db second ?b empty_db))) = {''9.9.9.9''}"
    by (simp add: ban_db_def IsActivelyBanned_def AddBan_def and_then_def empty_db_def ban_for_def)
  ultimately show ?thesis
    by (simp add: waf_run_def first_strike auto_ban_eq) (simp add: quiet_engine_def)
qed



lemma ban_config_roundtrip_witness:
  "fst (BanConfig (snd (SetBanConfig (two_strikes\<lparr>bc_Threshold := 0\<rparr>) quiet_engine))) = two_strikes\<lparr>bc_Threshold := 5\<rparr>"
proof -
  obtain r e' where e': "SetBanConfig (two_strikes\<lparr>bc_Threshold := 0\<rparr>) quiet_engine = (r, e')" by fastforce
  have "r = Inr () \<and> fst (BanConfig e') = normal_ban_config (two_strikes\<lparr>bc_Threshold := 0\<rparr>)
    \<and> fst (BanConfig (e'\<lparr>en_banConfig := None\<rparr>)) = normal_ban_config (two_strikes\<lparr>bc_Threshold := 0\<rparr>)"
    by (rule ban_config_roundtrip [OF _ _ _ _ e']) (simp_all add: quiet_engine_def empty_db_def two_strikes_def)
  with e' show ?thesis by (simp add: normal_ban_config_def two_strikes_def)
qed

end
