(* ===== verification/Config.thy ===== *)
theory Config
  imports Cron Acme
begin

text \<open>
  Process configuration, \<open>internal/config/config.go\<close>: the readers of environment variables, the parsers
  of byte sizes, durations and stream entry points, and \<open>Load\<close> with its derived addresses and checks. The
  environment is a map; the Unicode case tables and the floating-point product in \<open>time.ParseDuration\<close> are
  fields of \<open>cfg_libs\<close>.
\<close>

section \<open>Types\<close>

record stream_entry_point =
  se_Name :: string
  se_Proto :: string
  se_Port :: int

record cfg_libs =
  cl_lower :: "string \<Rightarrow> string"
  cl_upper :: "string \<Rightarrow> string"
  cl_frac :: "nat \<Rightarrow> nat \<Rightarrow> nat \<Rightarrow> nat"

definition DriverSQLite :: string where "DriverSQLite = ''sqlite''"
definition DriverPostgres :: string where "DriverPostgres = ''postgres''"

definition ProviderTokenHeader :: string where
  "ProviderTokenHeader = ''X-xgress-Provider-Token''"

record config =
  cf_DataDir :: string
  cf_DBDriver :: string
  cf_DBDSN :: string
  cf_AdminListen :: string
  cf_ProviderListen :: string
  cf_ProviderAdvertise :: string
  cf_ProviderPollInterval :: duration
  cf_ProviderToken :: string
  cf_TraefikBinary :: string
  cf_TraefikManaged :: bool
  cf_TraefikStaticCfg :: string
  cf_HTTPEntryPoint :: string
  cf_HTTPSEntryPoint :: string
  cf_HTTPPort :: int
  cf_HTTPSPort :: int
  cf_RestartDrain :: duration
  cf_StreamEntryPoints :: "stream_entry_point list"
  cf_SecretsKeyFile :: string
  cf_TraefikAPIListen :: string
  cf_WAFDefaultEnabled :: bool
  cf_WAFResponseFailClosed :: bool
  cf_RedisURL :: string
  cf_EdgeListen :: string
  cf_EdgeAdvertise :: string
  cf_EdgeToken :: string
  cf_CacheTTL :: duration
  cf_CacheMaxBytes :: int
  cf_CacheMaxEntryBytes :: int
  cf_ExternalCertsDir :: string
  cf_ACMEEmail :: string
  cf_ACMEStaging :: bool
  cf_ACMECAURL :: string
  cf_ACMEDNSResolvers :: "string list"
  cf_RenewalInterval :: duration
  cf_RenewalLeaseTTL :: duration
  cf_Dev :: bool
  cf_AdminInsecureCookie :: bool

datatype cfg_err =
    BadEntry string | BadProto string | BadListen string string | DSNRequired | BadDriver string | PollNotPositive

section \<open>Standard library\<close>

text \<open>\<open>strconv.ParseBool\<close>.\<close>

definition parse_bool :: "string \<Rightarrow> bool option" where
  "parse_bool s =
     (if s \<in> set [''1'', ''t'', ''T'', ''TRUE'', ''true'', ''True''] then Some True
      else if s \<in> set [''0'', ''f'', ''F'', ''FALSE'', ''false'', ''False''] then Some False else None)"

text \<open>\<open>time.ParseDuration\<close>: a sign, then numbers with a fraction and a unit, summed at 64 bits.\<close>

fun lead_val :: "nat \<Rightarrow> string \<Rightarrow> nat option" where
  "lead_val x [] = Some x"
| "lead_val x (c # cs) =
     (if x > 2 ^ 63 div 10 then None
      else (let y = x * 10 + digit_val c in if y > 2 ^ 63 then None else lead_val y cs))"

fun frac_val :: "nat \<Rightarrow> nat \<Rightarrow> string \<Rightarrow> nat \<times> nat" where
  "frac_val x scale [] = (x, scale)"
| "frac_val x scale (c # cs) =
     (if x > (2 ^ 63 - 1) div 10 \<or> x * 10 + digit_val c > 2 ^ 63 then (x, scale)
      else frac_val (x * 10 + digit_val c) (scale * 10) cs)"

definition duration_unit :: "string \<Rightarrow> nat option" where
  "duration_unit u = map_of [(''ns'', 1), (''us'', 1000), ([CHR 0xC2, CHR 0xB5, CHR ''s''], 1000),
     ([CHR 0xCE, CHR 0xBC, CHR ''s''], 1000), (''ms'', 1000000), (''s'', 1000000000),
     (''m'', 60000000000), (''h'', 3600000000000)] u"

abbreviation number_char :: "char \<Rightarrow> bool" where
  "number_char c \<equiv> c = CHR ''.'' \<or> is_digit c"

text \<open>The digits, the fraction's digits (None without a point), the unit and what follows.\<close>

definition duration_part :: "string \<Rightarrow> string \<times> string option \<times> string \<times> string" where
  "duration_part s =
     (let s1 = dropWhile is_digit s;
          (fr, s2) = (case s1 of c # cs \<Rightarrow> if c = CHR ''.'' then (Some (takeWhile is_digit cs), dropWhile is_digit cs)
                                               else (None, s1)
                       | [] \<Rightarrow> (None, [])) in
      (takeWhile is_digit s, fr, takeWhile (\<lambda>c. \<not> number_char c) s2, dropWhile (\<lambda>c. \<not> number_char c) s2))"

lemma duration_part_shorter:
  assumes "duration_part s = (ds, fr, u, rest)" "u \<noteq> []"
  shows "length rest < length s"
proof -
  obtain s2 where s2: "length s2 \<le> length s" "u = takeWhile (\<lambda>c. \<not> number_char c) s2"
    "rest = dropWhile (\<lambda>c. \<not> number_char c) s2"
  proof (cases "dropWhile is_digit s")
    case Nil
    with assms show thesis by (intro that [of "[]"]) (auto simp: duration_part_def)
  next
    case (Cons c cs)
    have l: "Suc (length cs) \<le> length s" using length_dropWhile_le [of is_digit s] Cons by simp
    show thesis
    proof (cases "c = CHR ''.''")
      case True
      have "length (dropWhile is_digit cs) \<le> length s" using length_dropWhile_le [of is_digit cs] l by linarith
      with assms Cons True show thesis by (intro that) (auto simp: duration_part_def)
    next
      case False
      with assms Cons l show thesis by (intro that [of "c # cs"]) (auto simp: duration_part_def)
    qed
  qed
  have "length u + length rest = length s2" unfolding s2(2,3) by (metis length_append takeWhile_dropWhile_id)
  with s2(1) assms(2) show ?thesis by (cases u) auto
qed

function duration_sum :: "cfg_libs \<Rightarrow> nat \<Rightarrow> string \<Rightarrow> nat option" where
  "duration_sum CL d s =
     (if s = [] then Some d
      else if \<not> number_char (hd s) then None
      else
        (case duration_part s of (ds, fr, u, rest) \<Rightarrow>
          (case lead_val 0 ds of
             None \<Rightarrow> None
           | Some v \<Rightarrow>
               if ds = [] \<and> (fr = None \<or> fr = Some []) then None
               else if u = [] then None
               else
                 (case duration_unit u of
                    None \<Rightarrow> None
                  | Some unit \<Rightarrow>
                      if v > 2 ^ 63 div unit then None
                      else
                        (let (f, scale) = (case fr of Some fs \<Rightarrow> frac_val 0 1 fs | None \<Rightarrow> (0, 1));
                             w = (if f > 0 then v * unit + cl_frac CL f unit scale else v * unit);
                             d' = (d + w) mod 2 ^ 64 in
                         if f > 0 \<and> w > 2 ^ 63 then None
                         else if d' > 2 ^ 63 then None
                         else duration_sum CL d' rest)))))"
  by pat_completeness auto
termination
  by (relation "measure (\<lambda>(CL, d, s). length s)") (auto dest: duration_part_shorter [OF sym])

declare duration_sum.simps [simp del]

definition parse_duration :: "cfg_libs \<Rightarrow> string \<Rightarrow> duration option" where
  "parse_duration CL s0 =
     (let (neg, s) = (case s0 of c # cs \<Rightarrow> if c = CHR ''-'' then (True, cs)
                                            else if c = CHR ''+'' then (False, cs) else (False, s0)
                       | [] \<Rightarrow> (False, [])) in
      if s = ''0'' then Some 0
      else if s = [] then None
      else (case duration_sum CL 0 s of
              None \<Rightarrow> None
            | Some d \<Rightarrow> if neg then Some (wrap64 (- int d)) else if d > 2 ^ 63 - 1 then None else Some (int d)))"

text \<open>\<open>filepath.Join\<close> on Unix: the non-empty elements joined and cleaned.\<close>

fun clean_parts :: "bool \<Rightarrow> string list \<Rightarrow> string list \<Rightarrow> string list" where
  "clean_parts rooted out [] = rev out"
| "clean_parts rooted out (p # ps) =
     (if p = [] \<or> p = ''.'' then clean_parts rooted out ps
      else if p = ''..'' then
        (case out of
           q # qs \<Rightarrow> if q = ''..'' then clean_parts rooted (p # out) ps else clean_parts rooted qs ps
         | [] \<Rightarrow> if rooted then clean_parts rooted [] ps else clean_parts rooted [p] ps)
      else clean_parts rooted (p # out) ps)"

definition path_clean :: "string \<Rightarrow> string" where
  "path_clean p =
     (let rooted = prefix ''/'' p; out = str_join ''/'' (clean_parts rooted [] (split_on (CHR ''/'') p)) in
      if rooted then ''/'' @ out else if out = [] then ''.'' else out)"

definition path_join :: "string list \<Rightarrow> string" where
  "path_join es = (let ne = filter (\<lambda>e. e \<noteq> []) es in if ne = [] then [] else path_clean (str_join ''/'' ne))"

definition JoinHostPort :: "string \<Rightarrow> string \<Rightarrow> string" where
  "JoinHostPort host port = (if CHR '':'' \<in> set host then ''['' @ host @ '']:'' @ port else host @ '':'' @ port)"

section \<open>Readers\<close>

definition env_string :: "env \<Rightarrow> string \<Rightarrow> string \<Rightarrow> string" where
  "env_string e key dflt =
     (case mget e key of Some v \<Rightarrow> if trim_space v \<noteq> [] then v else dflt | None \<Rightarrow> dflt)"

definition splitCSV :: "string \<Rightarrow> string list" where
  "splitCSV s = filter (\<lambda>p. p \<noteq> []) (map trim_space (split_on (CHR '','') s))"

definition envBool :: "env \<Rightarrow> string \<Rightarrow> bool \<Rightarrow> bool" where
  "envBool e key dflt =
     (case mget e key of Some v \<Rightarrow> (case parse_bool (trim_space v) of Some b \<Rightarrow> b | None \<Rightarrow> dflt) | None \<Rightarrow> dflt)"

definition envInt :: "env \<Rightarrow> string \<Rightarrow> int \<Rightarrow> int" where
  "envInt e key dflt =
     (case mget e key of Some v \<Rightarrow> (case atoi (trim_space v) of (n, True) \<Rightarrow> n | (_, False) \<Rightarrow> dflt) | None \<Rightarrow> dflt)"

definition envDuration :: "cfg_libs \<Rightarrow> env \<Rightarrow> string \<Rightarrow> duration \<Rightarrow> duration" where
  "envDuration CL e key dflt =
     (case mget e key of Some v \<Rightarrow> (case parse_duration CL (trim_space v) of Some d \<Rightarrow> d | None \<Rightarrow> dflt) | None \<Rightarrow> dflt)"

definition byte_suffixes :: "(string \<times> int) list" where
  "byte_suffixes = [(''GIB'', 2 ^ 30), (''GB'', 2 ^ 30), (''MIB'', 2 ^ 20), (''MB'', 2 ^ 20),
     (''KIB'', 2 ^ 10), (''KB'', 2 ^ 10), (''B'', 1)]"

definition envBytes :: "cfg_libs \<Rightarrow> env \<Rightarrow> string \<Rightarrow> int \<Rightarrow> int" where
  "envBytes CL e key dflt =
     (case mget e key of
        None \<Rightarrow> dflt
      | Some v \<Rightarrow>
          (let s = trim_space v in
           if s = [] then dflt
           else
             (let up = to_upper (cl_upper CL) s;
                  (num, mult) = (case find (\<lambda>(suf, m). has_suffix up suf) byte_suffixes of
                     Some (suf, m) \<Rightarrow> (trim_space (take (length s - length suf) s), m)
                   | None \<Rightarrow> (s, 1)) in
              (case atoi num of
                 (n, ok) \<Rightarrow> if \<not> ok \<or> n \<le> 0 then dflt else wrap64 (n * mult)))))"

section \<open>Stream entry points\<close>

definition parse_entry :: "cfg_libs \<Rightarrow> string \<Rightarrow> cfg_err + stream_entry_point" where
  "parse_entry CL part0 =
     (let (part, proto) = (case index_byte part0 (CHR ''/'') of
             Some i \<Rightarrow> (take i part0, to_lower (cl_lower CL) (trim_space (drop (Suc i) part0)))
           | None \<Rightarrow> (part0, ''tcp'')) in
      case last_index_byte part (CHR '':'') of
        None \<Rightarrow> Inl (BadEntry part)
      | Some colon \<Rightarrow>
          (let name = trim_space (take colon part); (port, ok) = atoi (trim_space (drop (Suc colon) part)) in
           if \<not> ok \<or> name = [] \<or> port \<le> 0 then Inl (BadEntry part)
           else if proto \<noteq> ''tcp'' \<and> proto \<noteq> ''udp'' then Inl (BadProto proto)
           else Inr \<lparr>se_Name = name, se_Proto = proto, se_Port = port\<rparr>))"

fun parse_entries :: "cfg_libs \<Rightarrow> string list \<Rightarrow> cfg_err + stream_entry_point list" where
  "parse_entries CL [] = Inr []"
| "parse_entries CL (p # ps) =
     (if trim_space p = [] then parse_entries CL ps
      else (case parse_entry CL (trim_space p) of
              Inl x \<Rightarrow> Inl x
            | Inr ep \<Rightarrow> (case parse_entries CL ps of Inl x \<Rightarrow> Inl x | Inr eps \<Rightarrow> Inr (ep # eps))))"

definition parseStreamEntryPoints :: "cfg_libs \<Rightarrow> string \<Rightarrow> cfg_err + stream_entry_point list" where
  "parseStreamEntryPoints CL s =
     (if trim_space s = [] then Inr [] else parse_entries CL (split_on (CHR '','') (trim_space s)))"

section \<open>Load\<close>

definition validate :: "config \<Rightarrow> cfg_err option" where
  "validate c =
     (if cf_DBDriver c \<noteq> DriverSQLite \<and> cf_DBDriver c \<noteq> DriverPostgres then Some (BadDriver (cf_DBDriver c))
      else if cf_DBDriver c = DriverPostgres \<and> cf_DBDSN c = [] then Some DSNRequired
      else if cf_ProviderPollInterval c \<le> 0 then Some PollNotPositive
      else None)"

text \<open>The address others use: the given one, or loopback for a wildcard listener.\<close>

definition advertise :: "string \<Rightarrow> string \<Rightarrow> string \<Rightarrow> cfg_err + string" where
  "advertise key given listen =
     (if given \<noteq> [] then Inr (trim_right_cut ''/'' given)
      else
        (case SplitHostPort listen of
           None \<Rightarrow> Inl (BadListen key listen)
         | Some (host, port) \<Rightarrow>
             (let h = (if host = [] \<or> host = ''0.0.0.0'' \<or> host = ''::'' then ''127.0.0.1'' else host) in
              Inr (trim_right_cut ''/'' (''http://'' @ JoinHostPort h port)))))"

definition env_config :: "cfg_libs \<Rightarrow> env \<Rightarrow> config" where
  "env_config CL e = \<lparr>
     cf_DataDir = env_string e ''XGRESS_DATA_DIR'' ''/data'',
     cf_DBDriver = env_string e ''XGRESS_DB_DRIVER'' DriverSQLite,
     cf_DBDSN = env_string e ''XGRESS_DB_DSN'' [],
     cf_AdminListen = env_string e ''XGRESS_ADMIN_LISTEN'' ''127.0.0.1:8088'',
     cf_ProviderListen = env_string e ''XGRESS_PROVIDER_LISTEN'' ''127.0.0.1:9000'',
     cf_ProviderAdvertise = env_string e ''XGRESS_PROVIDER_ADVERTISE'' [],
     cf_ProviderPollInterval = envDuration CL e ''XGRESS_PROVIDER_POLL_INTERVAL'' second,
     cf_ProviderToken = env_string e ''XGRESS_PROVIDER_TOKEN'' [],
     cf_TraefikBinary = env_string e ''XGRESS_TRAEFIK_BINARY'' ''traefik'',
     cf_TraefikManaged = envBool e ''XGRESS_TRAEFIK_MANAGED'' True,
     cf_TraefikStaticCfg = [],
     cf_HTTPEntryPoint = ''web'', cf_HTTPSEntryPoint = ''websecure'',
     cf_HTTPPort = envInt e ''XGRESS_HTTP_PORT'' 80, cf_HTTPSPort = envInt e ''XGRESS_HTTPS_PORT'' 443,
     cf_RestartDrain = envDuration CL e ''XGRESS_RESTART_DRAIN'' (10 * second),
     cf_StreamEntryPoints = [], cf_SecretsKeyFile = [],
     cf_TraefikAPIListen = env_string e ''XGRESS_TRAEFIK_API_LISTEN'' ''127.0.0.1:8099'',
     cf_WAFDefaultEnabled = envBool e ''XGRESS_WAF_DEFAULT'' True,
     cf_WAFResponseFailClosed = envBool e ''XGRESS_WAF_RESPONSE_FAIL_CLOSED'' False,
     cf_RedisURL = env_string e ''XGRESS_REDIS_URL'' [],
     cf_EdgeListen = env_string e ''XGRESS_EDGE_LISTEN'' ''127.0.0.1:9100'',
     cf_EdgeAdvertise = env_string e ''XGRESS_EDGE_ADVERTISE'' [],
     cf_EdgeToken = env_string e ''XGRESS_EDGE_TOKEN'' [],
     cf_CacheTTL = envDuration CL e ''XGRESS_CACHE_TTL'' (2 * minute),
     cf_CacheMaxBytes = envBytes CL e ''XGRESS_CACHE_MAX_BYTES'' (128 * 2 ^ 20),
     cf_CacheMaxEntryBytes = envBytes CL e ''XGRESS_CACHE_MAX_ENTRY_BYTES'' (8 * 2 ^ 20),
     cf_ExternalCertsDir = env_string e ''XGRESS_EXTERNAL_CERTS_DIR'' [],
     cf_ACMEEmail = env_string e ''XGRESS_ACME_EMAIL'' [],
     cf_ACMEStaging = envBool e ''XGRESS_ACME_STAGING'' False,
     cf_ACMECAURL = env_string e ''XGRESS_ACME_CA_URL'' [],
     cf_ACMEDNSResolvers = splitCSV (env_string e ''XGRESS_ACME_DNS_RESOLVERS'' []),
     cf_RenewalInterval = envDuration CL e ''XGRESS_RENEWAL_INTERVAL'' (12 * hour),
     cf_RenewalLeaseTTL = envDuration CL e ''XGRESS_RENEWAL_LEASE_TTL'' (15 * minute),
     cf_Dev = envBool e ''XGRESS_DEV'' False,
     cf_AdminInsecureCookie = envBool e ''XGRESS_ADMIN_INSECURE_COOKIE'' False\<rparr>"

definition Load :: "cfg_libs \<Rightarrow> env \<Rightarrow> cfg_err + config" where
  "Load CL e =
     (let c = env_config CL e in
      case parseStreamEntryPoints CL (env_string e ''XGRESS_STREAM_ENTRYPOINTS'' []) of
        Inl x \<Rightarrow> Inl x
      | Inr eps \<Rightarrow>
          (case advertise ''XGRESS_PROVIDER_LISTEN'' (cf_ProviderAdvertise c) (cf_ProviderListen c) of
             Inl x \<Rightarrow> Inl x
           | Inr prov \<Rightarrow>
               (case advertise ''XGRESS_EDGE_LISTEN'' (cf_EdgeAdvertise c) (cf_EdgeListen c) of
                  Inl x \<Rightarrow> Inl x
                | Inr edge \<Rightarrow>
                    (let c' = c\<lparr>cf_StreamEntryPoints := eps,
                                cf_TraefikStaticCfg := path_join [cf_DataDir c, ''traefik'', ''traefik.yml''],
                                cf_SecretsKeyFile := path_join [cf_DataDir c, ''secret.key''],
                                cf_ProviderAdvertise := prov, cf_EdgeAdvertise := edge\<rparr> in
                     case validate c' of Some x \<Rightarrow> Inl x | None \<Rightarrow> Inr c'))))"

definition SQLitePath :: "config \<Rightarrow> string" where
  "SQLitePath c = path_join [cf_DataDir c, ''xgress.db'']"

definition ProviderTokenFile :: "config \<Rightarrow> string" where
  "ProviderTokenFile c = path_join [cf_DataDir c, ''provider.token'']"

definition EdgeTokenFile :: "config \<Rightarrow> string" where
  "EdgeTokenFile c = path_join [cf_DataDir c, ''edge.token'']"

definition ACMEDir :: "config \<Rightarrow> string" where
  "ACMEDir c = path_join [cf_DataDir c, ''acme'']"

definition CertsDir :: "config \<Rightarrow> string" where
  "CertsDir c = path_join [cf_DataDir c, ''certs'']"

section \<open>Stream entry points survive printing\<close>

lemma trim_printable: "s \<noteq> [] \<Longrightarrow> list_all printable s \<Longrightarrow> trim_space s = s"
  by (simp add: trim_space_printable list_all_iff)

definition show_entry :: "stream_entry_point \<Rightarrow> string" where
  "show_entry ep = se_Name ep @ '':'' @ show_int (se_Port ep) @ ''/'' @ se_Proto ep"

definition sound_entry :: "stream_entry_point \<Rightarrow> bool" where
  "sound_entry ep \<longleftrightarrow> se_Name ep \<noteq> [] \<and> list_all (\<lambda>c. printable c \<and> c \<noteq> CHR '','' \<and> c \<noteq> CHR ''/'') (se_Name ep)
     \<and> (se_Proto ep = ''tcp'' \<or> se_Proto ep = ''udp'') \<and> 0 < se_Port ep \<and> se_Port ep < 2 ^ 63"

lemma show_port: "0 < n \<Longrightarrow> list_all (\<lambda>c. printable c \<and> is_digit c) (show_int n) \<and> show_int n \<noteq> []"
  using show_nat_digits [of "nat n"] show_nat_nonempty [of "nat n"] printable_show [of "nat n"]
  by (auto simp: show_int_def list_all_iff)

lemma punct: "printable (CHR '':'')" "printable (CHR ''/'')" "\<not> is_digit (CHR '':'')" "\<not> is_digit (CHR ''/'')" "\<not> is_digit (CHR '','')"
  "list_all printable ''tcp''" "list_all printable ''udp''"
  by (simp_all add: printable_def is_digit_def)

lemma sound_parts:
  assumes "sound_entry ep"
  shows "list_all printable (se_Name ep)" "CHR '','' \<notin> set (se_Name ep)" "CHR ''/'' \<notin> set (se_Name ep)" "se_Name ep \<noteq> []"
    "list_all printable (show_int (se_Port ep))" "CHR '','' \<notin> set (show_int (se_Port ep))"
    "CHR ''/'' \<notin> set (show_int (se_Port ep))" "CHR '':'' \<notin> set (show_int (se_Port ep))" "show_int (se_Port ep) \<noteq> []"
    "list_all printable (se_Proto ep)" "CHR '','' \<notin> set (se_Proto ep)"
proof -
  have n: "list_all printable (show_int (se_Port ep))" "list_all is_digit (show_int (se_Port ep))" "show_int (se_Port ep) \<noteq> []"
    using assms show_port [of "se_Port ep"] by (simp_all add: sound_entry_def list_all_iff)
  then show "list_all printable (show_int (se_Port ep))" "show_int (se_Port ep) \<noteq> []" by simp_all
  from n(2) show "CHR '','' \<notin> set (show_int (se_Port ep))" "CHR ''/'' \<notin> set (show_int (se_Port ep))"
    "CHR '':'' \<notin> set (show_int (se_Port ep))"
    using punct(3-5) by (metis list_all_iff)+
  show "list_all printable (se_Name ep)" "CHR '','' \<notin> set (se_Name ep)" "CHR ''/'' \<notin> set (se_Name ep)" "se_Name ep \<noteq> []"
    using assms by (auto simp: sound_entry_def list_all_iff)
  show "list_all printable (se_Proto ep)" "CHR '','' \<notin> set (se_Proto ep)"
    using assms punct(6,7) by (auto simp: sound_entry_def)
qed

lemma show_entry_chars:
  assumes "sound_entry ep"
  shows "list_all printable (show_entry ep)" "CHR '','' \<notin> set (show_entry ep)" "show_entry ep \<noteq> []"
  using sound_parts [OF assms] punct(1,2) by (simp_all add: show_entry_def)

lemma parse_show_entry:
  assumes "sound_entry ep"
  shows "parse_entry CL (show_entry ep) = Inr ep"
proof -
  note p = sound_parts [OF assms]
  let ?p = "show_int (se_Port ep)" and ?q = "se_Name ep @ '':'' @ show_int (se_Port ep)"
  have e: "show_entry ep = ?q @ CHR ''/'' # se_Proto ep" by (simp add: show_entry_def)
  have "CHR ''/'' \<notin> set ?q" using p by simp
  then have i: "index_byte (show_entry ep) (CHR ''/'') = Some (length ?q)" unfolding e by (rule index_byte_append)
  have pr: "to_lower (cl_lower CL) (trim_space (se_Proto ep)) = se_Proto ep"
  proof -
    have "se_Proto ep = ''tcp'' \<or> se_Proto ep = ''udp''" using assms by (simp add: sound_entry_def)
    moreover from this have "trim_space (se_Proto ep) = se_Proto ep" using p(10) by (intro trim_printable) auto
    ultimately show ?thesis by (auto simp: to_lower_def is_ascii_def lower_char_def is_upper_def)
  qed
  have colon: "last_index_byte ?q (CHR '':'') = Some (length (se_Name ep))"
    using last_index_byte_append [OF p(8), of "se_Name ep"] by simp
  have nm: "trim_space (se_Name ep) = se_Name ep" "trim_space ?p = ?p" using p by (auto intro: trim_printable)
  have at: "atoi ?p = (se_Port ep, True)" using assms by (intro atoi_show_int) (simp_all add: sound_entry_def)
  have cut: "take (length ?q) (show_entry ep) = ?q" "drop (Suc (length ?q)) (show_entry ep) = se_Proto ep" by (simp_all add: e)
  have "parse_entry CL (show_entry ep) =
    (if se_Name ep = [] \<or> se_Port ep \<le> 0 then Inl (BadEntry ?q)
     else if se_Proto ep \<noteq> ''tcp'' \<and> se_Proto ep \<noteq> ''udp'' then Inl (BadProto (se_Proto ep))
     else Inr \<lparr>se_Name = se_Name ep, se_Proto = se_Proto ep, se_Port = se_Port ep\<rparr>)"
    unfolding parse_entry_def i option.case cut pr Let_def prod.case colon by (simp add: nm at)
  also have "\<dots> = Inr ep" using assms by (auto simp: sound_entry_def)
  finally show ?thesis .
qed

text \<open>
  Stream entry points survive their notation: for every list of entry points with a printable name
  free of commas and slashes, a protocol and a positive port, parsing the list written as
  name:port/proto with commas between gives the list back.
\<close>

theorem stream_entries_roundtrip:
  assumes "list_all sound_entry eps"
  shows "parseStreamEntryPoints CL (str_join '','' (map show_entry eps)) = Inr eps"
proof (cases "eps = []")
  case True
  have "trim_space [] = []" by (rule trim_space_Nil)
  with True show ?thesis by (simp add: parseStreamEntryPoints_def)
next
  case False
  have chars: "list_all printable (str_join '','' (map show_entry eps)) \<and> str_join '','' (map show_entry eps) \<noteq> []
      \<and> parse_entries CL (split_on (CHR '','') (str_join '','' (map show_entry eps))) = Inr eps"
    using False assms
  proof (induction eps rule: list_nonempty_induct)
    case (single ep)
    then show ?case
      using show_entry_chars [of ep] by (simp add: split_on_no_sep trim_printable parse_show_entry)
  next
    case (cons ep eps)
    let ?t = "str_join '','' (map show_entry eps)"
    have j: "str_join '','' (map show_entry (ep # eps)) = show_entry ep @ CHR '','' # ?t"
      using cons.hyps by (cases eps) simp_all
    have ep: "sound_entry ep" and IH: "list_all printable ?t" "parse_entries CL (split_on (CHR '','') ?t) = Inr eps"
      using cons by simp_all
    note ch = show_entry_chars [OF ep]
    have comma: "printable (CHR '','')" by (simp add: printable_def)
    show ?case unfolding j split_on_append [OF ch(2)]
      using ch IH comma by (simp add: trim_printable parse_show_entry [OF ep])
  qed
  then have "trim_space (str_join '','' (map show_entry eps)) = str_join '','' (map show_entry eps)"
    by (intro trim_printable) simp_all
  with chars show ?thesis by (simp add: parseStreamEntryPoints_def)
qed

section \<open>Byte sizes wrap\<close>

lemma gb_text:
  "trim_space (show_nat n @ ''GB'') = show_nat n @ ''GB''" "trim_space (show_nat n) = show_nat n"
  "to_upper uni (show_nat n @ ''GB'') = show_nat n @ ''GB''"
proof -
  have d: "list_all is_digit (show_nat n)" "show_nat n \<noteq> []" using show_nat_digits show_nat_nonempty by auto
  have "list_all printable ''GB''" by (simp add: printable_def)
  then show "trim_space (show_nat n @ ''GB'') = show_nat n @ ''GB''" "trim_space (show_nat n) = show_nat n"
    using printable_show [of n] d(2) by (auto intro!: trim_printable)
  have "list_all is_ascii ''GB''" by (simp add: is_ascii_def)
  moreover have "list_all is_ascii (show_nat n)" using d(1) by (auto simp: list_all_iff is_ascii_def is_digit_def)
  moreover have "map upper_char (show_nat n) = show_nat n"
    using d(1) by (intro map_idI) (auto simp: list_all_iff is_digit_def upper_char_def is_lower_def)
  moreover have "map upper_char ''GB'' = ''GB''" by (simp add: upper_char_def is_lower_def)
  ultimately show "to_upper uni (show_nat n @ ''GB'') = show_nat n @ ''GB''" by (simp add: to_upper_def)
qed

lemma gb_suffix: "find (\<lambda>(suf, m). has_suffix (xs @ ''GB'') suf) byte_suffixes = Some (''GB'', 2 ^ 30)"
proof -
  have "\<not> has_suffix (xs @ ''GB'') ''GIB''" "has_suffix (xs @ ''GB'') ''GB''" by (simp_all add: suffix_to_prefix)
  then show ?thesis by (simp add: byte_suffixes_def)
qed

lemma env_bytes_gb:
  assumes "0 < n" "n < 2 ^ 63"
  shows "envBytes CL [(k, show_nat n @ ''GB'')] k dflt = wrap64 (int n * 2 ^ 30)"
proof -
  have t: "take (length (show_nat n @ ''GB'') - length ''GB'') (show_nat n @ ''GB'') = show_nat n" by simp
  have g: "mget [(k, show_nat n @ ''GB'')] k = Some (show_nat n @ ''GB'')" by simp
  have ne: "show_nat n @ ''GB'' \<noteq> []" "\<not> int n \<le> 0" using assms(1) by simp_all
  show ?thesis
    unfolding envBytes_def g option.case gb_text Let_def gb_suffix prod.case t atoi_show_nat [OF assms(2)]
    using ne by simp
qed

text \<open>
  A byte size can wrap: a positive count of gigabytes is multiplied at 64 bits without a check, so
  8589934592GB, which the comment promises to be positive or the default, reads as the smallest integer.
\<close>

theorem env_bytes_wraps:
  assumes "0 < n" "n < 2 ^ 63"
  shows "envBytes CL [(k, show_nat n @ ''GB'')] k dflt = wrap64 (int n * 2 ^ 30)
    \<and> envBytes CL [(k, show_nat (2 ^ 33) @ ''GB'')] k dflt = - (2 ^ 63)"
proof -
  have "envBytes CL [(k, show_nat (2 ^ 33) @ ''GB'')] k dflt = wrap64 (int (2 ^ 33) * 2 ^ 30)"
    by (rule env_bytes_gb) simp_all
  also have "\<dots> = - (2 ^ 63)" by (simp add: wrap64_def)
  finally show ?thesis using env_bytes_gb [OF assms] by blast
qed

section \<open>What Load accepts\<close>

lemma trim_right_no_slash: "\<not> suffix ''/'' (trim_right_cut ''/'' s)"
proof (cases "dropWhile (\<lambda>c. c \<in> set ''/'') (rev s)")
  case Nil
  show ?thesis unfolding trim_right_cut_def Nil by simp
next
  case (Cons c cs)
  then have "c \<noteq> CHR ''/''" by (auto simp: dropWhile_eq_Cons_conv)
  then show ?thesis unfolding trim_right_cut_def Cons by (simp add: suffix_to_prefix)
qed

lemma parse_entries_valid: "parse_entries CL ps = Inr eps \<Longrightarrow> ep \<in> set eps
    \<Longrightarrow> se_Name ep \<noteq> [] \<and> 0 < se_Port ep \<and> (se_Proto ep = ''tcp'' \<or> se_Proto ep = ''udp'')"
proof (induction ps arbitrary: eps)
  case (Cons p ps)
  then show ?case
    by (auto simp: parse_entry_def Let_def split: if_splits option.splits prod.splits sum.splits)
qed simp

text \<open>
  A loaded configuration is usable: whatever the environment holds, Load either fails or returns a
  supported database driver (with a DSN when it is Postgres), a positive poll interval, advertised
  addresses without a trailing slash, and stream entry points with a name, a positive port and a known
  protocol.
\<close>

theorem load_valid:
  assumes "Load CL e = Inr c"
  shows "(cf_DBDriver c = DriverSQLite \<or> cf_DBDriver c = DriverPostgres \<and> cf_DBDSN c \<noteq> [])
    \<and> 0 < cf_ProviderPollInterval c
    \<and> \<not> suffix ''/'' (cf_ProviderAdvertise c) \<and> \<not> suffix ''/'' (cf_EdgeAdvertise c)
    \<and> list_all (\<lambda>ep. se_Name ep \<noteq> [] \<and> 0 < se_Port ep \<and> (se_Proto ep = ''tcp'' \<or> se_Proto ep = ''udp'')) (cf_StreamEntryPoints c)"
proof -
  let ?c0 = "env_config CL e"
  from assms obtain eps prov edge where
      eps: "parseStreamEntryPoints CL (env_string e ''XGRESS_STREAM_ENTRYPOINTS'' []) = Inr eps"
    and prov: "advertise ''XGRESS_PROVIDER_LISTEN'' (cf_ProviderAdvertise ?c0) (cf_ProviderListen ?c0) = Inr prov"
    and edge: "advertise ''XGRESS_EDGE_LISTEN'' (cf_EdgeAdvertise ?c0) (cf_EdgeListen ?c0) = Inr edge"
    and v: "validate c = None" and f: "cf_StreamEntryPoints c = eps" "cf_ProviderAdvertise c = prov" "cf_EdgeAdvertise c = edge"
    by (auto simp: Load_def Let_def split: sum.splits option.splits)
  have adv: "\<not> suffix ''/'' a" if "advertise k g l = Inr a" for k g l a
    using that trim_right_no_slash by (auto simp: advertise_def Let_def split: if_splits option.splits prod.splits)
  have "list_all (\<lambda>ep. se_Name ep \<noteq> [] \<and> 0 < se_Port ep \<and> (se_Proto ep = ''tcp'' \<or> se_Proto ep = ''udp'')) eps"
    using eps parse_entries_valid by (auto simp: parseStreamEntryPoints_def list_all_iff split: if_splits)
  with v adv [OF prov] adv [OF edge] show ?thesis by (auto simp: validate_def f split: if_splits)
qed

section \<open>Witnesses\<close>

definition ascii_libs :: cfg_libs where
  "ascii_libs = \<lparr>cl_lower = id, cl_upper = id, cl_frac = (\<lambda>f unit scale. f * unit div scale)\<rparr>"

lemma stream_entries_roundtrip_witness:
  "parseStreamEntryPoints ascii_libs (str_join '','' (map show_entry
     [\<lparr>se_Name = ''postgres'', se_Proto = ''tcp'', se_Port = 5432\<rparr>, \<lparr>se_Name = ''dns'', se_Proto = ''udp'', se_Port = 53\<rparr>]))
   = Inr [\<lparr>se_Name = ''postgres'', se_Proto = ''tcp'', se_Port = 5432\<rparr>, \<lparr>se_Name = ''dns'', se_Proto = ''udp'', se_Port = 53\<rparr>]"
  by (rule stream_entries_roundtrip) (simp add: sound_entry_def printable_def)

lemma env_bytes_wraps_witness: "envBytes ascii_libs [(''N'', show_nat 1 @ ''GB'')] ''N'' 7 = 2 ^ 30"
  using env_bytes_wraps [of 1 ascii_libs "''N''" 7] by (simp add: wrap64_def)

lemma load_defaults: "\<exists>c. Load ascii_libs [] = Inr c \<and> cf_ProviderAdvertise c = ''http://127.0.0.1:9000''"
proof -
  have e: "env_string [] k d = d" "envDuration ascii_libs [] k n = n" for k d n
    by (simp_all add: env_string_def envDuration_def)
  have none: "parseStreamEntryPoints ascii_libs [] = Inr []" by code_simp
  have adv: "advertise ''XGRESS_PROVIDER_LISTEN'' [] ''127.0.0.1:9000'' = Inr ''http://127.0.0.1:9000''"
    "advertise ''XGRESS_EDGE_LISTEN'' [] ''127.0.0.1:9100'' = Inr ''http://127.0.0.1:9100''" by code_simp+
  show ?thesis
    by (simp add: Load_def Let_def e none adv env_config_def validate_def DriverSQLite_def DriverPostgres_def)
qed

lemma load_valid_witness: "\<exists>c. Load ascii_libs [] = Inr c \<and> 0 < cf_ProviderPollInterval c"
proof -
  from load_defaults obtain c where c: "Load ascii_libs [] = Inr c" by blast
  from load_valid [OF c] c show ?thesis by blast
qed

end
