(* ===== verification/Static.thy ===== *)
theory Static
  imports Config
begin

text \<open>
  Traefik's static configuration, \<open>internal/traefikcfg/static.go\<close>: the tree \<open>RenderStatic\<close> builds and
  writes in key order. The YAML encoder is the parameter \<open>enc\<close>.
\<close>

record static_params =
  sg_HTTPEntryPoint :: string
  sg_HTTPSEntryPoint :: string
  sg_HTTPPort :: int
  sg_HTTPSPort :: int
  sg_ProviderEndpoint :: string
  sg_ProviderToken :: string
  sg_PollInterval :: string
  sg_StreamEntryPoints :: "stream_entry_point list"
  sg_APIListen :: string
  sg_LogLevel :: string
  sg_AccessLog :: bool
  sg_MetricsProm :: bool
  sg_Minimal :: bool

datatype yaml = YStr string | YBool bool | YMap "(string \<times> yaml) list"

definition protoOrTCP :: "string \<Rightarrow> string" where
  "protoOrTCP proto = (if proto = ''udp'' then ''udp'' else ''tcp'')"

definition address :: "string \<Rightarrow> yaml" where
  "address a = YMap [(''address'', YStr a)]"

definition static_entry_points :: "static_params \<Rightarrow> (string, yaml) gomap" where
  "static_entry_points p =
     (let base = mput (sg_HTTPSEntryPoint p) (address ('':'' @ show_int (sg_HTTPSPort p)))
                   [(sg_HTTPEntryPoint p, address ('':'' @ show_int (sg_HTTPPort p)))];
          streams = (if sg_Minimal p then base
             else fold (\<lambda>l. mput (se_Name l) (address ('':'' @ show_int (se_Port l) @ ''/'' @ protoOrTCP (se_Proto l))))
                    (sg_StreamEntryPoints p) base) in
      if sg_APIListen p \<noteq> [] \<and> \<not> sg_Minimal p then mput ''traefik'' (address (sg_APIListen p)) streams else streams)"

definition static_root :: "static_params \<Rightarrow> (string, yaml) gomap" where
  "static_root p =
     (let level = (if sg_LogLevel p = [] then ''INFO'' else sg_LogLevel p);
          on = (sg_APIListen p \<noteq> [] \<and> \<not> sg_Minimal p);
          http = [(''endpoint'', YStr (sg_ProviderEndpoint p)), (''pollInterval'', YStr (sg_PollInterval p)),
                  (''pollTimeout'', YStr ''5s'')]
                 @ (if sg_ProviderToken p \<noteq> []
                    then [(''headers'', YMap [(ProviderTokenHeader, YStr (sg_ProviderToken p))])] else []) in
      [(''entryPoints'', YMap (static_entry_points p)),
       (''providers'', YMap [(''http'', YMap http)]),
       (''api'', YMap [(''dashboard'', YBool on), (''insecure'', YBool on)]),
       (''log'', YMap [(''level'', YStr level), (''format'', YStr ''json'')]),
       (''ping'', YMap [(''entryPoint'', YStr (sg_HTTPEntryPoint p))])]
      @ (if sg_AccessLog p \<and> \<not> sg_Minimal p then [(''accessLog'', YMap [(''format'', YStr ''json'')])] else [])
      @ (if sg_MetricsProm p \<and> \<not> sg_Minimal p
         then [(''metrics'', YMap [(''prometheus'', YMap [(''addEntryPointsLabels'', YBool True), (''addRoutersLabels'', YBool True)])])]
         else []))"

fun sortedMap :: "yaml \<Rightarrow> yaml" where
  "sortedMap (YMap m) = YMap (sort_key fst (map (\<lambda>(k, v). (k, sortedMap v)) m))"
| "sortedMap y = y"

definition RenderStatic :: "(yaml \<Rightarrow> string + string) \<Rightarrow> static_params \<Rightarrow> string + string" where
  "RenderStatic enc p = enc (sortedMap (YMap (static_root p)))"

text \<open>\<open>time.Duration.String\<close>, which the caller uses for the poll interval.\<close>

definition frac_text :: "nat \<Rightarrow> nat \<Rightarrow> string" where
  "frac_text v prec =
     (let ds = show_nat (v mod 10 ^ prec);
          padded = replicate (prec - length ds) (CHR ''0'') @ ds;
          kept = rev (dropWhile (\<lambda>c. c = CHR ''0'') (rev padded)) in
      if kept = [] then [] else CHR ''.'' # kept)"

definition duration_text :: "duration \<Rightarrow> string" where
  "duration_text d =
     (let u = nat \<bar>d\<bar>;
          body = (if u = 0 then ''0s''
            else if u < 1000 then show_nat u @ ''ns''
            else if u < 1000000 then show_nat (u div 1000) @ frac_text u 3 @ [CHR 0xC2, CHR 0xB5, CHR ''s'']
            else if u < 1000000000 then show_nat (u div 1000000) @ frac_text u 6 @ ''ms''
            else
              (let secs = u div 1000000000; mins = secs div 60; hours = mins div 60 in
               (if hours > 0 then show_nat hours @ ''h'' else [])
               @ (if mins > 0 then show_nat (mins mod 60) @ ''m'' else [])
               @ show_nat (secs mod 60) @ frac_text u 9 @ ''s'')) in
      if d < 0 then CHR ''-'' # body else body)"

section \<open>The minimal configuration\<close>

text \<open>
  The minimal configuration leaves out everything optional: it does not depend on the stream entry
  points, the API address, the access log or the metrics, and its only entry points are HTTP and HTTPS.
\<close>

theorem minimal_static_independent:
  assumes "sg_Minimal p"
  shows "RenderStatic enc p = RenderStatic enc (p\<lparr>sg_StreamEntryPoints := eps, sg_APIListen := api,
           sg_AccessLog := acc, sg_MetricsProm := met\<rparr>)
    \<and> mkeys (static_entry_points p) = {sg_HTTPEntryPoint p, sg_HTTPSEntryPoint p}"
proof
  have e: "static_entry_points (p\<lparr>sg_StreamEntryPoints := eps, sg_APIListen := api, sg_AccessLog := acc, sg_MetricsProm := met\<rparr>)
      = static_entry_points p"
    using assms by (simp add: static_entry_points_def)
  show "RenderStatic enc p = RenderStatic enc (p\<lparr>sg_StreamEntryPoints := eps, sg_APIListen := api,
      sg_AccessLog := acc, sg_MetricsProm := met\<rparr>)"
    unfolding RenderStatic_def static_root_def e using assms by simp
  show "mkeys (static_entry_points p) = {sg_HTTPEntryPoint p, sg_HTTPSEntryPoint p}"
    using assms by (simp add: static_entry_points_def insert_commute)
qed

text \<open>
  A stream entry point can take the name of the web entry point: names are not checked against the
  entry points xgress defines, so a stream named like the HTTP entry point replaces its address and the
  public HTTP port is not opened.
\<close>

theorem stream_shadows_entry_point:
  assumes "\<not> sg_Minimal p" "sg_StreamEntryPoints p = pre @ l # post" "se_Name l \<notin> se_Name ` set post"
    and "se_Name l = sg_HTTPEntryPoint p" "sg_HTTPEntryPoint p \<noteq> ''traefik''"
  shows "mget (static_entry_points p) (sg_HTTPEntryPoint p) = Some (address ('':'' @ show_int (se_Port l) @ ''/'' @ protoOrTCP (se_Proto l)))"
proof -
  let ?a = "\<lambda>l. address ('':'' @ show_int (se_Port l) @ ''/'' @ protoOrTCP (se_Proto l))"
  have keep: "mget (fold (\<lambda>l. mput (se_Name l) (?a l)) ls m) k = mget m k" if "k \<notin> se_Name ` set ls" for ls m k
    using that by (induction ls arbitrary: m) auto
  have "mget (fold (\<lambda>l. mput (se_Name l) (?a l)) (pre @ l # post) m) (se_Name l) = Some (?a l)" for m
    using keep [OF assms(3)] by simp
  then show ?thesis using assms by (auto simp: static_entry_points_def Let_def)
qed

definition plain_params :: static_params where
  "plain_params = \<lparr>sg_HTTPEntryPoint = ''web'', sg_HTTPSEntryPoint = ''websecure'', sg_HTTPPort = 80, sg_HTTPSPort = 443,
     sg_ProviderEndpoint = ''http://127.0.0.1:9000/api/provider'', sg_ProviderToken = [], sg_PollInterval = ''1s'',
     sg_StreamEntryPoints = [\<lparr>se_Name = ''web'', se_Proto = ''tcp'', se_Port = 5432\<rparr>], sg_APIListen = [], sg_LogLevel = [],
     sg_AccessLog = False, sg_MetricsProm = False, sg_Minimal = False\<rparr>"

lemma stream_shadows_entry_point_witness:
  "mget (static_entry_points plain_params) ''web'' = Some (address ('':'' @ show_int 5432 @ ''/tcp''))"
  using stream_shadows_entry_point [of plain_params "[]" "\<lparr>se_Name = ''web'', se_Proto = ''tcp'', se_Port = 5432\<rparr>" "[]"]
  by (simp add: plain_params_def protoOrTCP_def)

lemma minimal_static_independent_witness:
  "mkeys (static_entry_points (plain_params\<lparr>sg_Minimal := True\<rparr>)) = {''web'', ''websecure''}"
  using minimal_static_independent [of "plain_params\<lparr>sg_Minimal := True\<rparr>"] by (simp add: plain_params_def)

end
