(* ===== verification/Supervisor.thy ===== *)
theory Supervisor
  imports Store
begin

text \<open>
  The process supervisor, \<open>internal/supervisor/supervisor.go\<close>: the lifecycle of the Traefik child, its
  watcher goroutines, the crash-loop guard and the log ring. The operating system and the other
  goroutines are in \<open>sup_world\<close>: which processes run, how many watchers sleep before they respawn, which
  restarts wait for an exit, how often the crash-loop callback ran. Each locked section of the source is
  one function, so that a relation over them has the interleavings the source has.
\<close>

section \<open>State\<close>

datatype sup_state = StateStopped | StateRunning | StateRestart | StateCrashed | StateExternal

record log_line =
  ll_At :: gotime
  ll_Level :: string
  ll_Message :: string
  ll_Raw :: string

record sup_opts =
  so_Managed :: bool
  so_RestartDrain :: duration
  so_OnCrashLoop :: bool

abbreviation crashThreshold :: nat where "crashThreshold \<equiv> 3"
abbreviation crashWindow :: duration where "crashWindow \<equiv> 10 * second"
abbreviation healthyReset :: duration where "healthyReset \<equiv> 30 * second"
abbreviation ringMax :: nat where "ringMax \<equiv> 1000"

record supervisor =
  sp_opts :: sup_opts
  sp_cmd :: "nat option"
  sp_state :: sup_state
  sp_startedAt :: gotime
  sp_lastExit :: "string option"
  sp_wantStop :: bool
  sp_recentExits :: "gotime list"
  sp_crashLoop :: bool
  sp_healthAt :: "gotime option"
  sp_ring :: "log_line list"
  sp_ringN :: nat

definition new_supervisor :: "sup_opts \<Rightarrow> supervisor" where
  "new_supervisor opts = \<lparr>
     sp_opts = (if so_RestartDrain opts \<le> 0 then opts\<lparr>so_RestartDrain := 10 * second\<rparr> else opts),
     sp_cmd = None, sp_state = (if so_Managed opts then StateStopped else StateExternal), sp_startedAt = zero_time,
     sp_lastExit = None, sp_wantStop = False, sp_recentExits = [], sp_crashLoop = False, sp_healthAt = None,
     sp_ring = [], sp_ringN = 0\<rparr>"

record sup_world =
  w_sup :: supervisor
  w_pids :: nat
  w_live :: "nat list"
  w_sleepers :: nat
  w_restarts :: "nat option list"
  w_asked :: nat
  w_calls :: nat

definition boot :: "sup_opts \<Rightarrow> sup_world" where
  "boot opts = \<lparr>w_sup = new_supervisor opts, w_pids = 1, w_live = [], w_sleepers = 0, w_restarts = [], w_asked = 0, w_calls = 0\<rparr>"

section \<open>Starting and watching a process\<close>

text \<open>What the operating system answers to a start.\<close>

datatype start_result = PipeFails string | StartFails string | Starts

definition spawnLocked :: "start_result \<Rightarrow> gotime \<Rightarrow> sup_world \<Rightarrow> string option \<times> sup_world" where
  "spawnLocked os now w =
     (case os of
        PipeFails x \<Rightarrow> (Some x, w)
      | StartFails x \<Rightarrow> (Some x, w\<lparr>w_sup := (w_sup w)\<lparr>sp_state := StateCrashed, sp_lastExit := Some x\<rparr>\<rparr>)
      | Starts \<Rightarrow>
          (None, w\<lparr>w_sup := (w_sup w)\<lparr>sp_cmd := Some (w_pids w), sp_state := StateRunning, sp_startedAt := now,
                     sp_wantStop := False, sp_healthAt := Some (now + healthyReset)\<rparr>,
                   w_pids := Suc (w_pids w), w_live := w_pids w # w_live w\<rparr>))"

definition Start :: "start_result \<Rightarrow> gotime \<Rightarrow> sup_world \<Rightarrow> string option \<times> sup_world" where
  "Start os now w = (if \<not> so_Managed (sp_opts (w_sup w)) then (None, w) else spawnLocked os now w)"

definition health_timer :: "gotime \<Rightarrow> sup_world \<Rightarrow> sup_world" where
  "health_timer now w =
     (case sp_healthAt (w_sup w) of
        Some t \<Rightarrow> if t \<le> now
          then w\<lparr>w_sup := (w_sup w)\<lparr>sp_healthAt := None,
                 sp_recentExits := (if sp_state (w_sup w) = StateRunning then [] else sp_recentExits (w_sup w))\<rparr>\<rparr>
          else w
      | None \<Rightarrow> w)"

definition fireCrashLoop :: "sup_world \<Rightarrow> sup_world" where
  "fireCrashLoop w = (if so_OnCrashLoop (sp_opts (w_sup w)) then w\<lparr>w_calls := Suc (w_calls w)\<rparr> else w)"

text \<open>The watcher's locked section after \<open>Wait\<close> returned; the flag says whether the guard tripped here.\<close>

definition note_exit :: "gotime \<Rightarrow> string option \<Rightarrow> supervisor \<Rightarrow> bool \<times> supervisor" where
  "note_exit now err s0 =
     (let s = s0\<lparr>sp_lastExit := err, sp_state := (if sp_wantStop s0 then StateStopped else StateCrashed)\<rparr> in
      if sp_wantStop s then (False, s)
      else
        (let exits = filter (\<lambda>t. now - crashWindow < t) (sp_recentExits s) @ [now];
             tripped = (crashThreshold \<le> length exits \<and> \<not> sp_crashLoop s) in
         (tripped, s\<lparr>sp_recentExits := exits, sp_crashLoop := (sp_crashLoop s \<or> tripped)\<rparr>)))"

definition process_exit :: "gotime \<Rightarrow> string option \<Rightarrow> bool \<Rightarrow> nat \<Rightarrow> sup_world \<Rightarrow> sup_world" where
  "process_exit now err cancelled pid w =
     (let (tripped, s) = note_exit now err (w_sup w);
          w' = w\<lparr>w_sup := s, w_live := remove1 pid (w_live w)\<rparr> in
      if sp_wantStop (w_sup w) \<or> cancelled then w'
      else if sp_crashLoop s then (if tripped then fireCrashLoop w' else w')
      else w'\<lparr>w_sleepers := Suc (w_sleepers w')\<rparr>)"

text \<open>A watcher's second is over.\<close>

definition respawn :: "start_result \<Rightarrow> gotime \<Rightarrow> bool \<Rightarrow> sup_world \<Rightarrow> sup_world" where
  "respawn os now cancelled w =
     (let w' = w\<lparr>w_sleepers := w_sleepers w - 1\<rparr> in if cancelled then w' else snd (spawnLocked os now w'))"

section \<open>Restart and stop\<close>

text \<open>
  \<open>stopProcess\<close> asks for the exit and waits, at most the drain time before it kills; its caller goes on
  once the process it saw is gone.
\<close>

definition stop_begin :: "sup_world \<Rightarrow> sup_world" where
  "stop_begin w = w\<lparr>w_sup := (w_sup w)\<lparr>sp_wantStop := True\<rparr>\<rparr>"

definition Stop :: "sup_world \<Rightarrow> sup_world" where
  "Stop w = (if \<not> so_Managed (sp_opts (w_sup w)) then w else stop_begin w)"

definition Restart :: "sup_world \<Rightarrow> string option \<times> sup_world" where
  "Restart w =
     (if \<not> so_Managed (sp_opts (w_sup w)) then (Some ''cannot restart: traefik is external'', w)
      else
        (None, (stop_begin (w\<lparr>w_sup := (w_sup w)\<lparr>sp_state := StateRestart, sp_crashLoop := False, sp_recentExits := []\<rparr>\<rparr>))
                 \<lparr>w_restarts := sp_cmd (w_sup w) # w_restarts w, w_asked := Suc (w_asked w)\<rparr>))"

definition restart_finish :: "start_result \<Rightarrow> gotime \<Rightarrow> nat option \<Rightarrow> sup_world \<Rightarrow> string option \<times> sup_world" where
  "restart_finish os now c w = spawnLocked os now (w\<lparr>w_restarts := remove1 c (w_restarts w)\<rparr>)"

definition TripCrashLoop :: "sup_world \<Rightarrow> sup_world" where
  "TripCrashLoop w =
     (if sp_crashLoop (w_sup w) then w else fireCrashLoop (w\<lparr>w_sup := (w_sup w)\<lparr>sp_crashLoop := True\<rparr>\<rparr>))"

section \<open>Logs\<close>

record log_json =
  lj_Level :: string
  lj_Message :: string
  lj_Msg :: string
  lj_Error :: string

text \<open>\<open>consume\<close> turns a line into an entry; \<open>parse\<close> is the JSON library on a line.\<close>

definition log_of :: "(string \<Rightarrow> log_json option) \<Rightarrow> gotime \<Rightarrow> string \<Rightarrow> log_line" where
  "log_of parse now line =
     (case parse line of
        None \<Rightarrow> \<lparr>ll_At = now, ll_Level = ''info'', ll_Message = line, ll_Raw = line\<rparr>
      | Some p \<Rightarrow> \<lparr>ll_At = now, ll_Level = (if lj_Level p \<noteq> [] then lj_Level p else ''info''),
          ll_Message =
            (let m = (if lj_Message p \<noteq> [] then lj_Message p else if lj_Msg p \<noteq> [] then lj_Msg p else line) in
             if lj_Error p \<noteq> [] then m @ '': '' @ lj_Error p else m),
          ll_Raw = line\<rparr>)"

definition appendLog :: "log_line \<Rightarrow> supervisor \<Rightarrow> supervisor" where
  "appendLog l s = s\<lparr>
     sp_ring := (if length (sp_ring s) < ringMax then sp_ring s @ [l] else (sp_ring s)[sp_ringN s mod ringMax := l]),
     sp_ringN := Suc (sp_ringN s)\<rparr>"

definition Logs :: "int \<Rightarrow> supervisor \<Rightarrow> log_line list" where
  "Logs n s =
     (if 0 < n \<and> n < int (length (sp_ring s)) then drop (length (sp_ring s) - nat n) (sp_ring s) else sp_ring s)"

record sup_status =
  st_State :: sup_state
  st_Pid :: nat
  st_StartedAt :: gotime
  st_LastError :: string
  st_Managed :: bool
  st_CrashLoop :: bool
  st_Restarts :: nat

definition Status :: "supervisor \<Rightarrow> sup_status" where
  "Status s = \<lparr>st_State = sp_state s, st_Pid = (case sp_cmd s of Some p \<Rightarrow> p | None \<Rightarrow> 0), st_StartedAt = sp_startedAt s,
     st_LastError = (case sp_lastExit s of Some x \<Rightarrow> x | None \<Rightarrow> []), st_Managed = so_Managed (sp_opts s),
     st_CrashLoop = sp_crashLoop s, st_Restarts = length (sp_recentExits s)\<rparr>"

section \<open>Steps\<close>

text \<open>
  The interleavings: a watcher reports the exit of a live process, a sleeping watcher wakes, a restart
  begins, a restart whose process is gone goes on, the health timer fires, an observer trips the guard.
\<close>

inductive sup_step :: "sup_world \<Rightarrow> sup_world \<Rightarrow> bool" where
  exits: "pid \<in> set (w_live w) \<Longrightarrow> sup_step w (process_exit now err cancelled pid w)"
| wakes: "0 < w_sleepers w \<Longrightarrow> sup_step w (respawn os now cancelled w)"
| restarts: "sup_step w (snd (Restart w))"
| goes_on: "c \<in> set (w_restarts w) \<Longrightarrow> (case c of Some pid \<Rightarrow> pid \<notin> set (w_live w) | None \<Rightarrow> True)
    \<Longrightarrow> sup_step w (snd (restart_finish os now c w))"
| stops: "sup_step w (Stop w)"
| healthy: "sup_step w (health_timer now w)"
| trips: "sup_step w (TripCrashLoop w)"

inductive_cases sup_stepE: "sup_step w w'"

inductive sup_run :: "sup_world \<Rightarrow> sup_world \<Rightarrow> bool" where
  here: "sup_run w w"
| more: "sup_run w w' \<Longrightarrow> sup_step w' w'' \<Longrightarrow> sup_run w w''"

section \<open>The guard's callback\<close>

definition calls_ok :: "sup_world \<Rightarrow> bool" where
  "calls_ok w \<longleftrightarrow> w_calls w + (if sp_crashLoop (w_sup w) then 0 else 1) \<le> w_asked w + 1"

lemma spawn_fields [simp]:
  "w_calls (snd (spawnLocked os now w)) = w_calls w" "w_asked (snd (spawnLocked os now w)) = w_asked w"
  "sp_crashLoop (w_sup (snd (spawnLocked os now w))) = sp_crashLoop (w_sup w)"
  "w_sleepers (snd (spawnLocked os now w)) = w_sleepers w" "w_restarts (snd (spawnLocked os now w)) = w_restarts w"
  "sp_opts (w_sup (snd (spawnLocked os now w))) = sp_opts (w_sup w)"
  by (simp_all add: spawnLocked_def split: start_result.split)

lemma fire_fields [simp]:
  "w_sup (fireCrashLoop w) = w_sup w" "w_live (fireCrashLoop w) = w_live w" "w_asked (fireCrashLoop w) = w_asked w"
  "w_sleepers (fireCrashLoop w) = w_sleepers w" "w_restarts (fireCrashLoop w) = w_restarts w"
  by (simp_all add: fireCrashLoop_def)

lemma fire_calls: "w_calls (fireCrashLoop w) \<le> Suc (w_calls w)"
  by (simp add: fireCrashLoop_def)

lemma note_exit_latch:
  assumes "note_exit now err s = (tripped, s')"
  shows "sp_crashLoop s' = (sp_crashLoop s \<or> tripped)" "tripped \<Longrightarrow> \<not> sp_crashLoop s"
  using assms by (auto simp: note_exit_def Let_def split: if_splits)

lemma calls_ok_exit: "calls_ok w \<Longrightarrow> calls_ok (process_exit now err cancelled pid w)"
proof -
  obtain tripped s where n: "note_exit now err (w_sup w) = (tripped, s)" by fastforce
  note l = note_exit_latch [OF n]
  assume "calls_ok w"
  then show ?thesis
    using fire_calls [of "w\<lparr>w_sup := s, w_live := remove1 pid (w_live w)\<rparr>"] l
    by (cases tripped; cases "sp_crashLoop (w_sup w)") (auto simp: process_exit_def n calls_ok_def Let_def)
qed

lemma calls_ok_step: "sup_step w w' \<Longrightarrow> calls_ok w \<Longrightarrow> calls_ok w'"
proof (induction rule: sup_step.induct)
  case (exits pid w now err cancelled)
  then show ?case by (simp add: calls_ok_exit)
next
  case (wakes w os now cancelled)
  then show ?case by (auto simp: respawn_def calls_ok_def Let_def split: if_splits)
next
  case (restarts w)
  then show ?case by (simp add: Restart_def stop_begin_def calls_ok_def split: if_splits)
next
  case (goes_on c w os now)
  then show ?case by (simp add: restart_finish_def calls_ok_def)
next
  case (stops w)
  then show ?case by (auto simp: Stop_def stop_begin_def calls_ok_def split: if_splits)
next
  case (healthy w now)
  then show ?case by (auto simp: health_timer_def calls_ok_def split: option.splits)
next
  case (trips w)
  let ?w = "w\<lparr>w_sup := (w_sup w)\<lparr>sp_crashLoop := True\<rparr>\<rparr>"
  from trips show ?case using fire_calls [of ?w] by (auto simp: TripCrashLoop_def calls_ok_def)
qed

text \<open>
  The crash-loop callback runs at most once between restarts: however exits, restarts, timers and
  log observers interleave, it has run at most once more often than a restart was asked for.
\<close>

theorem crash_callback_once:
  assumes "sup_run (snd (Start os now (boot opts))) w"
  shows "w_calls w \<le> w_asked w + 1"
proof -
  have "calls_ok (snd (Start os now (boot opts)))"
    by (simp add: Start_def calls_ok_def boot_def new_supervisor_def)
  from assms this have "calls_ok w" by (induction rule: sup_run.induct) (auto intro: calls_ok_step)
  then show ?thesis by (simp add: calls_ok_def split: if_splits)
qed

section \<open>The crash window\<close>

definition crash_run :: "gotime list \<Rightarrow> supervisor \<Rightarrow> supervisor" where
  "crash_run ts s = fold (\<lambda>t s. snd (note_exit t None s)) ts s"

definition tight :: "gotime list \<Rightarrow> bool" where
  "tight ts \<longleftrightarrow> (\<exists>i. i + 2 < length ts \<and> ts ! (i + 2) - ts ! i < crashWindow)"

lemma window_suffix:
  assumes "sorted (ts @ [t])"
  shows "3 \<le> length (filter (\<lambda>x. t - crashWindow < x) (ts @ [t]))
    \<longleftrightarrow> 2 \<le> length ts \<and> t - ts ! (length ts - 2) < crashWindow"
proof (cases "2 \<le> length ts")
  case True
  define us where "us = take (length ts - 2) ts"
  define a where "a = ts ! (length ts - 2)"
  define b where "b = ts ! (length ts - 1)"
  have ts: "ts = us @ [a, b]"
  proof -
    have "ts = us @ drop (length ts - 2) ts" by (simp add: us_def)
    moreover have "drop (length ts - 2) ts = a # drop (Suc (length ts - 2)) ts"
      using True by (simp add: a_def Cons_nth_drop_Suc)
    moreover have "drop (Suc (length ts - 2)) ts = [b]"
    proof -
      have "Suc (length ts - 2) = length ts - 1" using True by simp
      then show ?thesis using True Cons_nth_drop_Suc [of "length ts - 1" ts] by (simp add: b_def)
    qed
    ultimately show ?thesis by simp
  qed
  have le: "\<forall>x \<in> set us. x \<le> a" "a \<le> b" "b \<le> t" using assms by (auto simp: ts sorted_append)
  show ?thesis
  proof (cases "t - crashWindow < a")
    case True
    with le show ?thesis using \<open>2 \<le> length ts\<close> by (simp add: a_def [symmetric]) (simp add: ts)
  next
    case False
    then have "filter (\<lambda>x. t - crashWindow < x) us = []" using le(1) by (fastforce simp: filter_empty_conv)
    with False have "length (filter (\<lambda>x. t - crashWindow < x) (ts @ [t])) \<le> 2" by (simp add: ts)
    with False show ?thesis by (simp add: a_def [symmetric])
  qed
next
  case False
  then have "length (ts @ [t]) < 3" by simp
  then have "length (filter (\<lambda>x. t - crashWindow < x) (ts @ [t])) < 3" by (meson le_less_trans length_filter_le)
  with False show ?thesis by simp
qed

lemma tight_snoc: "tight (ts @ [t]) \<longleftrightarrow> tight ts \<or> (2 \<le> length ts \<and> t - ts ! (length ts - 2) < crashWindow)"
proof -
  have "tight (ts @ [t]) \<longleftrightarrow> (\<exists>i. i + 2 < length ts \<and> ts ! (i + 2) - ts ! i < crashWindow)
      \<or> (\<exists>i. i + 2 = length ts \<and> t - ts ! i < crashWindow)"
  proof
    assume "tight (ts @ [t])"
    then obtain i where i: "i + 2 < Suc (length ts)" "(ts @ [t]) ! (i + 2) - (ts @ [t]) ! i < crashWindow"
      by (auto simp: tight_def)
    show "(\<exists>i. i + 2 < length ts \<and> ts ! (i + 2) - ts ! i < crashWindow)
      \<or> (\<exists>i. i + 2 = length ts \<and> t - ts ! i < crashWindow)"
    proof (cases "i + 2 = length ts")
      case True
      with i(2) show ?thesis by (auto simp: nth_append)
    next
      case False
      with i have "i + 2 < length ts" "ts ! (i + 2) - ts ! i < crashWindow" by (auto simp: nth_append)
      then show ?thesis by blast
    qed
  next
    assume "(\<exists>i. i + 2 < length ts \<and> ts ! (i + 2) - ts ! i < crashWindow)
      \<or> (\<exists>i. i + 2 = length ts \<and> t - ts ! i < crashWindow)"
    then show "tight (ts @ [t])"
    proof (elim disjE exE conjE)
      fix i assume "i + 2 < length ts" "ts ! (i + 2) - ts ! i < crashWindow"
      then show ?thesis unfolding tight_def by (intro exI [of _ i]) (simp add: nth_append)
    next
      fix i assume "i + 2 = length ts" "t - ts ! i < crashWindow"
      then show ?thesis unfolding tight_def by (intro exI [of _ i]) (auto simp: nth_append)
    qed
  qed
  also have "(\<exists>i. i + 2 = length ts \<and> t - ts ! i < crashWindow) \<longleftrightarrow> 2 \<le> length ts \<and> t - ts ! (length ts - 2) < crashWindow"
    by (metis add_diff_cancel_right' le_add2 le_add_diff_inverse2)
  finally show ?thesis by (simp add: tight_def)
qed

lemma note_crash:
  assumes "\<not> sp_wantStop s" "exits = filter (\<lambda>t. now - crashWindow < t) (sp_recentExits s) @ [now]"
  shows "sp_recentExits (snd (note_exit now err s)) = exits \<and> \<not> sp_wantStop (snd (note_exit now err s))
    \<and> sp_crashLoop (snd (note_exit now err s)) = (sp_crashLoop s \<or> 3 \<le> length exits)"
  using assms by (auto simp: note_exit_def Let_def)

lemma crash_run_window:
  assumes "sorted ts" "\<not> sp_wantStop s" "sp_recentExits s = []" "\<not> sp_crashLoop s"
  shows "sp_recentExits (crash_run ts s) = filter (\<lambda>x. last ts - crashWindow < x) ts
    \<and> sp_crashLoop (crash_run ts s) = tight ts \<and> \<not> sp_wantStop (crash_run ts s)"
  using assms(1)
proof (induction ts rule: rev_induct)
  case Nil
  with assms show ?case by (simp add: crash_run_def tight_def)
next
  case (snoc t ts)
  have le: "last ts \<le> t" if "ts \<noteq> []" using snoc.prems that by (simp add: sorted_append)
  have IH: "sp_recentExits (crash_run ts s) = filter (\<lambda>x. last ts - crashWindow < x) ts"
    "sp_crashLoop (crash_run ts s) = tight ts" "\<not> sp_wantStop (crash_run ts s)"
    using snoc by (auto simp: sorted_append)
  have "filter (\<lambda>x. t - crashWindow < x) (filter (\<lambda>x. last ts - crashWindow < x) ts) = filter (\<lambda>x. t - crashWindow < x) ts"
    using le by (cases ts) (auto intro: filter_cong)
  then have ex: "filter (\<lambda>x. t - crashWindow < x) (ts @ [t])
      = filter (\<lambda>x. t - crashWindow < x) (sp_recentExits (crash_run ts s)) @ [t]"
    by (simp add: IH(1))
  have run: "crash_run (ts @ [t]) s = snd (note_exit t None (crash_run ts s))" by (simp add: crash_run_def)
  show ?case
    using note_crash [OF IH(3) ex, of None]
    unfolding window_suffix [OF snoc.prems] IH(2) run tight_snoc last_snoc by blast
qed

text \<open>
  C28: The crash-loop guard trips exactly on three exits within ten seconds: over a run of unexpected
  exits in time order, the latch ends up set just when some exit and the second one after it are less
  than the window apart.
\<close>

theorem crash_guard_window:
  assumes "sorted ts"
  shows "sp_crashLoop (crash_run ts (new_supervisor opts)) = tight ts"
  using crash_run_window [OF assms, of "new_supervisor opts"] by (simp add: new_supervisor_def)

section \<open>How many processes\<close>

text \<open>
  The runs in which no restart or stop begins while a watcher sleeps or another restart waits, and which
  the invariant below shows to have one process at most.
\<close>

inductive calm_run :: "sup_world \<Rightarrow> sup_world \<Rightarrow> bool" where
  calm_here: "calm_run w w"
| calm_step: "calm_run w w' \<Longrightarrow> sup_step w' w'' \<Longrightarrow> w_sleepers w' = 0 \<and> w_restarts w' = [] \<Longrightarrow> calm_run w w''"
| calm_inner: "calm_run w w' \<Longrightarrow> pid \<in> set (w_live w') \<Longrightarrow> calm_run w (process_exit now err cancelled pid w')"
| calm_wake: "calm_run w w' \<Longrightarrow> 0 < w_sleepers w' \<Longrightarrow> calm_run w (respawn os now cancelled w')"
| calm_on: "calm_run w w' \<Longrightarrow> c \<in> set (w_restarts w')
    \<Longrightarrow> (case c of Some pid \<Rightarrow> pid \<notin> set (w_live w') | None \<Rightarrow> True) \<Longrightarrow> calm_run w (snd (restart_finish os now c w'))"
| calm_timer: "calm_run w w' \<Longrightarrow> calm_run w (health_timer now w')"
| calm_trip: "calm_run w w' \<Longrightarrow> calm_run w (TripCrashLoop w')"

definition one_process :: "sup_world \<Rightarrow> bool" where
  "one_process w \<longleftrightarrow> length (w_live w) + w_sleepers w \<le> 1
     \<and> (w_live w = [] \<or> (\<exists>p. sp_cmd (w_sup w) = Some p \<and> w_live w = [p]))
     \<and> (w_restarts w = [] \<or> w_restarts w = [sp_cmd (w_sup w)] \<and> w_sleepers w = 0 \<and> sp_wantStop (w_sup w))"

lemma one_process_spawn:
  "w_live w = [] \<Longrightarrow> w_sleepers w = 0 \<Longrightarrow> w_restarts w = [] \<Longrightarrow> one_process (snd (spawnLocked os now w))"
  by (cases os) (simp_all add: spawnLocked_def one_process_def)

lemma one_process_exit:
  assumes "one_process w" "pid \<in> set (w_live w)"
  shows "one_process (process_exit now err cancelled pid w)"
proof -
  have l: "w_live w = [pid]" "sp_cmd (w_sup w) = Some pid" "w_sleepers w = 0" using assms by (auto simp: one_process_def)
  obtain tripped s where n: "note_exit now err (w_sup w) = (tripped, s)" by fastforce
  have s: "sp_cmd s = sp_cmd (w_sup w)" "sp_wantStop s = sp_wantStop (w_sup w)"
    using n by (auto simp: note_exit_def Let_def split: if_splits)
  show ?thesis using assms(1) l s by (auto simp: process_exit_def n one_process_def Let_def)
qed

lemma one_process_wake:
  assumes "one_process w" "0 < w_sleepers w"
  shows "one_process (respawn os now cancelled w)"
proof -
  have l: "w_live w = []" "w_sleepers w = 1" "w_restarts w = []" using assms by (auto simp: one_process_def)
  then have "one_process (w\<lparr>w_sleepers := 0\<rparr>)" by (simp add: one_process_def)
  with l show ?thesis by (simp add: respawn_def Let_def one_process_spawn)
qed

lemma one_process_on:
  assumes "one_process w" "c \<in> set (w_restarts w)" "case c of Some pid \<Rightarrow> pid \<notin> set (w_live w) | None \<Rightarrow> True"
  shows "one_process (snd (restart_finish os now c w))"
proof -
  have r: "w_restarts w = [c]" "c = sp_cmd (w_sup w)" "w_sleepers w = 0" using assms(1,2) by (auto simp: one_process_def)
  then have "w_live w = []" using assms(1,3) by (auto simp: one_process_def split: option.splits)
  with r show ?thesis unfolding restart_finish_def by (intro one_process_spawn) simp_all
qed

lemma one_process_timer: "one_process w \<Longrightarrow> one_process (health_timer now w)"
  by (auto simp: health_timer_def one_process_def split: option.splits)

lemma one_process_trip: "one_process w \<Longrightarrow> one_process (TripCrashLoop w)"
  by (auto simp: TripCrashLoop_def one_process_def)

lemma one_process_calm: "sup_step w w' \<Longrightarrow> one_process w \<Longrightarrow> w_sleepers w = 0 \<and> w_restarts w = [] \<Longrightarrow> one_process w'"
proof (induction rule: sup_step.induct)
  case (restarts w)
  then show ?case by (auto simp: Restart_def stop_begin_def one_process_def split: if_splits)
next
  case (stops w)
  then show ?case by (auto simp: Stop_def stop_begin_def one_process_def split: if_splits)
qed (auto intro: one_process_exit one_process_wake one_process_on one_process_timer one_process_trip)

lemma one_process_start: "one_process (snd (Start os now (boot opts)))"
proof -
  have "one_process (boot opts)" by (simp add: one_process_def boot_def)
  then show ?thesis by (simp add: Start_def one_process_spawn boot_def)
qed

text \<open>
  At most one Traefik process: as long as no restart or stop begins while a crashed process's
  respawn is pending or another restart waits, at most one process runs, and it is the one that the
  supervisor would stop.
\<close>

theorem single_process:
  assumes "calm_run (snd (Start os now (boot opts))) w"
  shows "w_live w = [] \<or> (\<exists>p. sp_cmd (w_sup w) = Some p \<and> w_live w = [p])"
proof -
  from assms one_process_start [of os now opts] have "one_process w"
    by (induction rule: calm_run.induct)
      (auto intro: one_process_calm one_process_exit one_process_wake one_process_on one_process_timer one_process_trip)
  then show ?thesis by (simp add: one_process_def)
qed

text \<open>
  A restart during the second before a respawn leaves two processes: the sleeping watcher looks at
  its context only, so from every managed supervisor a crash, a restart and the end of the pause lead to
  two running processes, of which the supervisor knows the later one.
\<close>

theorem restart_race:
  assumes "so_Managed opts"
  shows "\<exists>w p q. sup_run (snd (Start Starts 0 (boot opts))) w \<and> w_live w = [q, p] \<and> p \<noteq> q \<and> sp_cmd (w_sup w) = Some q"
proof -
  define w0 where "w0 = snd (Start Starts 0 (boot opts))"
  define w1 where "w1 = process_exit 1 None False 1 w0"
  define w2 where "w2 = snd (Restart w1)"
  define w3 where "w3 = snd (restart_finish Starts 2 (Some 1) w2)"
  define w4 where "w4 = respawn Starts second False w3"
  have w0: "w_live w0 = [1]" "w_pids w0 = 2" "w_sleepers w0 = 0" "w_restarts w0 = []" "sp_cmd (w_sup w0) = Some 1"
    "\<not> sp_wantStop (w_sup w0)" "sp_recentExits (w_sup w0) = []" "\<not> sp_crashLoop (w_sup w0)" "so_Managed (sp_opts (w_sup w0))"
    using assms by (simp_all add: w0_def Start_def spawnLocked_def boot_def new_supervisor_def numeral_2_eq_2)
  then have w1: "w_live w1 = []" "w_pids w1 = 2" "w_sleepers w1 = 1" "w_restarts w1 = []" "sp_cmd (w_sup w1) = Some 1"
    "so_Managed (sp_opts (w_sup w1))"
    by (simp_all add: w1_def process_exit_def note_exit_def Let_def)
  then have w2: "w_live w2 = []" "w_pids w2 = 2" "w_sleepers w2 = 1" "w_restarts w2 = [Some 1]"
    by (simp_all add: w2_def Restart_def stop_begin_def)
  then have w3: "w_live w3 = [2]" "w_pids w3 = 3" "w_sleepers w3 = 1"
    by (simp_all add: w3_def restart_finish_def spawnLocked_def)
  then have w4: "w_live w4 = [3, 2]" "sp_cmd (w_sup w4) = Some 3"
    by (simp_all add: w4_def respawn_def spawnLocked_def Let_def)
  have "sup_run w0 w1" unfolding w1_def by (rule more [OF here exits]) (simp add: w0)
  then have "sup_run w0 w2" unfolding w2_def by (rule more [OF _ restarts])
  then have "sup_run w0 w3" unfolding w3_def by (rule more [OF _ goes_on]) (simp_all add: w2)
  then have "sup_run w0 w4" unfolding w4_def by (rule more [OF _ wakes]) (simp add: w3)
  with w4 show ?thesis unfolding w0_def [symmetric] by (intro exI [of _ w4] exI [of _ 2] exI [of _ 3]) simp
qed

section \<open>Restarts under a request's context\<close>

definition unattended :: "nat \<Rightarrow> sup_world \<Rightarrow> bool" where
  "unattended n w \<longleftrightarrow> n \<le> w_asked w \<and> (w_asked w = n \<longrightarrow> w_live w = [] \<and> w_sleepers w = 0 \<and> w_restarts w = [])"

lemma asked_exit [simp]: "w_asked (process_exit now err cancelled pid w) = w_asked w"
  by (simp add: process_exit_def Let_def split: prod.split)

lemma unattended_step: "sup_step w w' \<Longrightarrow> unattended n w \<Longrightarrow> unattended n w'"
proof (induction rule: sup_step.induct)
  case (exits pid w now err cancelled)
  then show ?case by (auto simp: unattended_def)
next
  case (wakes w os now cancelled)
  then show ?case by (auto simp: unattended_def respawn_def Let_def)
next
  case (restarts w)
  then show ?case by (auto simp: unattended_def Restart_def stop_begin_def)
next
  case (goes_on c w os now)
  then show ?case by (auto simp: unattended_def restart_finish_def)
next
  case (stops w)
  then show ?case by (simp add: unattended_def Stop_def stop_begin_def)
next
  case (healthy w now)
  then show ?case by (auto simp: unattended_def health_timer_def split: option.splits)
next
  case (trips w)
  then show ?case by (auto simp: unattended_def TripCrashLoop_def)
qed

text \<open>
  A process started under a cancelled context is not supervised: when it exits unexpectedly and its
  context is done, as a request's is once the restart was answered, no recovery is called and no process
  runs again until somebody asks for another restart.
\<close>

theorem cancelled_restart_unsupervised:
  assumes "w_live w = [pid]" "w_sleepers w = 0" "w_restarts w = []" "\<not> sp_wantStop (w_sup w)"
  shows "sp_state (w_sup (process_exit now err True pid w)) = StateCrashed
    \<and> w_calls (process_exit now err True pid w) = w_calls w
    \<and> \<not> (\<exists>w'. sup_run (process_exit now err True pid w) w' \<and> w_asked w' = w_asked w \<and> w_live w' \<noteq> [])"
proof (intro conjI)
  obtain tripped s where n: "note_exit now err (w_sup w) = (tripped, s)" by fastforce
  have "sp_state s = StateCrashed" using n assms(4) by (auto simp: note_exit_def Let_def)
  then show "sp_state (w_sup (process_exit now err True pid w)) = StateCrashed"
    "w_calls (process_exit now err True pid w) = w_calls w"
    by (simp_all add: process_exit_def n Let_def)
  have start: "unattended (w_asked w) (process_exit now err True pid w)"
    using assms by (simp add: unattended_def process_exit_def n Let_def)
  have "unattended (w_asked w) w'" if "sup_run (process_exit now err True pid w) w'" for w'
    using that start by (induction rule: sup_run.induct) (auto intro: unattended_step)
  then show "\<not> (\<exists>w'. sup_run (process_exit now err True pid w) w' \<and> w_asked w' = w_asked w \<and> w_live w' \<noteq> [])"
    by (auto simp: unattended_def)
qed

section \<open>The log ring\<close>

definition log_all :: "log_line list \<Rightarrow> supervisor \<Rightarrow> supervisor" where
  "log_all ls s = fold appendLog ls s"

lemma log_all_snoc: "log_all (ls @ [l]) s = appendLog l (log_all ls s)"
  by (simp add: log_all_def)

text \<open>The slot of a line is its number modulo the size.\<close>

lemma ring_slots:
  assumes "sp_ring s = []" "sp_ringN s = 0"
  shows "sp_ringN (log_all ls s) = length ls \<and> length (sp_ring (log_all ls s)) = min (length ls) ringMax
    \<and> (\<forall>j < length ls. length ls \<le> j + ringMax \<longrightarrow> sp_ring (log_all ls s) ! (j mod ringMax) = ls ! j)"
proof (induction ls rule: rev_induct)
  case Nil
  with assms show ?case by (simp add: log_all_def)
next
  case (snoc l ls)
  let ?r = "sp_ring (log_all ls s)" and ?k = "length ls"
  from snoc have n: "sp_ringN (log_all ls s) = ?k" "length ?r = min ?k ringMax"
    and slot: "\<And>j. j < ?k \<Longrightarrow> ?k \<le> j + ringMax \<Longrightarrow> ?r ! (j mod ringMax) = ls ! j" by auto
  have ring: "sp_ring (log_all (ls @ [l]) s) = (if ?k < ringMax then ?r @ [l] else ?r[?k mod ringMax := l])"
    using n by (simp add: log_all_snoc appendLog_def min_def)
  have "sp_ring (log_all (ls @ [l]) s) ! (j mod ringMax) = (ls @ [l]) ! j" if j: "j < Suc ?k" "Suc ?k \<le> j + ringMax" for j
  proof (cases "j = ?k")
    case True
    then show ?thesis using n by (auto simp: ring nth_append)
  next
    case False
    with j have j': "j < ?k" "?k \<le> j + ringMax" by auto
    have ne: "j mod ringMax \<noteq> ?k mod ringMax"
    proof
      assume "j mod ringMax = ?k mod ringMax"
      then have "ringMax dvd (?k - j)" using j'(1) by (metis mod_eq_dvd_iff_nat less_imp_le)
      with j'(1) have "ringMax \<le> ?k - j" by (intro dvd_imp_le) simp_all
      with j(2) show False by simp
    qed
    show ?thesis
    proof (cases "?k < ringMax")
      case True
      with j' have "j mod ringMax = j" "j < length ?r" using n(2) by auto
      with slot [OF j'] True j' show ?thesis by (simp add: ring nth_append)
    next
      case False
      with slot [OF j'] ne j' show ?thesis by (simp add: ring nth_append)
    qed
  qed
  moreover have "length (sp_ring (log_all (ls @ [l]) s)) = min (Suc ?k) ringMax" using n(2) by (auto simp: ring)
  ultimately show ?case using n(1) by (simp add: log_all_snoc appendLog_def)
qed

text \<open>
  The log view keeps the latest thousand lines, rotated: after more lines than the ring holds it
  has the last ones, but the oldest of them stands where the next line will go, so a caller that takes
  the end of the list does not get the newest lines unless the number of lines is a multiple of the size.
\<close>

theorem log_ring_rotated:
  assumes "ringMax \<le> length ls"
  shows "rotate (length ls mod ringMax) (Logs 0 (log_all ls (new_supervisor opts))) = drop (length ls - ringMax) ls"
proof -
  let ?s = "log_all ls (new_supervisor opts)" and ?k = "length ls"
  have len: "length (sp_ring ?s) = ringMax"
    and slot: "\<And>j. j < ?k \<Longrightarrow> ?k \<le> j + ringMax \<Longrightarrow> sp_ring ?s ! (j mod ringMax) = ls ! j"
    using ring_slots [of "new_supervisor opts" ls] assms by (simp_all add: new_supervisor_def)
  have "rotate (?k mod ringMax) (sp_ring ?s) = drop (?k - ringMax) ls"
  proof (rule nth_equalityI)
    show "length (rotate (?k mod ringMax) (sp_ring ?s)) = length (drop (?k - ringMax) ls)" using len assms by simp
  next
    fix i assume "i < length (rotate (?k mod ringMax) (sp_ring ?s))"
    then have i: "i < ringMax" using len by simp
    have "rotate (?k mod ringMax) (sp_ring ?s) ! i = sp_ring ?s ! ((?k mod ringMax + i) mod ringMax)"
      using i len by (simp add: nth_rotate)
    also have "(?k mod ringMax + i) mod ringMax = (?k - ringMax + i) mod ringMax"
      using assms by (simp add: mod_simps le_mod_geq)
    also have "sp_ring ?s ! ((?k - ringMax + i) mod ringMax) = ls ! (?k - ringMax + i)"
      using i assms by (intro slot) simp_all
    finally show "rotate (?k mod ringMax) (sp_ring ?s) ! i = drop (?k - ringMax) ls ! i" using assms by simp
  qed
  then show ?thesis by (simp add: Logs_def)
qed

section \<open>Witnesses\<close>

definition managed :: sup_opts where
  "managed = \<lparr>so_Managed = True, so_RestartDrain = 0, so_OnCrashLoop = True\<rparr>"

lemma crash_callback_once_witness:
  "w_calls (TripCrashLoop (TripCrashLoop (snd (Start Starts 0 (boot managed))))) = 1
   \<and> w_calls (TripCrashLoop (TripCrashLoop (snd (Start Starts 0 (boot managed))))) \<le> 0 + 1"
proof -
  let ?w = "TripCrashLoop (TripCrashLoop (snd (Start Starts 0 (boot managed))))"
  have "sup_run (snd (Start Starts 0 (boot managed))) ?w" by (intro more [OF _ trips] here)
  from crash_callback_once [OF this] show ?thesis
    by (simp add: TripCrashLoop_def fireCrashLoop_def Start_def spawnLocked_def boot_def new_supervisor_def managed_def)
qed

lemma crash_guard_window_witness:
  "sp_crashLoop (crash_run [0, 4 * second, 9 * second] (new_supervisor managed)) \<and> tight [0, 4 * second, 9 * second]"
proof -
  have "tight [0, 4 * second, 9 * second]" unfolding tight_def by (intro exI [of _ 0]) simp
  with crash_guard_window [of "[0, 4 * second, 9 * second]" managed] show ?thesis by simp
qed

lemma single_process_witness:
  "w_live (snd (Restart (snd (Start Starts 0 (boot managed))))) = [1]
   \<and> (\<exists>p. sp_cmd (w_sup (snd (Restart (snd (Start Starts 0 (boot managed)))))) = Some p)"
proof -
  let ?w = "snd (Start Starts 0 (boot managed))"
  have "calm_run ?w (snd (Restart ?w))"
    by (rule calm_step [OF calm_here restarts]) (simp add: Start_def spawnLocked_def boot_def managed_def)
  from single_process [OF this] show ?thesis
    by (simp add: Restart_def stop_begin_def Start_def spawnLocked_def boot_def new_supervisor_def managed_def)
qed

lemma restart_race_witness:
  "\<exists>w p q. sup_run (snd (Start Starts 0 (boot managed))) w \<and> w_live w = [q, p] \<and> p \<noteq> q \<and> sp_cmd (w_sup w) = Some q"
  by (rule restart_race) (simp add: managed_def)

definition numbered :: "nat \<Rightarrow> log_line" where
  "numbered n = \<lparr>ll_At = int n, ll_Level = ''info'', ll_Message = show_nat n, ll_Raw = show_nat n\<rparr>"

lemma log_ring_rotated_witness:
  "rotate 1 (Logs 0 (log_all (map numbered [0..<1001]) (new_supervisor managed))) = map numbered [1..<1001]"
  using log_ring_rotated [of "map numbered [0..<1001]" managed] by (simp add: drop_map)

lemma cancelled_restart_unsupervised_witness:
  "sp_state (w_sup (process_exit 5 None True 1 (snd (Start Starts 0 (boot managed))))) = StateCrashed"
  using cancelled_restart_unsupervised [of "snd (Start Starts 0 (boot managed))" 1 5 None]
  by (simp add: Start_def spawnLocked_def boot_def new_supervisor_def managed_def)

end
