(* ===== verification/Recovery.thy ===== *)
theory Recovery
  imports EngineProps Bans Static Supervisor
begin

text \<open>
  Self-healing, \<open>internal/engine/recovery.go\<close>, with the static configuration's writer \<open>SyncStatic\<close> and
  \<open>Bootstrap\<close> of \<open>engine.go\<close>. The state joins the engine, the supervisor's world and the content of the
  static file; the YAML encoder, the hash and the outcome of file operations are arguments.
\<close>

section \<open>State and libraries\<close>

record machine =
  mc_eng :: engine
  mc_sup :: sup_world
  mc_static :: "string option"

record heal_libs =
  hl_render :: libs
  hl_uni :: "string \<Rightarrow> string"
  hl_yaml :: "yaml \<Rightarrow> string + string"
  hl_json_valid :: "string \<Rightarrow> bool"
  hl_hash :: "string \<Rightarrow> string"

definition on_engine :: "(engine \<Rightarrow> 'a \<times> engine) \<Rightarrow> machine \<Rightarrow> 'a \<times> machine" where
  "on_engine f w = (case f (mc_eng w) of (x, e) \<Rightarrow> (x, w\<lparr>mc_eng := e\<rparr>))"

section \<open>Fatal lines\<close>

definition fatalSignatures :: "string list" where
  "fatalSignatures = [''fatal error:'', ''runtime: split stack overflow'', ''signal sigsegv'', ''panic: runtime error'']"

definition watchFatalLog :: "heal_libs \<Rightarrow> log_line \<Rightarrow> sup_world \<Rightarrow> sup_world" where
  "watchFatalLog HL ll w =
     (let raw = trim_space (ll_Raw ll) in
      if raw = [] \<or> hl_json_valid HL raw then w
      else if list_ex (str_contains (to_lower (hl_uni HL) raw)) fatalSignatures then TripCrashLoop w
      else w)"

section \<open>The static file\<close>

definition static_of :: "config \<Rightarrow> static_params" where
  "static_of pc = \<lparr>sg_HTTPEntryPoint = cf_HTTPEntryPoint pc, sg_HTTPSEntryPoint = cf_HTTPSEntryPoint pc,
     sg_HTTPPort = cf_HTTPPort pc, sg_HTTPSPort = cf_HTTPSPort pc,
     sg_ProviderEndpoint = cf_ProviderAdvertise pc @ ''/api/provider'', sg_ProviderToken = cf_ProviderToken pc,
     sg_PollInterval = duration_text (cf_ProviderPollInterval pc), sg_StreamEntryPoints = [], sg_APIListen = [],
     sg_LogLevel = [], sg_AccessLog = False, sg_MetricsProm = False, sg_Minimal = False\<rparr>"

text \<open>\<open>io\<close> is the error of creating the directory or replacing the file, if any.\<close>

definition writeMinimalStatic :: "heal_libs \<Rightarrow> config \<Rightarrow> string option \<Rightarrow> machine \<Rightarrow> string option \<times> machine" where
  "writeMinimalStatic HL pc io w =
     (case RenderStatic (hl_yaml HL) ((static_of pc)\<lparr>sg_Minimal := True\<rparr>) of
        Inl x \<Rightarrow> (Some x, w)
      | Inr y \<Rightarrow> (case io of Some x \<Rightarrow> (Some x, w) | None \<Rightarrow> (None, w\<lparr>mc_static := Some y\<rparr>)))"

definition full_static :: "config \<Rightarrow> bool \<Rightarrow> bool \<Rightarrow> static_params" where
  "full_static pc accessLog metrics = (static_of pc)\<lparr>sg_StreamEntryPoints := cf_StreamEntryPoints pc,
     sg_APIListen := cf_TraefikAPIListen pc, sg_AccessLog := accessLog, sg_MetricsProm := metrics\<rparr>"

definition SyncStatic :: "heal_libs \<Rightarrow> config \<Rightarrow> string option \<Rightarrow> bool \<Rightarrow> machine \<Rightarrow> string option \<times> machine" where
  "SyncStatic HL pc io forceRestart w0 =
     (let (accessLog, w1) = on_engine (settingBool ''traefik.accessLog'' True) w0;
          (metrics, w2) = on_engine (settingBool ''traefik.metrics'' True) w1 in
      case RenderStatic (hl_yaml HL) (full_static pc accessLog metrics) of
        Inl x \<Rightarrow> (Some x, w2)
      | Inr y \<Rightarrow>
          (let changed = (case mc_static w2 of Some old \<Rightarrow> hl_hash HL old \<noteq> hl_hash HL y | None \<Rightarrow> True) in
           case (if changed then io else None) of
             Some x \<Rightarrow> (Some x, w2)
           | None \<Rightarrow>
               (let w3 = (if changed then w2\<lparr>mc_static := Some y\<rparr> else w2) in
                if (changed \<or> forceRestart) \<and> cf_TraefikManaged pc \<and> sp_state (w_sup (mc_sup w3)) \<noteq> StateStopped
                then (case Restart (mc_sup w3) of (r, s) \<Rightarrow> (r, w3\<lparr>mc_sup := s\<rparr>))
                else (None, w3))))"

definition Bootstrap :: "heal_libs \<Rightarrow> (engine \<Rightarrow> string option \<times> engine) \<Rightarrow> config \<Rightarrow> eng_cfg \<Rightarrow> string option
    \<Rightarrow> start_result \<Rightarrow> gotime \<Rightarrow> machine \<Rightarrow> string option \<times> machine" where
  "Bootstrap HL waf pc cfg io os now w0 =
     (case SyncStatic HL pc io False w0 of
        (Some x, w1) \<Rightarrow> (Some x, w1)
      | (None, w1) \<Rightarrow>
          (let (_, w2) = on_engine (Reload (hl_render HL) (hl_uni HL) cfg (unix_of now)) w1;
               (_, w3) = on_engine waf w2;
               (r, s) = Start os now (mc_sup w3) in
           (r, w3\<lparr>mc_sup := s\<rparr>)))"

section \<open>The escalation ladder\<close>

definition better :: "int \<Rightarrow> int \<Rightarrow> config_snapshot \<Rightarrow> int" where
  "better cur best s = (if sn_Valid s \<and> sn_Version s < cur \<and> best < sn_Version s then sn_Version s else best)"

definition lastGoodVersion :: "engine \<Rightarrow> int option \<times> engine" where
  "lastGoodVersion e =
     (case run_db (ListSnapshots 50) e of
        (Inl _, e') \<Rightarrow> (None, e')
      | (Inr snaps, e') \<Rightarrow>
          (let best = foldl (better (en_version e)) (- 1) snaps in (if best < 0 then None else Some best, e')))"

definition recordRecovery :: "gotime \<Rightarrow> string \<Rightarrow> nat \<Rightarrow> string \<Rightarrow> engine \<Rightarrow> engine" where
  "recordRecovery now fresh level action e =
     (let e1 = e\<lparr>en_lastRecovery := action, en_lastRecoveryAt := now\<rparr>;
          (_, e2) = run_db (AddAudit now fresh \<lparr>ae_ID = [], ae_At = zero_time, ae_UserID = [], ae_UserEmail = ''system'',
             ae_Action = ''traefik.recovery'', ae_Target = ''level-'' @ show_nat level, ae_Detail = action\<rparr>) e1 in
      add_alert ''error'' ''Traefik auto-recovery'' e2)"

definition level0 :: "heal_libs \<Rightarrow> eng_cfg \<Rightarrow> gotime \<Rightarrow> engine \<Rightarrow> string \<times> engine" where
  "level0 HL cfg now e =
     (''cleared custom raw config and re-rendered dynamic config'',
      snd (Reload (hl_render HL) (hl_uni HL) cfg (unix_of now) (snd (run_db (SetSetting ''raw.dynamicYaml'' []) e))))"

definition level1 :: "heal_libs \<Rightarrow> eng_cfg \<Rightarrow> gotime \<Rightarrow> engine \<Rightarrow> string \<times> engine" where
  "level1 HL cfg now e =
     (case lastGoodVersion e of
        (Some v, e') \<Rightarrow> (''rolled back to last-known-good config v'' @ show_int v, snd (Rollback (unix_of now) v e'))
      | (None, e') \<Rightarrow> (''no prior snapshot; re-rendered current config'',
                      snd (Reload (hl_render HL) (hl_uni HL) cfg (unix_of now) e')))"

definition recoverTraefik :: "heal_libs \<Rightarrow> config \<Rightarrow> eng_cfg \<Rightarrow> string option \<Rightarrow> gotime \<Rightarrow> string \<Rightarrow> machine \<Rightarrow> machine" where
  "recoverTraefik HL pc cfg io now fresh w =
     (if \<not> ec_TraefikManaged cfg then w
      else
        (let e0 = mc_eng w; level = en_recoverLevel e0; e1 = e0\<lparr>en_recoverLevel := Suc level\<rparr>;
             (action, w2) =
               (if level = 0 then on_engine (level0 HL cfg now) (w\<lparr>mc_eng := e1\<rparr>)
                else if level = 1 then on_engine (level1 HL cfg now) (w\<lparr>mc_eng := e1\<rparr>)
                else (''wrote minimal static config (entrypoints + HTTP provider only)'',
                      snd (writeMinimalStatic HL pc io (w\<lparr>mc_eng := e1\<rparr>))));
             w3 = w2\<lparr>mc_eng := recordRecovery now fresh level action (mc_eng w2)\<rparr> in
         w3\<lparr>mc_sup := snd (Restart (mc_sup w3))\<rparr>))"

text \<open>Called once the health window has passed after a recovery.\<close>

definition resetRecoveryOnHealth :: "machine \<Rightarrow> machine" where
  "resetRecoveryOnHealth w =
     (let st = Status (w_sup (mc_sup w)) in
      if st_State st = StateRunning \<and> \<not> st_CrashLoop st
      then w\<lparr>mc_eng := (mc_eng w)\<lparr>en_recoverLevel := 0\<rparr>\<rparr> else w)"

definition RecoveryState :: "engine \<Rightarrow> nat \<times> string \<times> gotime" where
  "RecoveryState e = (en_recoverLevel e, en_lastRecovery e, en_lastRecoveryAt e)"

section \<open>What the second step puts back\<close>

lemma take_sorted_few:
  assumes "x \<in> set xs" "length (filter (\<lambda>y. f y < f x) xs) < n"
  shows "f x \<in> f ` set (take n (sort_key (f :: 'a \<Rightarrow> int) xs))"
proof (rule ccontr)
  let ?ys = "sort_key f xs"
  assume no: "f x \<notin> f ` set (take n ?ys)"
  have "x \<in> set ?ys" using assms(1) by simp
  then have x: "x \<in> set (drop n ?ys)" using no by (metis Un_iff append_take_drop_id imageI set_append)
  have "f y < f x" if "y \<in> set (take n ?ys)" for y
  proof -
    have "sorted (map f (take n ?ys @ drop n ?ys))" by simp
    then have "f y \<le> f x" using that x unfolding map_append sorted_append by (metis image_eqI list.set_map)
    moreover have "f y \<noteq> f x" using no that by (metis image_eqI)
    ultimately show ?thesis by simp
  qed
  then have "filter (\<lambda>y. f y < f x) (take n ?ys) = take n ?ys" by (simp add: filter_id_conv)
  then have "n \<le> length (filter (\<lambda>y. f y < f x) ?ys)"
  proof -
    have "n \<le> length ?ys" using x by (cases "n \<le> length ?ys") auto
    then have "n = length (filter (\<lambda>y. f y < f x) (take n ?ys))"
      using \<open>filter (\<lambda>y. f y < f x) (take n ?ys) = take n ?ys\<close> by simp
    also have "\<dots> \<le> length (filter (\<lambda>y. f y < f x) (take n ?ys @ drop n ?ys))" by (simp only: filter_append length_append)
    finally show ?thesis by simp
  qed
  also have "length (filter (\<lambda>y. f y < f x) ?ys) = length (filter (\<lambda>y. f y < f x) xs)"
    by (metis filter_sort length_sort)
  finally show False using assms(2) by simp
qed

lemma better_fold:
  "foldl (better cur) b ss = b \<and> (\<forall>s \<in> set ss. sn_Valid s \<and> sn_Version s < cur \<longrightarrow> sn_Version s \<le> b)
   \<or> (\<exists>s \<in> set ss. sn_Valid s \<and> sn_Version s < cur \<and> b < sn_Version s \<and> foldl (better cur) b ss = sn_Version s
       \<and> (\<forall>s' \<in> set ss. sn_Valid s' \<and> sn_Version s' < cur \<longrightarrow> sn_Version s' \<le> sn_Version s))"
proof (induction ss arbitrary: b)
  case (Cons s ss)
  show ?case
  proof (cases "sn_Valid s \<and> sn_Version s < cur \<and> b < sn_Version s")
    case True
    then have b: "better cur b s = sn_Version s" by (simp add: better_def)
    from Cons.IH [of "sn_Version s"] True show ?thesis by (simp add: b) (elim disjE; force)
  next
    case False
    then have b: "better cur b s = b" by (simp add: better_def)
    from Cons.IH [of b] False show ?thesis by (simp add: b) (elim disjE; force)
  qed
qed simp

text \<open>A reload that changes the document, when no statement fails.\<close>

definition fresh_snap :: "int \<Rightarrow> render_result \<Rightarrow> db \<Rightarrow> config_snapshot" where
  "fresh_snap now res d = \<lparr>sn_Version = next_version d, sn_JSON = rr_JSON res, sn_Hash = rr_Hash res, sn_Valid = True,
     sn_CreatedAt = of_unix now\<rparr>"

definition pruned :: "db \<Rightarrow> db" where
  "pruned d = d\<lparr>db_snapshots := filter (\<lambda>s. sn_Version s \<in> sn_Version ` set (take 50 (sort_key (\<lambda>s. - sn_Version s) (db_snapshots d))))
     (db_snapshots d)\<rparr>"

lemma reload_changes:
  assumes "db_faults (en_db e) = []" "db_document L uni cfg now (en_db e) = Inr res" "en_rendered e = Some s" "sv_Hash s \<noteq> rr_Hash res"
  shows "\<exists>hosts flags. snd (Reload L uni cfg now e) =
    (sync_edge cfg hosts flags e)\<lparr>en_rendered := Some \<lparr>sv_JSON = rr_JSON res, sv_Hash = rr_Hash res\<rparr>,
      en_version := next_version (en_db e),
      en_db := pruned ((en_db e)\<lparr>db_snapshots := db_snapshots (en_db e) @ [fresh_snap now res (en_db e)]\<rparr>)\<rparr>"
proof -
  let ?h = "db_hosts_now (en_db e)" and ?fl = "(wafEnabledFrom cfg (db_settings (en_db e)),
              settingBoolMap (db_settings (en_db e)) ''plugins.cache.enabled'' False)"
  let ?sn = "\<lparr>sn_Version = next_version (en_db e), sn_JSON = rr_JSON res, sn_Hash = rr_Hash res, sn_Valid = True, sn_CreatedAt = zero_time\<rparr>"
  let ?d = "(en_db e)\<lparr>db_snapshots := db_snapshots (en_db e) @ [fresh_snap now res (en_db e)]\<rparr>"
  have R: "Reload L uni cfg now e = commit_reload cfg now res ?h ?fl e"
    using assms(2) by (simp add: Reload_commit e_then_def renderConfig_db [OF assms(1)])
  have latest: "LatestSnapshotVersion (en_db e) = (Inr (next_version (en_db e) - 1), en_db e)"
    using assms(1) by (simp add: LatestSnapshotVersion_def next_version_def)
  have "next_version (en_db e) \<notin> sn_Version ` set (db_snapshots (en_db e))"
    using next_version_fresh by fastforce
  then have add: "AddSnapshot now ?sn (en_db e) = (Inr (), ?d)"
    using assms(1) by (simp add: AddSnapshot_def fresh_snap_def)
  have prune: "PruneSnapshots 50 ?d = (Inr (), pruned ?d)"
    using assms(1) by (simp add: PruneSnapshots_def pruned_def)
  have "snd (commit_reload cfg now res ?h ?fl e) =
    (sync_edge cfg ?h ?fl e)\<lparr>en_rendered := Some \<lparr>sv_JSON = rr_JSON res, sv_Hash = rr_Hash res\<rparr>,
      en_version := next_version (en_db e), en_db := pruned ?d\<rparr>"
    using assms(3,4) by (simp add: commit_reload_def e_then_def e_update_def run_db_def latest add e_ignore_def prune
        e_return_def set_served_def sync_edge_def)
  then show ?thesis unfolding R by blast
qed

lemma pruned_keeps:
  assumes "sn \<in> set (db_snapshots d)" "length (filter (\<lambda>s. sn_Version sn < sn_Version s) (db_snapshots d)) < 50"
  shows "sn \<in> set (db_snapshots (pruned d))"
proof -
  have "- sn_Version sn \<in> (\<lambda>s. - sn_Version s) ` set (take 50 (sort_key (\<lambda>s. - sn_Version s) (db_snapshots d)))"
    using assms by (intro take_sorted_few) simp_all
  with assms(1) show ?thesis by (auto simp: pruned_def)
qed

lemma pruned_sub: "x \<in> set (db_snapshots (pruned d)) \<Longrightarrow> x \<in> set (db_snapshots d)"
  unfolding pruned_def by simp

lemma pruned_distinct: "distinct (map sn_Version (db_snapshots d)) \<Longrightarrow> distinct (map sn_Version (db_snapshots (pruned d)))"
  unfolding pruned_def by (simp add: distinct_map_filter)

lemma pruned_few: "length (filter P (db_snapshots (pruned d))) \<le> length (filter P (db_snapshots d))"
proof -
  have "length (filter P (filter Q xs)) \<le> length (filter P xs)" for Q and xs :: "config_snapshot list"
    by (induction xs) auto
  then show ?thesis unfolding pruned_def by simp
qed

text \<open>The second highest version is the last good one.\<close>

lemma lastGood_second:
  assumes "db_faults (en_db e) = []" "sn \<in> set (db_snapshots (en_db e))" "sn_Valid sn" "0 \<le> sn_Version sn"
    and "sn_Version sn < en_version e"
    and up: "\<And>x. x \<in> set (db_snapshots (en_db e)) \<Longrightarrow> sn_Version x \<le> sn_Version sn \<or> sn_Version x = en_version e"
    and few: "length (filter (\<lambda>s. sn_Version sn < sn_Version s) (db_snapshots (en_db e))) < 50"
    and d: "distinct (map sn_Version (db_snapshots (en_db e)))"
  shows "lastGoodVersion e = (Some (sn_Version sn), e)"
proof -
  let ?top = "take 50 (sort_key (\<lambda>s. - sn_Version s) (db_snapshots (en_db e)))"
  let ?l = "map (\<lambda>s. s\<lparr>sn_JSON := []\<rparr>) ?top"
  have ls: "ListSnapshots 50 (en_db e) = (Inr ?l, en_db e)" using assms(1) by (simp add: ListSnapshots_def t_list_def)
  have "- sn_Version sn \<in> (\<lambda>s. - sn_Version s) ` set ?top" using assms(2) few by (intro take_sorted_few) simp_all
  then obtain y where y: "y \<in> set ?top" "sn_Version y = sn_Version sn" by auto
  then have "y \<in> set (db_snapshots (en_db e))" using set_take_subset [of 50] by (metis set_sort subsetD)
  with d y(2) assms(2) have "y = sn" by (metis distinct_map inj_onD)
  with y have mem: "sn\<lparr>sn_JSON := []\<rparr> \<in> set ?l" by simp
  have ub: "sn_Version x \<le> sn_Version sn" if "x \<in> set ?l" "sn_Version x < en_version e" for x
  proof -
    from that(1) obtain x' where "x' \<in> set ?top" "sn_Version x' = sn_Version x" by auto
    then have "x' \<in> set (db_snapshots (en_db e))" using set_take_subset [of 50] by (metis set_sort subsetD)
    with up [OF this] that(2) \<open>sn_Version x' = sn_Version x\<close> show ?thesis by auto
  qed
  have "foldl (better (en_version e)) (- 1) ?l = sn_Version sn"
    using better_fold [of "en_version e" "- 1" ?l]
  proof (elim disjE conjE bexE)
    assume "\<forall>s \<in> set ?l. sn_Valid s \<and> sn_Version s < en_version e \<longrightarrow> sn_Version s \<le> - 1"
    from bspec [OF this mem] assms(3-5) show ?thesis by simp
  next
    fix x assume x: "x \<in> set ?l" "sn_Version x < en_version e" "foldl (better (en_version e)) (- 1) ?l = sn_Version x"
      "\<forall>s' \<in> set ?l. sn_Valid s' \<and> sn_Version s' < en_version e \<longrightarrow> sn_Version s' \<le> sn_Version x"
    have "sn_Version sn \<le> sn_Version x" using bspec [OF x(4) mem] assms(3,5) by simp
    with ub [OF x(1,2)] x(3) show ?thesis by simp
  qed
  with assms(4) show ?thesis by (simp add: lastGoodVersion_def run_db_def ls)
qed

lemma recordRecovery_frame [simp]:
  "en_rendered (recordRecovery now fresh level action e) = en_rendered e"
  "en_version (recordRecovery now fresh level action e) = en_version e"
  "en_recoverLevel (recordRecovery now fresh level action e) = en_recoverLevel e"
  "db_snapshots (en_db (recordRecovery now fresh level action e)) = db_snapshots (en_db e)"
  "db_faults (en_db e) = [] \<Longrightarrow> db_faults (en_db (recordRecovery now fresh level action e)) = []"
  by (auto simp: recordRecovery_def run_db_def add_alert_def AddAudit_def stmt_def Let_def
      split: prod.splits sum.splits list.splits bool.splits if_splits)

text \<open>The database after the first step's \<open>SetSetting\<close>.\<close>

definition raw_cleared :: "db \<Rightarrow> db" where
  "raw_cleared d = d\<lparr>db_settings := mput ''raw.dynamicYaml'' [] (db_settings d)\<rparr>"

lemma raw_cleared_simps [simp]:
  "db_snapshots (raw_cleared d) = db_snapshots d" "db_faults (raw_cleared d) = db_faults d"
  "next_version (raw_cleared d) = next_version d"
  by (simp_all add: raw_cleared_def next_version_def)

lemma level0_effect:
  assumes "db_faults (en_db e) = []" "en_rendered e = Some s"
    and "db_document (hl_render HL) (hl_uni HL) cfg (unix_of now) (raw_cleared (en_db e)) = Inr res" "sv_Hash s \<noteq> rr_Hash res"
  shows "\<exists>e'. snd (level0 HL cfg now e) = e' \<and> en_rendered e' = Some \<lparr>sv_JSON = rr_JSON res, sv_Hash = rr_Hash res\<rparr>
    \<and> en_version e' = next_version (en_db e) \<and> en_recoverLevel e' = en_recoverLevel e
    \<and> en_db e' = pruned ((raw_cleared (en_db e))\<lparr>db_snapshots := db_snapshots (en_db e) @ [fresh_snap (unix_of now) res (en_db e)]\<rparr>)"
proof -
  let ?e = "e\<lparr>en_db := raw_cleared (en_db e)\<rparr>"
  have set: "run_db (SetSetting ''raw.dynamicYaml'' []) e = (Inr (), ?e)"
    using assms(1) by (simp add: run_db_def SetSetting_no_fault raw_cleared_def)
  obtain hosts flags where "snd (Reload (hl_render HL) (hl_uni HL) cfg (unix_of now) ?e) =
    (sync_edge cfg hosts flags ?e)\<lparr>en_rendered := Some \<lparr>sv_JSON = rr_JSON res, sv_Hash = rr_Hash res\<rparr>,
      en_version := next_version (en_db ?e),
      en_db := pruned ((en_db ?e)\<lparr>db_snapshots := db_snapshots (en_db ?e) @ [fresh_snap (unix_of now) res (en_db ?e)]\<rparr>)\<rparr>"
  proof -
    have "db_faults (en_db ?e) = []" "en_rendered ?e = Some s"
      "db_document (hl_render HL) (hl_uni HL) cfg (unix_of now) (en_db ?e) = Inr res"
      using assms by simp_all
    from reload_changes [OF this(1,3,2) assms(4)] that show thesis by blast
  qed
  then show ?thesis by (simp add: level0_def set sync_edge_def fresh_snap_def)
qed

text \<open>What the history holds after the first step has stored its own snapshot and pruned.\<close>

lemma history_after_step:
  fixes d :: db and t :: int and res :: render_result
  defines "d' \<equiv> pruned ((raw_cleared d)\<lparr>db_snapshots := db_snapshots d @ [fresh_snap t res d]\<rparr>)"
  assumes sn: "sn \<in> set (db_snapshots d)" and nxt: "next_version d = sn_Version sn + 1"
    and dist: "distinct (map sn_Version (db_snapshots d))"
  shows "sn \<in> set (db_snapshots d')" "distinct (map sn_Version (db_snapshots d'))"
    "\<And>x. x \<in> set (db_snapshots d') \<Longrightarrow> sn_Version x \<le> sn_Version sn \<or> sn_Version x = sn_Version sn + 1"
    "length (filter (\<lambda>s. sn_Version sn < sn_Version s) (db_snapshots d')) < 50"
proof -
  let ?d = "(raw_cleared d)\<lparr>db_snapshots := db_snapshots d @ [fresh_snap t res d]\<rparr>"
  have old: "sn_Version x \<le> sn_Version sn" if "x \<in> set (db_snapshots d)" for x
    using next_version_fresh [OF that] nxt by simp
  have new: "sn_Version (fresh_snap t res d) = sn_Version sn + 1" by (simp add: fresh_snap_def nxt)
  have "filter (\<lambda>s. sn_Version sn < sn_Version s) (db_snapshots d) = []"
    using old by (auto simp: filter_empty_conv not_less)
  then have few: "length (filter (\<lambda>s. sn_Version sn < sn_Version s) (db_snapshots ?d)) \<le> 1" by simp
  show "sn \<in> set (db_snapshots d')" unfolding d'_def using few sn by (intro pruned_keeps) simp_all
  have "distinct (map sn_Version (db_snapshots ?d))" using dist old new by fastforce
  then show "distinct (map sn_Version (db_snapshots d'))" unfolding d'_def by (rule pruned_distinct)
  show "sn_Version x \<le> sn_Version sn \<or> sn_Version x = sn_Version sn + 1" if "x \<in> set (db_snapshots d')" for x
    using pruned_sub [OF that [unfolded d'_def]] old new by auto
  show "length (filter (\<lambda>s. sn_Version sn < sn_Version s) (db_snapshots d')) < 50"
    unfolding d'_def using few pruned_few [of "\<lambda>s. sn_Version sn < sn_Version s" ?d] by linarith
qed

lemma find_version: "distinct (map sn_Version xs) \<Longrightarrow> sn \<in> set xs \<Longrightarrow> find (\<lambda>s. sn_Version s = sn_Version sn) xs = Some sn"
  by (induction xs) force+

text \<open>
  C40: The second recovery step puts back what the first removed: if the document that crashed Traefik was
  served from the newest snapshot, the first step clears the raw configuration, serves and records a
  different document, and when Traefik crashes again the second step's last-known-good snapshot is the
  document from before the recovery, raw configuration included.
\<close>

theorem recovery_reinstates:
  assumes "ec_TraefikManaged cfg" "db_faults (en_db (mc_eng w)) = []" "en_recoverLevel (mc_eng w) = 0"
    and "sn \<in> set (db_snapshots (en_db (mc_eng w)))" "sn_Valid sn" "0 \<le> sn_Version sn"
    and "next_version (en_db (mc_eng w)) = sn_Version sn + 1" "distinct (map sn_Version (db_snapshots (en_db (mc_eng w))))"
    and "en_rendered (mc_eng w) = Some \<lparr>sv_JSON = sn_JSON sn, sv_Hash = sn_Hash sn\<rparr>"
    and "db_document (hl_render HL) (hl_uni HL) cfg (unix_of t) (raw_cleared (en_db (mc_eng w))) = Inr res"
    and "rr_Hash res \<noteq> sn_Hash sn"
    and w1: "w1 = recoverTraefik HL pc cfg io t f w"
  shows "en_rendered (mc_eng w1) = Some \<lparr>sv_JSON = rr_JSON res, sv_Hash = rr_Hash res\<rparr>
    \<and> en_rendered (mc_eng (recoverTraefik HL pc cfg io' t' f' w1)) = en_rendered (mc_eng w)"
proof -
  let ?e = "mc_eng w" and ?e1 = "(mc_eng w)\<lparr>en_recoverLevel := Suc 0\<rparr>"
  let ?d = "(raw_cleared (en_db ?e))\<lparr>db_snapshots := db_snapshots (en_db ?e) @ [fresh_snap (unix_of t) res (en_db ?e)]\<rparr>"
  obtain a e' where l0: "level0 HL cfg t ?e1 = (a, e')" by fastforce
  have e': "en_rendered e' = Some \<lparr>sv_JSON = rr_JSON res, sv_Hash = rr_Hash res\<rparr>" "en_version e' = sn_Version sn + 1"
    "en_recoverLevel e' = 1" "en_db e' = pruned ?d"
    using level0_effect [of ?e1 _ HL cfg t res] assms l0 by auto
  have m1: "mc_eng w1 = recordRecovery t f 0 a e'"
    using assms(1,3) l0 by (simp add: w1 recoverTraefik_def on_engine_def Let_def)
  let ?e2 = "mc_eng w1" and ?e3 = "(mc_eng w1)\<lparr>en_recoverLevel := Suc (Suc 0)\<rparr>"
  have s2: "db_snapshots (en_db ?e3) = db_snapshots (pruned ?d)" "en_version ?e3 = sn_Version sn + 1"
    "en_recoverLevel ?e2 = 1" "db_faults (en_db ?e3) = []"
    using e' assms(2) by (simp_all add: m1 pruned_def)
  note h = history_after_step [where t = "unix_of t" and res = res, OF assms(4,7,8), folded s2(1)]
  have g: "lastGoodVersion ?e3 = (Some (sn_Version sn), ?e3)"
    by (rule lastGood_second) (use assms(5,6) h s2 in simp_all)
  have f: "find (\<lambda>s. sn_Version s = sn_Version sn) (db_snapshots (en_db ?e3)) = Some sn" using h(1,2) by (intro find_version)
  have "en_rendered (snd (level1 HL cfg t' ?e3)) = Some \<lparr>sv_JSON = sn_JSON sn, sv_Hash = sn_Hash sn\<rparr>"
    by (simp add: level1_def g rollback_effect [OF s2(4) f])
  then have "en_rendered (mc_eng (recoverTraefik HL pc cfg io' t' f' w1)) = Some \<lparr>sv_JSON = sn_JSON sn, sv_Hash = sn_Hash sn\<rparr>"
    using assms(1) s2(3) by (simp add: recoverTraefik_def on_engine_def Let_def split: prod.split) (metis snd_conv)
  with e'(1) assms(9) show ?thesis by (simp add: m1)
qed

section \<open>A concrete recovery\<close>

definition sample_heal :: heal_libs where
  "sample_heal = \<lparr>hl_render = plain_libs, hl_uni = id, hl_yaml = (\<lambda>_. Inr []), hl_json_valid = (\<lambda>_. False), hl_hash = id\<rparr>"

definition crashed_machine :: machine where
  "crashed_machine = \<lparr>mc_eng = (fresh_engine snap_db)\<lparr>en_rendered := Some \<lparr>sv_JSON = ''{}'', sv_Hash = ''h4''\<rparr>, en_version := 4\<rparr>,
     mc_sup = snd (Start Starts 0 (boot managed)), mc_static = None\<rparr>"

lemma empty_renders:
  "\<exists>res. db_document plain_libs id sample_cfg 0 (raw_cleared snap_db) = Inr res \<and> rr_Hash res = ''{}''"
proof -
  have raw: "mget_or [] (db_settings (raw_cleared snap_db)) ''raw.dynamicYaml'' = []"
    by (simp add: mget_or_def raw_cleared_def)
  have j: "lib_json plain_libs d = Inr ''{}''" "lib_recode plain_libs x = None" "lib_sha plain_libs x = x" for d x
    by (simp_all add: plain_libs_def)
  have mw: "db_middlewares (raw_cleared snap_db) = []" by (simp add: raw_cleared_def snap_db_def empty_db_def)
  obtain hs certs acls bans st where d: "db_document plain_libs id sample_cfg 0 (raw_cleared snap_db) =
      render_checked plain_libs id sample_cfg hs [] certs acls bans st" "mget_or [] st ''raw.dynamicYaml'' = []"
    unfolding db_document_def mw using raw by simp
  obtain r where r: "Render plain_libs id (render_inputs sample_cfg hs [] certs acls bans st None) = Inr r" "rr_Hash r = ''{}''"
    by (simp add: Render_def Let_def render_inputs_def j)
  show ?thesis using r by (simp add: d render_checked_def ValidateConfig_def j)
qed

definition once_recovered :: machine where
  "once_recovered = recoverTraefik sample_heal (env_config ascii_libs []) sample_cfg None 0 ''a'' crashed_machine"

lemma recovery_reinstates_witness:
  "en_rendered (mc_eng (recoverTraefik sample_heal (env_config ascii_libs []) sample_cfg None 1 ''b'' once_recovered))
   = Some \<lparr>sv_JSON = ''{}'', sv_Hash = ''h4''\<rparr>"
proof -
  obtain res where res: "db_document plain_libs id sample_cfg 0 (raw_cleared snap_db) = Inr res" "rr_Hash res = ''{}''"
    using empty_renders by blast
  have e: "mc_eng crashed_machine = (fresh_engine snap_db)\<lparr>en_rendered := Some \<lparr>sv_JSON = ''{}'', sv_Hash = ''h4''\<rparr>, en_version := 4\<rparr>"
    by (simp add: crashed_machine_def)
  have "en_rendered (mc_eng once_recovered) = Some \<lparr>sv_JSON = rr_JSON res, sv_Hash = rr_Hash res\<rparr>
    \<and> en_rendered (mc_eng (recoverTraefik sample_heal (env_config ascii_libs []) sample_cfg None 1 ''b'' once_recovered))
      = en_rendered (mc_eng crashed_machine)"
  proof (rule recovery_reinstates [where sn = old_snap])
    show "db_document (hl_render sample_heal) (hl_uni sample_heal) sample_cfg (unix_of 0) (raw_cleared (en_db (mc_eng crashed_machine))) = Inr res"
      using res(1) by (simp add: e sample_heal_def unix_of_def)
    show "rr_Hash res \<noteq> sn_Hash old_snap" using res(2) by (simp add: old_snap_def)
  qed (simp_all add: e once_recovered_def sample_cfg_def old_snap_def next_version_def, simp_all add: fresh_engine_def)
  then show ?thesis by (simp add: e)
qed

end
