(* ===== verification/Api.thy ===== *)
theory Api
  imports Auth Recovery
begin

text \<open>
  The admin API: the route table with its role gates (\<open>internal/api/server.go\<close>) and the handlers for hosts,
  users and bans (\<open>handlers_hosts.go\<close>, \<open>handlers_users.go\<close>, \<open>handlers_bans.go\<close>), with the provider endpoint
  that Traefik polls. A handler gets the signed-in user, the decoded body (None when decoding failed) and
  the state.
\<close>

section \<open>Parameters\<close>

record api_libs =
  pl_auth :: auth_libs
  pl_render :: libs
  pl_uni :: "string \<Rightarrow> string"
  pl_alnum :: "nat \<Rightarrow> bool"
  pl_uri :: "string \<Rightarrow> bool"
  pl_check :: "string \<Rightarrow> ssrf_err option"
  pl_checkText :: "string \<times> ssrf_err \<Rightarrow> string"
  pl_cfg :: eng_cfg

abbreviation err_text :: "api_libs \<Rightarrow> eng_err \<Rightarrow> string" where
  "err_text AP \<equiv> ax_errText (pl_auth AP)"

definition reloadAfterChange :: "api_libs \<Rightarrow> call_env \<Rightarrow> api_state \<Rightarrow> eng_err option \<times> api_state" where
  "reloadAfterChange AP ce st =
     (case on_eng (Reload (pl_render AP) (pl_uni AP) (pl_cfg AP) (unix_of (ce_now ce))) st of
        (Inl x, st') \<Rightarrow> (Some x, st')
      | (Inr _, st') \<Rightarrow> (None, st'))"

abbreviation audit_as :: "call_env \<Rightarrow> user \<Rightarrow> string \<Rightarrow> string \<Rightarrow> string \<Rightarrow> api_state \<Rightarrow> api_state" where
  "audit_as ce u \<equiv> audit (ce_now ce) (ce_fresh ce) (Some u)"

definition writeIssues :: "issue list \<Rightarrow> 'b api_reply" where
  "writeIssues issues = ApiIssues (map (\<lambda>i. case i of Issue f m \<Rightarrow> (f, m)) issues)"

section \<open>Routes\<close>

datatype gate = Public | SignedIn | Roles "role list"

definition routes :: "(string \<times> string \<times> gate) list" where
  "routes =
     (let op = Roles [RoleAdmin, RoleOperator]; ro = Roles [RoleAdmin, RoleOperator, RoleViewer]; admin = Roles [RoleAdmin] in
      [(''GET'', ''/api/setup'', Public), (''POST'', ''/api/setup'', Public), (''POST'', ''/api/login'', Public),
       (''POST'', ''/api/logout'', Public), (''GET'', ''/api/me'', SignedIn), (''GET'', ''/api/health'', Public),
       (''GET'', ''/api/hosts'', ro), (''POST'', ''/api/hosts'', op), (''GET'', ''/api/hosts/{id}'', ro),
       (''PUT'', ''/api/hosts/{id}'', op), (''DELETE'', ''/api/hosts/{id}'', op),
       (''GET'', ''/api/hosts/{id}/schedules'', ro), (''POST'', ''/api/hosts/{id}/schedules'', op),
       (''DELETE'', ''/api/schedules/{id}'', op),
       (''GET'', ''/api/middlewares'', ro), (''POST'', ''/api/middlewares'', op), (''PUT'', ''/api/middlewares/{id}'', op),
       (''DELETE'', ''/api/middlewares/{id}'', op), (''GET'', ''/api/middleware-catalog'', ro),
       (''GET'', ''/api/certificates'', ro), (''POST'', ''/api/certificates'', op), (''DELETE'', ''/api/certificates/{id}'', op),
       (''POST'', ''/api/certificates/{id}/renew'', op),
       (''GET'', ''/api/dns-providers'', ro), (''POST'', ''/api/dns-providers'', op), (''DELETE'', ''/api/dns-providers/{id}'', op),
       (''GET'', ''/api/dns-catalog'', ro),
       (''GET'', ''/api/listeners'', ro),
       (''GET'', ''/api/traefik/status'', ro), (''GET'', ''/api/traefik/logs'', ro), (''POST'', ''/api/traefik/restart'', op),
       (''GET'', ''/api/config/preview'', ro), (''GET'', ''/api/config/snapshots'', ro),
       (''GET'', ''/api/config/snapshots/{version}'', ro), (''POST'', ''/api/config/rollback/{version}'', op),
       (''GET'', ''/api/access-lists'', ro), (''POST'', ''/api/access-lists'', op), (''PUT'', ''/api/access-lists/{id}'', op),
       (''DELETE'', ''/api/access-lists/{id}'', op), (''POST'', ''/api/util/htpasswd'', op),
       (''GET'', ''/api/default-site'', ro), (''PUT'', ''/api/default-site'', op), (''GET'', ''/api/raw-config'', ro),
       (''PUT'', ''/api/raw-config'', admin),
       (''GET'', ''/api/plugins'', ro), (''PUT'', ''/api/plugins'', admin), (''GET'', ''/api/security/metrics'', ro),
       (''GET'', ''/api/bans'', ro), (''POST'', ''/api/bans'', op), (''DELETE'', ''/api/bans/{ip...}'', op),
       (''GET'', ''/api/bans-config'', ro), (''PUT'', ''/api/bans-config'', op),
       (''GET'', ''/api/traefik/overview'', ro), (''GET'', ''/api/traefik/routers'', ro), (''GET'', ''/api/traefik/services'', ro),
       (''GET'', ''/api/import/docker'', ro), (''POST'', ''/api/import/docker'', op),
       (''GET'', ''/api/backup'', admin), (''POST'', ''/api/restore'', admin), (''GET'', ''/api/notifications'', admin),
       (''PUT'', ''/api/notifications'', admin), (''POST'', ''/api/notifications/test'', admin),
       (''GET'', ''/api/users'', admin), (''POST'', ''/api/users'', admin), (''PUT'', ''/api/users/{id}'', admin),
       (''DELETE'', ''/api/users/{id}'', admin),
       (''GET'', ''/api/settings'', ro), (''PUT'', ''/api/settings'', admin), (''GET'', ''/api/audit'', ro)])"

text \<open>The pattern language of the mux: literal segments, one-segment wildcards, a final rest wildcard.\<close>

fun match_segments :: "string list \<Rightarrow> string list \<Rightarrow> bool" where
  "match_segments [] [] = True"
| "match_segments (p # ps) ss =
     (if suffix ''...}'' p then ss \<noteq> []
      else (case ss of [] \<Rightarrow> False
            | s # ss' \<Rightarrow> (if prefix ''{'' p then s \<noteq> [] else s = p) \<and> match_segments ps ss'))"
| "match_segments [] (s # ss) = False"

definition route_gate :: "string \<Rightarrow> string \<Rightarrow> gate option" where
  "route_gate verb path =
     map_option (\<lambda>(m, p, g). g)
       (find (\<lambda>(m, p, g). (m = verb \<or> m = ''GET'' \<and> verb = ''HEAD'')
                          \<and> match_segments (split_on (CHR ''/'') p) (split_on (CHR ''/'') path)) routes)"

definition through_gate :: "auth_libs \<Rightarrow> gotime \<Rightarrow> gate \<Rightarrow> (user option \<Rightarrow> api_state \<Rightarrow> 'b api_reply \<times> api_state)
    \<Rightarrow> api_request \<Rightarrow> api_state \<Rightarrow> 'b api_reply \<times> api_state" where
  "through_gate AL now g h r st =
     (case g of
        Public \<Rightarrow> h None st
      | SignedIn \<Rightarrow> requireAuth AL now (h \<circ> Some) r st
      | Roles rs \<Rightarrow> requireRole AL now rs (h \<circ> Some) r st)"

text \<open>A request to the admin mux: a route of the table through its gate, or the SPA's catch-all.\<close>

definition admin_mux :: "auth_libs \<Rightarrow> gotime \<Rightarrow> (string \<Rightarrow> string \<Rightarrow> user option \<Rightarrow> api_state \<Rightarrow> 'b api_reply \<times> api_state)
    \<Rightarrow> (string \<Rightarrow> 'b api_reply) \<Rightarrow> string \<Rightarrow> string \<Rightarrow> api_request \<Rightarrow> api_state \<Rightarrow> 'b api_reply \<times> api_state" where
  "admin_mux AL now handlers spa verb path r st =
     (case route_gate verb path of
        Some g \<Rightarrow> through_gate AL now g (handlers verb path) r st
      | None \<Rightarrow> (spa path, st))"

text \<open>The catch-all: \<open>assets\<close> is the embedded file system, the answer the file that is served.\<close>

definition handleSPA :: "(string \<Rightarrow> bool) option \<Rightarrow> string \<Rightarrow> string api_reply" where
  "handleSPA assets path =
     (if has_prefix path ''/api/'' then ApiErr 404 ''not found''
      else
        (case assets of
           None \<Rightarrow> ApiErr 503 ''ui not built''
         | Some exists \<Rightarrow>
             (let p0 = trim_prefix path ''/''; p = (if p0 = [] then ''index.html'' else p0) in
              ApiOk 200 (if exists p then p else ''index.html''))))"

section \<open>The provider endpoint\<close>

datatype provider_reply = Denied | NotModified | ProviderError eng_err | Document string string

definition handleProvider ::
  "(string \<Rightarrow> jobj option) \<Rightarrow> (json \<Rightarrow> string) \<Rightarrow> (string \<Rightarrow> certificate option) \<Rightarrow> (string \<Rightarrow> string option)
    \<Rightarrow> string \<Rightarrow> string \<Rightarrow> string \<Rightarrow> engine \<Rightarrow> provider_reply" where
  "handleProvider parse enc lookup decrypt token header_token if_none_match e =
     (if token \<noteq> [] \<and> header_token \<noteq> token then Denied
      else if if_none_match \<noteq> [] \<and> trim_cut [CHR 0x22] if_none_match = RenderedHash e then NotModified
      else
        (case ProviderDocument parse enc lookup decrypt e of
           Inl x \<Rightarrow> ProviderError x
         | Inr (doc, etag) \<Rightarrow> Document doc ([CHR 0x22] @ etag @ [CHR 0x22])))"

section \<open>Hosts\<close>

definition has_backend :: "upstream list \<Rightarrow> bool" where
  "has_backend ups \<longleftrightarrow> (case ups of [] \<Rightarrow> False | u # _ \<Rightarrow> u_Host u \<noteq> [])"

definition corsIssues :: "host \<Rightarrow> issue list" where
  "corsIssues h =
     (if \<not> h_CORSEnabled h then []
      else
        map (\<lambda>_. Issue ''corsAllowOrigins'' (''a wildcard origin '' @ [CHR 0x22] @ ''*'' @ [CHR 0x22]
                 @ '' cannot be combined with '' @ [CHR 0x22] @ ''allow credentials'' @ [CHR 0x22]))
          (filter (\<lambda>org. h_CORSAllowCredentials h \<and> trim_space org = ''*'') (h_CORSAllowOrigins h))
        @ (if list_all (\<lambda>org. trim_space org = []) (h_CORSAllowOrigins h)
           then [Issue ''corsAllowOrigins'' ''at least one allowed origin is required when CORS is enabled''] else []))"

definition rawYAMLIssues :: "api_libs \<Rightarrow> host \<Rightarrow> issue list" where
  "rawYAMLIssues AP h =
     (if trim_space (h_RawYAML h) = [] then []
      else
        (case ParseRawConfig (pl_render AP) (h_RawYAML h) of
           Inl x \<Rightarrow> [Issue ''rawYaml'' x]
         | Inr frag \<Rightarrow>
             (if (case frag of Some f \<Rightarrow> (case dc_HTTP f of Some s \<Rightarrow> hs_Routers s \<noteq> [] | None \<Rightarrow> False) | None \<Rightarrow> False)
              then [Issue ''rawYaml'' ''per-host raw config supports middlewares and services only; define routers in the global raw config (admin)'']
              else if (case frag of Some f \<Rightarrow> (case dc_TCP f of Some s \<Rightarrow> ts_Routers s \<noteq> [] | None \<Rightarrow> False) | None \<Rightarrow> False)
              then [Issue ''rawYaml'' ''per-host raw config does not support TCP routers'']
              else (case CheckRawServiceTargets (pl_check AP) frag of
                      Some x \<Rightarrow> [Issue ''rawYaml'' (pl_checkText AP x)]
                    | None \<Rightarrow> []))))"

definition kind_issues :: "api_libs \<Rightarrow> host \<Rightarrow> issue list" where
  "kind_issues AP h =
     (if h_Kind h = HostKindStream then
        (if h_StreamEntryPoint h = [] then [Issue ''streamEntryPoint'' ''an entrypoint is required''] else [])
        @ (if \<not> has_backend (h_Upstreams h) \<or> u_Port (hd (h_Upstreams h)) = 0
           then [Issue ''upstreams'' ''a backend host and port are required''] else [])
        @ (if h_TLSPassthrough h \<and> h_Domains h = []
           then [Issue ''domains'' ''TLS passthrough requires at least one SNI hostname''] else [])
      else if h_Kind h = HostKindProxy \<and> h_ServiceMode h \<noteq> [] \<and> h_ServiceMode h \<noteq> ''single'' then
        (let least = (if h_ServiceMode h = ''failover'' \<or> h_ServiceMode h = ''mirroring'' then 2 else 1) in
         (if h_Domains h = [] then [Issue ''domains'' ''at least one domain is required''] else [])
         @ (if length (h_BackendGroups h) < least
            then [Issue ''backendGroups'' (''this mode needs at least '' @ show_nat least @ '' backend group(s)'')] else [])
         @ concat (map (\<lambda>(i, g). if \<not> has_backend (bg_Upstreams g)
                                  then [Issue (''backendGroups['' @ show_nat i @ '']'') ''each group needs a backend host''] else [])
                    (enumerate 0 (h_BackendGroups h))))
      else ValidateHostInputs (pl_uri AP) (h_Kind h) (h_Domains h) (h_Upstreams h) (h_RedirectTo h))"

definition validateHost :: "api_libs \<Rightarrow> host \<Rightarrow> issue list" where
  "validateHost AP h = kind_issues AP h
     @ ValidateRuleInputs (pl_alnum AP) (h_Domains h) (map loc_PathPrefix (h_Locations h))
     @ corsIssues h @ rawYAMLIssues AP h"

text \<open>Whether the change is forbidden, and the host to go on with.\<close>

definition rawYAMLRequiresAdmin :: "user \<Rightarrow> host \<Rightarrow> host option \<Rightarrow> bool \<times> host" where
  "rawYAMLRequiresAdmin u h existing =
     (if usr_Role u = RoleAdmin then (False, h)
      else
        (let prev = (case existing of Some x \<Rightarrow> h_RawYAML x | None \<Rightarrow> []) in
         if trim_space (h_RawYAML h) = [] then (False, h\<lparr>h_RawYAML := prev\<rparr>)
         else (h_RawYAML h \<noteq> prev, h)))"

definition handleListHosts :: "api_libs \<Rightarrow> host_kind \<Rightarrow> host list handler" where
  "handleListHosts AP kind u st =
     (case on_db (ListHosts kind) st of
        (Inl x, st1) \<Rightarrow> (ApiErr 500 (err_text AP x), st1)
      | (Inr hs, st1) \<Rightarrow> (ApiOk 200 hs, st1))"

definition handleGetHost :: "api_libs \<Rightarrow> string \<Rightarrow> host handler" where
  "handleGetHost AP i u st =
     (case on_db (GetHost i) st of
        (Inl x, st1) \<Rightarrow> (ApiErr (notFoundIf x) (err_text AP x), st1)
      | (Inr h, st1) \<Rightarrow> (ApiOk 200 h, st1))"

definition handleCreateHost :: "api_libs \<Rightarrow> call_env \<Rightarrow> host option \<Rightarrow> host handler" where
  "handleCreateHost AP ce body u st =
     (case body of
        None \<Rightarrow> (ApiErr 400 ''invalid body'', st)
      | Some h0 \<Rightarrow>
          (let h1 = h0\<lparr>h_ID := [], h_Kind := (if h_Kind h0 = [] then HostKindProxy else h_Kind h0)\<rparr>;
               (forbidden, h) = rawYAMLRequiresAdmin u h1 None in
           if forbidden then (ApiErr 403 ''setting per-host rawYaml requires the admin role'', st)
           else if validateHost AP h \<noteq> [] then (writeIssues (validateHost AP h), st)
           else
             (case on_db (CreateHost (unix_of (ce_now ce)) (ce_fresh ce) h) st of
                (Inl x, st1) \<Rightarrow> (ApiErr 500 (err_text AP x), st1)
              | (Inr _, st1) \<Rightarrow>
                  (let new = scanHost (host_row_of (unix_of (ce_now ce)) (ce_fresh ce) h) in
                   case reloadAfterChange AP ce st1 of
                     (Some x, st2) \<Rightarrow> (ApiErr 422 (''saved but config invalid: '' @ err_text AP x), st2)
                   | (None, st2) \<Rightarrow> (ApiOk 201 new, audit_as ce u ''host.create'' (h_ID new) (h_Kind new) st2)))))"

definition handleUpdateHost :: "api_libs \<Rightarrow> call_env \<Rightarrow> string \<Rightarrow> host option \<Rightarrow> host handler" where
  "handleUpdateHost AP ce i body u st =
     (case on_db (GetHost i) st of
        (Inl x, st1) \<Rightarrow> (ApiErr (notFoundIf x) (err_text AP x), st1)
      | (Inr existing, st1) \<Rightarrow>
          (case body of
             None \<Rightarrow> (ApiErr 400 ''invalid body'', st1)
           | Some h0 \<Rightarrow>
               (let h1 = h0\<lparr>h_ID := h_ID existing, h_CreatedAt := h_CreatedAt existing,
                            h_Kind := (if h_Kind h0 = [] then h_Kind existing else h_Kind h0)\<rparr>;
                    (forbidden, h) = rawYAMLRequiresAdmin u h1 (Some existing) in
                if forbidden then (ApiErr 403 ''modifying per-host rawYaml requires the admin role'', st1)
                else if validateHost AP h \<noteq> [] then (writeIssues (validateHost AP h), st1)
                else
                  (case on_db (UpdateHost (unix_of (ce_now ce)) h) st1 of
                     (Inl x, st2) \<Rightarrow> (ApiErr 500 (err_text AP x), st2)
                   | (Inr _, st2) \<Rightarrow>
                       (case reloadAfterChange AP ce st2 of
                          (Some x, st3) \<Rightarrow> (ApiErr 422 (''saved but config invalid: '' @ err_text AP x), st3)
                        | (None, st3) \<Rightarrow> (ApiOk 200 (h\<lparr>h_UpdatedAt := of_unix (unix_of (ce_now ce))\<rparr>),
                                         audit_as ce u ''host.update'' (h_ID h) [] st3))))))"

definition handleDeleteHost :: "api_libs \<Rightarrow> call_env \<Rightarrow> string \<Rightarrow> unit handler" where
  "handleDeleteHost AP ce i u st =
     (case on_db (DeleteHost i) st of
        (Inl x, st1) \<Rightarrow> (ApiErr 500 (err_text AP x), st1)
      | (Inr _, st1) \<Rightarrow> (ApiOk 200 (), audit_as ce u ''host.delete'' i [] (snd (reloadAfterChange AP ce st1))))"

section \<open>Users\<close>

definition handleListUsers :: "api_libs \<Rightarrow> user list handler" where
  "handleListUsers AP u st =
     (case on_db ListUsers st of
        (Inl x, st1) \<Rightarrow> (ApiErr 500 (err_text AP x), st1)
      | (Inr us, st1) \<Rightarrow> (ApiOk 200 us, st1))"

record create_user_req =
  cu_Email :: string
  cu_Name :: string
  cu_Password :: string
  cu_Role :: role

definition handleCreateUser :: "api_libs \<Rightarrow> call_env \<Rightarrow> create_user_req option \<Rightarrow> user handler" where
  "handleCreateUser AP ce body u st =
     (case body of
        None \<Rightarrow> (ApiErr 400 ''invalid body'', st)
      | Some q \<Rightarrow>
          if \<not> str_contains (cu_Email q) ''@'' \<or> length (cu_Password q) < 8
          then (ApiErr 400 ''valid email and 8+ char password required'', st)
          else
            (case ax_hash (pl_auth AP) (cu_Password q) of
               Inl x \<Rightarrow> (ApiErr 500 x, st)
             | Inr hash \<Rightarrow>
                 (let new = new_user (unix_of (ce_now ce)) (ce_fresh ce)
                        \<lparr>usr_ID = [], usr_Email = to_lower (ax_uni (pl_auth AP)) (cu_Email q), usr_Name = cu_Name q,
                         usr_PasswordHash = hash, usr_Role = (if cu_Role q = [] then RoleViewer else cu_Role q),
                         usr_Disabled = False, usr_CreatedAt = zero_time, usr_UpdatedAt = zero_time\<rparr> in
                  (case on_db (CreateUser (unix_of (ce_now ce)) (ce_fresh ce) new) st of
                     (Inl x, st1) \<Rightarrow> (ApiErr 409 (err_text AP x), st1)
                   | (Inr _, st1) \<Rightarrow> (ApiOk 201 new, audit_as ce u ''user.create'' (usr_ID new) (usr_Role new) st1)))))"

record update_user_req =
  uu_Name :: string
  uu_Role :: role
  uu_Password :: string
  uu_Disabled :: "bool option"

definition handleUpdateUser :: "api_libs \<Rightarrow> call_env \<Rightarrow> string \<Rightarrow> update_user_req option \<Rightarrow> user handler" where
  "handleUpdateUser AP ce i body u st =
     (case on_db (GetUser i) st of
        (Inl x, st1) \<Rightarrow> (ApiErr (notFoundIf x) (err_text AP x), st1)
      | (Inr x, st1) \<Rightarrow>
          (case body of
             None \<Rightarrow> (ApiErr 400 ''invalid body'', st1)
           | Some q \<Rightarrow>
               (let x1 = x\<lparr>usr_Name := (if uu_Name q = [] then usr_Name x else uu_Name q),
                           usr_Role := (if uu_Role q = [] then usr_Role x else uu_Role q),
                           usr_Disabled := (case uu_Disabled q of Some d \<Rightarrow> d | None \<Rightarrow> usr_Disabled x)\<rparr> in
                if uu_Password q \<noteq> [] \<and> length (uu_Password q) < 8
                then (ApiErr 400 ''password must be at least 8 characters'', st1)
                else
                  (case (if uu_Password q = [] then Inr (usr_PasswordHash x) else ax_hash (pl_auth AP) (uu_Password q)) of
                     Inl e \<Rightarrow> (ApiErr 500 e, st1)
                   | Inr hash \<Rightarrow>
                       (let x2 = x1\<lparr>usr_PasswordHash := hash\<rparr> in
                        (case on_db (UpdateUser (unix_of (ce_now ce)) x2) st1 of
                           (Inl e, st2) \<Rightarrow> (ApiErr 500 (err_text AP e), st2)
                         | (Inr _, st2) \<Rightarrow> (ApiOk 200 (x2\<lparr>usr_UpdatedAt := of_unix (unix_of (ce_now ce))\<rparr>), audit_as ce u ''user.update'' (usr_ID x2) [] st2)))))))"

definition handleDeleteUser :: "api_libs \<Rightarrow> call_env \<Rightarrow> string \<Rightarrow> unit handler" where
  "handleDeleteUser AP ce i u st =
     (if usr_ID u = i then (ApiErr 400 ''cannot delete your own account'', st)
      else
        (case on_db (DeleteUser i) st of
           (Inl x, st1) \<Rightarrow> (ApiErr 500 (err_text AP x), st1)
         | (Inr _, st1) \<Rightarrow> (ApiOk 200 (), audit_as ce u ''user.delete'' i [] st1)))"

section \<open>Bans\<close>

definition validIPOrCIDR :: "string \<Rightarrow> bool" where
  "validIPOrCIDR s \<longleftrightarrow> s \<noteq> [] \<and> (ParseIP s \<noteq> None \<or> ParseCIDR s)"

definition handleListBans :: "api_libs \<Rightarrow> call_env \<Rightarrow> ban list handler" where
  "handleListBans AP ce u st =
     (case on_eng (ListBans (unix_of (ce_now ce))) st of
        (Inl x, st1) \<Rightarrow> (ApiErr 500 (err_text AP x), st1)
      | (Inr bs, st1) \<Rightarrow> (ApiOk 200 bs, st1))"

definition handleCreateBan :: "api_libs \<Rightarrow> call_env \<Rightarrow> (string \<times> string \<times> int) option \<Rightarrow> string handler" where
  "handleCreateBan AP ce body u st =
     (case body of
        None \<Rightarrow> (ApiErr 400 ''invalid body'', st)
      | Some (ip0, reason, dur) \<Rightarrow>
          (let ip = trim_space ip0 in
           if \<not> validIPOrCIDR ip then (ApiErr 400 ''ip must be a valid IP address or CIDR'', st)
           else
             (case on_eng (AddManualBan (pl_render AP) (pl_uni AP) (pl_cfg AP) (ce_now ce) ip reason dur) st of
                (Inl x, st1) \<Rightarrow> (ApiErr 500 (err_text AP x), st1)
              | (Inr _, st1) \<Rightarrow> (ApiOk 201 ip, audit_as ce u ''ban.create'' ip reason st1))))"

definition handleDeleteBan :: "api_libs \<Rightarrow> call_env \<Rightarrow> string \<Rightarrow> string handler" where
  "handleDeleteBan AP ce ip u st =
     (case on_eng (RemoveBan (pl_render AP) (pl_uni AP) (pl_cfg AP) (unix_of (ce_now ce)) ip) st of
        (Inl x, st1) \<Rightarrow> (ApiErr 500 (err_text AP x), st1)
      | (Inr _, st1) \<Rightarrow> (ApiOk 200 ip, audit_as ce u ''ban.delete'' ip [] st1))"

definition handleGetBanConfig :: "ban_config handler" where
  "handleGetBanConfig u st = (case on_eng BanConfig st of (c, st1) \<Rightarrow> (ApiOk 200 c, st1))"

definition handleSetBanConfig :: "api_libs \<Rightarrow> call_env \<Rightarrow> ban_config option \<Rightarrow> ban_config handler" where
  "handleSetBanConfig AP ce body u st =
     (case body of
        None \<Rightarrow> (ApiErr 400 ''invalid body'', st)
      | Some q \<Rightarrow>
          (let (c0, st1) = on_eng BanConfig st;
               c = c0\<lparr>bc_Enabled := bc_Enabled q,
                      bc_Threshold := (if bc_Threshold q > 0 then bc_Threshold q else bc_Threshold c0),
                      bc_WindowSec := (if bc_WindowSec q > 0 then bc_WindowSec q else bc_WindowSec c0),
                      bc_DurationSec := (if bc_DurationSec q \<ge> 0 then bc_DurationSec q else bc_DurationSec c0)\<rparr> in
           (case on_eng (SetBanConfig c) st1 of
              (Inl x, st2) \<Rightarrow> (ApiErr 500 (err_text AP x), st2)
            | (Inr _, st2) \<Rightarrow> (ApiOk 200 c, audit_as ce u ''ban.config'' [] (boolStr (bc_Enabled c)) st2))))"

end
