(* ===== verification/Waf.thy ===== *)
theory Waf
  imports Prelude
begin

text \<open>
  The firewall's configuration, \<open>internal/waf/waf.go\<close>: the options with their defaults and the seclang
  document assembled from them. Coraza itself is the argument of \<open>Build\<close>, from a document to its error.
\<close>

definition DefaultParanoiaLevel :: int where "DefaultParanoiaLevel = 1"
definition DefaultAnomalyThreshold :: int where "DefaultAnomalyThreshold = 5"
definition DefaultRequestBodyLimit :: int where "DefaultRequestBodyLimit = 128 * 1024"
definition MaxParanoiaLevel :: int where "MaxParanoiaLevel = 4"
definition overrideRuleID :: int where "overrideRuleID = 90000000"
definition responseBodyInspectionLimit :: int where "responseBodyInspectionLimit = 512 * 1024"

record waf_options =
  wo_ParanoiaLevel :: int
  wo_AnomalyThreshold :: int
  wo_RequestBodyLimitBytes :: int
  wo_Extra :: "string list"

definition normalize_options :: "waf_options \<Rightarrow> waf_options" where
  "normalize_options opt =
     (let p = (if wo_ParanoiaLevel opt < 1 then DefaultParanoiaLevel else wo_ParanoiaLevel opt);
          p' = (if p > MaxParanoiaLevel then MaxParanoiaLevel else p) in
      opt\<lparr>wo_ParanoiaLevel := p',
          wo_AnomalyThreshold := (if wo_AnomalyThreshold opt < 1 then DefaultAnomalyThreshold else wo_AnomalyThreshold opt),
          wo_RequestBodyLimitBytes :=
            (if wo_RequestBodyLimitBytes opt \<le> 0 then DefaultRequestBodyLimit else wo_RequestBodyLimitBytes opt)\<rparr>)"

definition override_rule :: "waf_options \<Rightarrow> string" where
  "override_rule opt =
     ''SecAction '' @ [CHR 0x22] @ ''id:'' @ show_int overrideRuleID @ '',phase:1,nolog,pass,t:none,''
     @ ''setvar:tx.blocking_paranoia_level='' @ show_int (wo_ParanoiaLevel opt)
     @ '',setvar:tx.detection_paranoia_level='' @ show_int (wo_ParanoiaLevel opt)
     @ '',setvar:tx.inbound_anomaly_score_threshold='' @ show_int (wo_AnomalyThreshold opt) @ [CHR 0x22]"

text \<open>The document's lines, for options that are normalised, and the whole document.\<close>

definition directive_lines :: "waf_options \<Rightarrow> string list" where
  "directive_lines opt =
     [''Include @coraza.conf-recommended'', ''SecRuleEngine On'', ''SecRequestBodyAccess On'',
      ''SecRequestBodyLimit '' @ show_int (wo_RequestBodyLimitBytes opt),
      ''SecRequestBodyInMemoryLimit '' @ show_int (wo_RequestBodyLimitBytes opt),
      ''SecRequestBodyLimitAction ProcessPartial'', ''SecResponseBodyAccess On'',
      ''SecResponseBodyLimit '' @ show_int responseBodyInspectionLimit,
      ''SecResponseBodyLimitAction ProcessPartial'', ''Include @crs-setup.conf.example'',
      override_rule opt, ''Include @owasp_crs/*.conf'']
     @ wo_Extra opt"

definition Directives :: "waf_options \<Rightarrow> string" where
  "Directives opt = str_join [CHR 0x0A] (directive_lines (normalize_options opt))"

definition Build :: "(string \<Rightarrow> string option) \<Rightarrow> waf_options \<Rightarrow> string option" where
  "Build coraza opt = map_option (\<lambda>x. ''build coraza waf: '' @ x) (coraza (Directives opt))"

section \<open>What the document says\<close>

lemma normalize_bounds:
  "1 \<le> wo_ParanoiaLevel (normalize_options opt)" "wo_ParanoiaLevel (normalize_options opt) \<le> 4"
  "1 \<le> wo_AnomalyThreshold (normalize_options opt)" "0 < wo_RequestBodyLimitBytes (normalize_options opt)"
  by (auto simp: normalize_options_def DefaultParanoiaLevel_def DefaultAnomalyThreshold_def DefaultRequestBodyLimit_def
    MaxParanoiaLevel_def Let_def)

lemma normalize_idem: "normalize_options (normalize_options opt) = normalize_options opt"
  by (auto simp: normalize_options_def DefaultParanoiaLevel_def DefaultAnomalyThreshold_def DefaultRequestBodyLimit_def
    MaxParanoiaLevel_def Let_def)

lemma Directives_normal: "Directives (normalize_options opt) = Directives opt"
  by (simp add: Directives_def normalize_idem)

end
