(* ===== verification/Features.thy ===== *)
theory Features
  imports Api Waf
begin

text \<open>
  The handlers of \<open>internal/api/handlers_features.go\<close>, \<open>handlers_middlewares.go\<close>, \<open>handlers_certs.go\<close> and
  \<open>handlers_misc.go\<close>. Bodies arrive decoded (None when decoding failed); the secret box, bcrypt, JSON
  encoders, Traefik's own API and URL parsing are fields of \<open>feat_libs\<close>.
\<close>

section \<open>Parameters\<close>

text \<open>The parts of Traefik's API answers that are used.\<close>

record api_router =
  rt_Name :: string
  rt_Rule :: string
  rt_Service :: string
  rt_Status :: string
  rt_Provider :: string

record api_service =
  sv_Name :: string
  sv_Servers :: "json option"

record feat_libs =
  ft_api :: api_libs
  ft_encrypt :: "string \<Rightarrow> string + string"
  ft_decrypt :: "string \<Rightarrow> string + string"
  ft_check_host :: "string \<Rightarrow> ssrf_err option"
  ft_ssrf :: "ssrf_err \<Rightarrow> string"
  ft_directives :: "string \<Rightarrow> string list"
  ft_marshal :: "string list \<Rightarrow> string"
  ft_marshal_map :: "(string, string) gomap \<Rightarrow> string"
  ft_coraza :: "string \<Rightarrow> string option"
  ft_traefik :: "string \<Rightarrow> string + string"
  ft_routers :: "string + api_router list"
  ft_services :: "string + api_service list"
  ft_url :: "string \<Rightarrow> (string \<times> string \<times> string) option"
  ft_pretty :: "string \<Rightarrow> json"
  ft_stamp :: "gotime \<Rightarrow> string"

abbreviation fail_with :: "feat_libs \<Rightarrow> nat \<Rightarrow> eng_err \<Rightarrow> 'b api_reply" where
  "fail_with FL code x \<equiv> ApiErr code (err_text (ft_api FL) x)"

text \<open>A change followed by a reload whose error is dropped, an audit entry and the answer.\<close>

definition reloaded :: "feat_libs \<Rightarrow> call_env \<Rightarrow> user \<Rightarrow> string \<Rightarrow> string \<Rightarrow> string \<Rightarrow> api_state \<Rightarrow> api_state" where
  "reloaded FL ce u action target detail st = audit_as ce u action target detail (snd (reloadAfterChange (ft_api FL) ce st))"

text \<open>A stored setting, empty when it is missing or cannot be read.\<close>

definition setting_or_empty :: "string \<Rightarrow> api_state \<Rightarrow> string \<times> api_state" where
  "setting_or_empty key st = (case on_db (GetSetting key) st of (Inl _, st') \<Rightarrow> ([], st') | (Inr v, st') \<Rightarrow> (v, st'))"

section \<open>Access lists\<close>

record acl_user_req =
  aq_Username :: string
  aq_Password :: string
  aq_Hash :: string

record acl_req =
  aq_Name :: string
  aq_Users :: "acl_user_req list"
  aq_AllowIPs :: "string list"
  aq_SatisfyAny :: bool

fun toUsers :: "(string \<Rightarrow> string + string) \<Rightarrow> acl_user_req list \<Rightarrow> string + access_list_user list" where
  "toUsers bcrypt [] = Inr []"
| "toUsers bcrypt (q # qs) =
     (if aq_Username q = [] then toUsers bcrypt qs
      else
        (case (if aq_Password q \<noteq> [] then bcrypt (aq_Password q) else Inr (aq_Hash q)) of
           Inl x \<Rightarrow> Inl x
         | Inr hash \<Rightarrow>
             (if hash = [] then toUsers bcrypt qs
              else (case toUsers bcrypt qs of
                      Inl x \<Rightarrow> Inl x
                    | Inr us \<Rightarrow> Inr (\<lparr>alu_Username = aq_Username q, alu_Hash = hash\<rparr> # us)))))"

definition handleListAccessLists :: "feat_libs \<Rightarrow> access_list list handler" where
  "handleListAccessLists FL u st =
     (case on_db ListAccessLists st of
        (Inl x, st1) \<Rightarrow> (fail_with FL 500 x, st1)
      | (Inr as, st1) \<Rightarrow> (ApiOk 200 as, st1))"

definition invalid_ips :: "string list \<Rightarrow> string" where
  "invalid_ips bad = ''invalid IP/CIDR in allow list: '' @ str_join '', '' bad"

definition handleCreateAccessList :: "feat_libs \<Rightarrow> call_env \<Rightarrow> acl_req option \<Rightarrow> access_list handler" where
  "handleCreateAccessList FL ce body u st =
     (case body of
        None \<Rightarrow> (ApiErr 400 ''invalid body'', st)
      | Some q \<Rightarrow>
          if aq_Name q = [] then (ApiErr 400 ''name is required'', st)
          else
            (case toUsers (ax_hash (pl_auth (ft_api FL))) (aq_Users q) of
               Inl x \<Rightarrow> (ApiErr 500 x, st)
             | Inr us \<Rightarrow>
                 (case ParseAllowIPs (aq_AllowIPs q) of (allow, bad) \<Rightarrow>
                    if bad \<noteq> [] then (ApiErr 400 (invalid_ips bad), st)
                    else
                      (let now = unix_of (ce_now ce);
                           a = \<lparr>al_ID = [], al_Name = aq_Name q, al_Users = us, al_AllowIPs = allow,
                                al_SatisfyAny = aq_SatisfyAny q, al_CreatedAt = zero_time, al_UpdatedAt = zero_time\<rparr>;
                           a' = a\<lparr>al_ID := ce_fresh ce, al_CreatedAt := of_unix now, al_UpdatedAt := of_unix now\<rparr> in
                       case on_db (CreateAccessList now (ce_fresh ce) a) st of
                         (Inl x, st1) \<Rightarrow> (fail_with FL 409 x, st1)
                       | (Inr _, st1) \<Rightarrow> (ApiOk 201 a', reloaded FL ce u ''accesslist.create'' (al_ID a') (al_Name a') st1)))))"

definition handleUpdateAccessList :: "feat_libs \<Rightarrow> call_env \<Rightarrow> string \<Rightarrow> acl_req option \<Rightarrow> access_list handler" where
  "handleUpdateAccessList FL ce i body u st =
     (case on_db (GetAccessList i) st of
        (Inl x, st1) \<Rightarrow> (fail_with FL (notFoundIf x) x, st1)
      | (Inr existing, st1) \<Rightarrow>
          (case body of
             None \<Rightarrow> (ApiErr 400 ''invalid body'', st1)
           | Some q \<Rightarrow>
               (case toUsers (ax_hash (pl_auth (ft_api FL))) (aq_Users q) of
                  Inl x \<Rightarrow> (ApiErr 500 x, st1)
                | Inr us \<Rightarrow>
                    (case ParseAllowIPs (aq_AllowIPs q) of (allow, bad) \<Rightarrow>
                       if bad \<noteq> [] then (ApiErr 400 (invalid_ips bad), st1)
                       else
                         (let a = existing\<lparr>al_Name := aq_Name q, al_Users := us, al_AllowIPs := allow,
                                           al_SatisfyAny := aq_SatisfyAny q\<rparr> in
                          case on_db (UpdateAccessList (unix_of (ce_now ce)) a) st1 of
                            (Inl x, st2) \<Rightarrow> (fail_with FL 500 x, st2)
                          | (Inr _, st2) \<Rightarrow>
                                (ApiOk 200 (a\<lparr>al_UpdatedAt := of_unix (unix_of (ce_now ce))\<rparr>),
                                 reloaded FL ce u ''accesslist.update'' i [] st2))))))"

definition handleDeleteAccessList :: "feat_libs \<Rightarrow> call_env \<Rightarrow> string \<Rightarrow> unit handler" where
  "handleDeleteAccessList FL ce i u st =
     (case on_db (DeleteAccessList i) st of
        (Inl x, st1) \<Rightarrow> (fail_with FL 500 x, st1)
      | (Inr _, st1) \<Rightarrow> (ApiOk 200 (), reloaded FL ce u ''accesslist.delete'' i [] st1))"

definition handleHtpasswd :: "feat_libs \<Rightarrow> (string \<times> string) option \<Rightarrow> string handler" where
  "handleHtpasswd FL body u st =
     (case body of
        None \<Rightarrow> (ApiErr 400 ''username and password are required'', st)
      | Some (name, pw) \<Rightarrow>
          if name = [] \<or> pw = [] then (ApiErr 400 ''username and password are required'', st)
          else (case ax_hash (pl_auth (ft_api FL)) pw of
                  Inl x \<Rightarrow> (ApiErr 500 x, st)
                | Inr h \<Rightarrow> (ApiOk 200 (name @ '':'' @ h), st)))"

section \<open>Default site and raw configuration\<close>

definition setting_or :: "string \<Rightarrow> string \<Rightarrow> api_state \<Rightarrow> string \<times> api_state" where
  "setting_or key dflt st =
     (case on_db (GetSetting key) st of
        (Inl _, st') \<Rightarrow> (dflt, st')
      | (Inr v, st') \<Rightarrow> (if v = [] then dflt else v, st'))"

definition handleGetDefaultSite :: "(string \<times> string) list handler" where
  "handleGetDefaultSite u st =
     (let (mode, st1) = setting_or ''defaultsite.mode'' ''404'' st;
          (to, st2) = setting_or ''defaultsite.redirectTo'' [] st1;
          (html, st3) = setting_or ''defaultsite.html'' [] st2;
          (code, st4) = setting_or ''defaultsite.statusCode'' [] st3 in
      (ApiOk 200 [(''mode'', mode), (''redirectTo'', to), (''html'', html), (''statusCode'', code)], st4))"

text \<open>Writes that stop at the first error.\<close>

fun put_settings :: "(string \<times> string) list \<Rightarrow> api_state \<Rightarrow> eng_err option \<times> api_state" where
  "put_settings [] st = (None, st)"
| "put_settings ((k, v) # kvs) st =
     (case on_db (SetSetting k v) st of
        (Inl x, st1) \<Rightarrow> (Some x, st1)
      | (Inr _, st1) \<Rightarrow> put_settings kvs st1)"

definition site_keys :: "(string, string) gomap \<Rightarrow> (string \<times> string) list" where
  "site_keys m = List.map_filter (\<lambda>k. map_option (\<lambda>v. (''defaultsite.'' @ k, v)) (mget m k))
     [''mode'', ''redirectTo'', ''html'', ''statusCode'']"

definition handleSetDefaultSite :: "feat_libs \<Rightarrow> call_env \<Rightarrow> (string, string) gomap option \<Rightarrow> unit handler" where
  "handleSetDefaultSite FL ce body u st =
     (case body of
        None \<Rightarrow> (ApiErr 400 ''invalid body'', st)
      | Some m \<Rightarrow>
          (case put_settings (site_keys m) st of
             (Some x, st1) \<Rightarrow> (fail_with FL 500 x, st1)
           | (None, st1) \<Rightarrow> (ApiOk 200 (), reloaded FL ce u ''defaultsite.update'' [] (mget_or [] m ''mode'') st1)))"

definition handleGetRawConfig :: "string handler" where
  "handleGetRawConfig u st = (case setting_or_empty ''raw.dynamicYaml'' st of (v, st') \<Rightarrow> (ApiOk 200 v, st'))"

definition handleSetRawConfig :: "feat_libs \<Rightarrow> call_env \<Rightarrow> string option \<Rightarrow> unit handler" where
  "handleSetRawConfig FL ce body u st =
     (case body of
        None \<Rightarrow> (ApiErr 400 ''invalid body'', st)
      | Some yaml \<Rightarrow>
          (case ParseRawConfig (pl_render (ft_api FL)) yaml of
             Inl x \<Rightarrow> (ApiErr 422 x, st)
           | Inr frag \<Rightarrow>
               (case CheckRawServiceTargets (pl_check (ft_api FL)) frag of
                  Some x \<Rightarrow> (ApiErr 422 (pl_checkText (ft_api FL) x), st)
                | None \<Rightarrow>
                    (case on_db (SetSetting ''raw.dynamicYaml'' yaml) st of
                       (Inl x, st1) \<Rightarrow> (fail_with FL 500 x, st1)
                     | (Inr _, st1) \<Rightarrow>
                         (case reloadAfterChange (ft_api FL) ce st1 of
                            (Some x, st2) \<Rightarrow> (fail_with FL 422 x, st2)
                          | (None, st2) \<Rightarrow> (ApiOk 200 (), audit_as ce u ''rawconfig.update'' [] [] st2))))))"

section \<open>Schedules\<close>

definition handleListSchedules :: "feat_libs \<Rightarrow> string \<Rightarrow> schedule list handler" where
  "handleListSchedules FL i u st =
     (case on_db (ListSchedules i) st of
        (Inl x, st1) \<Rightarrow> (fail_with FL 500 x, st1)
      | (Inr scs, st1) \<Rightarrow> (ApiOk 200 scs, st1))"

definition handleCreateSchedule :: "feat_libs \<Rightarrow> call_env \<Rightarrow> string \<Rightarrow> (string \<times> string) option \<Rightarrow> schedule handler" where
  "handleCreateSchedule FL ce i body u st =
     (case body of
        None \<Rightarrow> (ApiErr 400 ''invalid body'', st)
      | Some (action, cron) \<Rightarrow>
          if action \<noteq> ''enable'' \<and> action \<noteq> ''disable'' then (ApiErr 400 ''action must be enable or disable'', st)
          else if length (str_fields cron) \<noteq> 5
          then (ApiErr 400 ''cron must have 5 fields (min hour dom month dow)'', st)
          else
            (let now = unix_of (ce_now ce);
                 sc = \<lparr>sc_ID = [], sc_HostID = i, sc_Action = action, sc_Cron = cron, sc_CreatedAt = zero_time\<rparr> in
             case on_db (CreateSchedule now (ce_fresh ce) sc) st of
               (Inl x, st1) \<Rightarrow> (fail_with FL 500 x, st1)
             | (Inr _, st1) \<Rightarrow>
                 (ApiOk 201 (sc\<lparr>sc_ID := ce_fresh ce, sc_CreatedAt := of_unix now\<rparr>),
                  audit_as ce u ''schedule.create'' i (action @ '' @ '' @ cron) st1)))"

definition handleDeleteSchedule :: "feat_libs \<Rightarrow> string \<Rightarrow> unit handler" where
  "handleDeleteSchedule FL i u st =
     (case on_db (DeleteSchedule i) st of
        (Inl x, st1) \<Rightarrow> (fail_with FL 500 x, st1)
      | (Inr _, st1) \<Rightarrow> (ApiOk 200 (), st1))"

section \<open>Firewall and cache settings\<close>

text \<open>What the page shows: enabled, paranoia, threshold, directives, cache.\<close>

record plugins_view =
  pv_WAFEnabled :: bool
  pv_WAFParanoia :: int
  pv_WAFAnomaly :: int
  pv_WAFDirectives :: "string list"
  pv_CacheEnabled :: bool
  pv_CacheBackend :: string

definition intSetting :: "string \<Rightarrow> int \<Rightarrow> int" where
  "intSetting v dflt = (case atoi v of (n, ok) \<Rightarrow> if ok \<and> n > 0 then n else dflt)"

definition handleGetPlugins :: "feat_libs \<Rightarrow> string \<Rightarrow> plugins_view handler" where
  "handleGetPlugins FL backend u st =
     (let (d, st1) = setting_or_empty ''plugins.waf.directives'' st;
          (on, st2) = setting_or_empty ''plugins.waf.enabled'' st1;
          (p, st3) = setting_or_empty ''plugins.waf.paranoia'' st2;
          (a, st4) = setting_or_empty ''plugins.waf.anomaly'' st3;
          (c, st5) = setting_or_empty ''plugins.cache.enabled'' st4 in
      (ApiOk 200 \<lparr>
         pv_WAFEnabled = (if on \<noteq> [] then truthy on else ec_WAFDefaultEnabled (pl_cfg (ft_api FL))),
         pv_WAFParanoia = intSetting p DefaultParanoiaLevel, pv_WAFAnomaly = intSetting a DefaultAnomalyThreshold,
         pv_WAFDirectives = (if d \<noteq> [] then ft_directives FL d else []),
         pv_CacheEnabled = (c = ''true''), pv_CacheBackend = backend\<rparr>, st5))"

text \<open>Absent directives in the request are None and leave the stored ones.\<close>

record plugins_req =
  pq_WAFEnabled :: bool
  pq_WAFParanoia :: int
  pq_WAFAnomaly :: int
  pq_WAFDirectives :: "string list option"
  pq_CacheEnabled :: bool

definition waf_build :: "feat_libs \<Rightarrow> int \<Rightarrow> int \<Rightarrow> string list \<Rightarrow> string option" where
  "waf_build FL p a extra = Build (ft_coraza FL)
     \<lparr>wo_ParanoiaLevel = p, wo_AnomalyThreshold = a, wo_RequestBodyLimitBytes = 0, wo_Extra = extra\<rparr>"

definition plugin_settings :: "feat_libs \<Rightarrow> plugins_req \<Rightarrow> (string \<times> string) list" where
  "plugin_settings FL q =
     [(''plugins.waf.enabled'', boolStr (pq_WAFEnabled q))]
     @ (if pq_WAFParanoia q > 0 then [(''plugins.waf.paranoia'', show_int (pq_WAFParanoia q))] else [])
     @ (if pq_WAFAnomaly q > 0 then [(''plugins.waf.anomaly'', show_int (pq_WAFAnomaly q))] else [])
     @ [(''plugins.cache.enabled'', boolStr (pq_CacheEnabled q))]
     @ (case pq_WAFDirectives q of Some ds \<Rightarrow> [(''plugins.waf.directives'', ft_marshal FL ds)] | None \<Rightarrow> [])"

text \<open>Writes whose errors are dropped.\<close>

definition try_settings :: "(string \<times> string) list \<Rightarrow> api_state \<Rightarrow> api_state" where
  "try_settings kvs st = fold (\<lambda>(k, v) s. snd (on_db (SetSetting k v) s)) kvs st"

definition handleSetPlugins :: "feat_libs \<Rightarrow> call_env \<Rightarrow> plugins_req option \<Rightarrow> unit handler" where
  "handleSetPlugins FL ce body u st =
     (case body of
        None \<Rightarrow> (ApiErr 400 ''invalid body'', st)
      | Some q \<Rightarrow>
          (case waf_build FL (pq_WAFParanoia q) (pq_WAFAnomaly q)
                  (case pq_WAFDirectives q of Some ds \<Rightarrow> ds | None \<Rightarrow> []) of
             Some x \<Rightarrow> (ApiErr 422 (''WAF rules invalid: '' @ x), st)
           | None \<Rightarrow>
               (case on_eng (RebuildWAF (ft_directives FL) (waf_build FL) DefaultParanoiaLevel DefaultAnomalyThreshold
                               (pl_cfg (ft_api FL))) (try_settings (plugin_settings FL q) st) of
                  (Some x, st1) \<Rightarrow> (ApiErr 500 (''saved but WAF rebuild failed: '' @ x), st1)
                | (None, st1) \<Rightarrow> (ApiOk 200 (), reloaded FL ce u ''plugins.update'' [] [] st1))))"

definition handleSecurityMetrics :: "feat_libs \<Rightarrow> 'm \<Rightarrow> (bool \<times> 'm) handler" where
  "handleSecurityMetrics FL metrics u st =
     (case on_eng (wafEnabled (pl_cfg (ft_api FL))) st of (on, st1) \<Rightarrow> (ApiOk 200 (on, metrics), st1))"

section \<open>Snapshots\<close>

record snapshot_row =
  row_Version :: int
  row_Hash :: string
  row_CreatedAt :: string
  row_Current :: bool

definition handleListSnapshots :: "feat_libs \<Rightarrow> snapshot_row list handler" where
  "handleListSnapshots FL u st =
     (case on_db (ListSnapshots 50) st of
        (Inl x, st1) \<Rightarrow> (fail_with FL 500 x, st1)
      | (Inr snaps, st1) \<Rightarrow>
          (ApiOk 200 (map (\<lambda>s. \<lparr>row_Version = sn_Version s, row_Hash = sn_Hash s,
             row_CreatedAt = ft_stamp FL (sn_CreatedAt s), row_Current = (sn_Version s = en_version (as_eng st1))\<rparr>) snaps), st1))"

definition handleGetSnapshot :: "feat_libs \<Rightarrow> string \<Rightarrow> (int \<times> string \<times> json) handler" where
  "handleGetSnapshot FL version u st =
     (case atoi version of
        (_, False) \<Rightarrow> (ApiErr 400 ''invalid version'', st)
      | (v, True) \<Rightarrow>
          (case on_db (GetSnapshot v) st of
             (Inl x, st1) \<Rightarrow> (fail_with FL (notFoundIf x) x, st1)
           | (Inr s, st1) \<Rightarrow> (ApiOk 200 (sn_Version s, sn_Hash s, ft_pretty FL (sn_JSON s)), st1)))"

definition handleRollback :: "feat_libs \<Rightarrow> call_env \<Rightarrow> string \<Rightarrow> int handler" where
  "handleRollback FL ce version u st =
     (case atoi version of
        (_, False) \<Rightarrow> (ApiErr 400 ''invalid version'', st)
      | (v, True) \<Rightarrow>
          (case on_eng (Rollback (unix_of (ce_now ce)) v) st of
             (Inl x, st1) \<Rightarrow> (fail_with FL (notFoundIf x) x, st1)
           | (Inr _, st1) \<Rightarrow>
               (let st2 = audit_as ce u ''config.rollback'' (show_int v) [] st1 in (ApiOk 200 (en_version (as_eng st2)), st2))))"

definition handleConfigPreview :: "feat_libs \<Rightarrow> call_env \<Rightarrow> (int \<times> string \<times> json) handler" where
  "handleConfigPreview FL ce u st =
     (case on_eng (Preview (pl_render (ft_api FL)) (pl_uni (ft_api FL)) (pl_cfg (ft_api FL)) (unix_of (ce_now ce))) st of
        (Inl x, st1) \<Rightarrow> (fail_with FL 422 x, st1)
      | (Inr res, st1) \<Rightarrow> (ApiOk 200 (en_version (as_eng st1), rr_Hash res, ft_pretty FL (rr_JSON res)), st1))"

section \<open>Traefik's own API\<close>

definition proxyTraefik :: "feat_libs \<Rightarrow> string \<Rightarrow> string handler" where
  "proxyTraefik FL path u st =
     (case ft_traefik FL path of
        Inl x \<Rightarrow> (ApiErr 503 (''Traefik API unavailable: '' @ x), st)
      | Inr body \<Rightarrow> (ApiOk 200 body, st))"

definition handleTraefikOverview :: "feat_libs \<Rightarrow> string handler" where
  "handleTraefikOverview FL = proxyTraefik FL ''/api/overview''"

definition handleTraefikRouters :: "feat_libs \<Rightarrow> string handler" where
  "handleTraefikRouters FL = proxyTraefik FL ''/api/http/routers''"

definition handleTraefikServices :: "feat_libs \<Rightarrow> string handler" where
  "handleTraefikServices FL = proxyTraefik FL ''/api/http/services''"

section \<open>Docker import\<close>

definition host_open :: string where
  "host_open = ''Host('' @ [bq]"

lemma str_index_bound: "str_index s sub = Some i \<Longrightarrow> i \<le> length s"
  by (induction s sub arbitrary: i rule: str_index.induct) (auto split: if_splits)

text \<open>Each round takes the text between \<open>Host(`\<close> and the next backtick.\<close>

function domainsFromRule :: "string \<Rightarrow> string list" where
  "domainsFromRule rule =
     (case str_index rule host_open of
        None \<Rightarrow> []
      | Some i \<Rightarrow>
          (let rest = drop (i + length host_open) rule in
           case index_byte rest bq of
             None \<Rightarrow> []
           | Some j \<Rightarrow> take j rest # domainsFromRule (drop (Suc j) rest)))"
  by pat_completeness auto
termination
proof (relation "measure length", goal_cases)
  case (2 rule i rest j)
  have "0 < length rule" using 2(1) by (cases rule) (auto simp: host_open_def)
  then show ?case using 2(2) by (simp add: host_open_def)
qed simp

declare domainsFromRule.simps [simp del]

text \<open>The first server of a service with a string URL.\<close>

definition firstServerURL :: "api_service \<Rightarrow> string" where
  "firstServerURL sv =
     (case sv_Servers sv of
        Some (JArr xs) \<Rightarrow>
          (case List.map_filter (\<lambda>x. case x of JObj m \<Rightarrow> (case map_of m ''url'' of Some (JStr s) \<Rightarrow> Some s | _ \<Rightarrow> None) | _ \<Rightarrow> None) xs of
             [] \<Rightarrow> [] | s # _ \<Rightarrow> s)
      | _ \<Rightarrow> [])"

definition parseUpstream :: "feat_libs \<Rightarrow> string \<Rightarrow> upstream option" where
  "parseUpstream FL raw =
     (if raw = [] then None
      else
        (case ft_url FL raw of
           None \<Rightarrow> None
         | Some (scheme, hostname, port) \<Rightarrow>
             (let p = (if port \<noteq> [] then (case atoi port of (n, _) \<Rightarrow> n) else if scheme = ''https'' then 443 else 80) in
              Some \<lparr>u_Scheme = scheme, u_Host = hostname, u_Port = p, u_Weight = 0\<rparr>)))"

definition svc_url :: "feat_libs \<Rightarrow> (string, string) gomap" where
  "svc_url FL = fold (\<lambda>sv. mput (sv_Name sv) (firstServerURL sv)) (case ft_services FL of Inr ss \<Rightarrow> ss | Inl _ \<Rightarrow> []) []"

record discovered =
  dr_Name :: string
  dr_Rule :: string
  dr_Domains :: "string list"
  dr_Service :: string
  dr_Upstream :: string
  dr_Status :: string

definition handleDockerDiscover :: "feat_libs \<Rightarrow> discovered list handler" where
  "handleDockerDiscover FL u st =
     (case ft_routers FL of
        Inl x \<Rightarrow> (ApiErr 503 (''Traefik API unavailable: '' @ x), st)
      | Inr rts \<Rightarrow>
          (ApiOk 200 (map (\<lambda>rt. \<lparr>dr_Name = rt_Name rt, dr_Rule = rt_Rule rt, dr_Domains = domainsFromRule (rt_Rule rt),
              dr_Service = rt_Service rt, dr_Upstream = mget_or [] (svc_url FL) (rt_Service rt), dr_Status = rt_Status rt\<rparr>)
            (filter (\<lambda>rt. rt_Provider rt = ''docker'') rts)), st))"

text \<open>The host made from a router, None when it has no domain or no usable upstream.\<close>

definition imported_host :: "feat_libs \<Rightarrow> api_router \<Rightarrow> host option" where
  "imported_host FL rt =
     (let ds = domainsFromRule (rt_Rule rt) in
      case parseUpstream FL (mget_or [] (svc_url FL) (rt_Service rt)) of
        None \<Rightarrow> None
      | Some up \<Rightarrow>
          if ds = [] then None
          else Some (zero_host\<lparr>h_Kind := HostKindProxy, h_Enabled := False, h_Domains := ds, h_Upstreams := [up],
                               h_TLS := TLSNone, h_Notes := ''Imported from Docker router '' @ rt_Name rt\<rparr>))"

text \<open>One host per wanted router, each with a fresh identifier; failures are skipped and not counted.\<close>

fun import_routers :: "feat_libs \<Rightarrow> int \<Rightarrow> (nat \<Rightarrow> string) \<Rightarrow> string list \<Rightarrow> nat \<Rightarrow> api_router list \<Rightarrow> api_state \<Rightarrow> nat \<times> api_state" where
  "import_routers FL now fresh want n [] st = (n, st)"
| "import_routers FL now fresh want n (rt # rts) st =
     (if rt_Provider rt \<noteq> ''docker'' \<or> rt_Name rt \<notin> set want then import_routers FL now fresh want n rts st
      else
        (case imported_host FL rt of
           None \<Rightarrow> import_routers FL now fresh want n rts st
         | Some h \<Rightarrow>
             (case on_db (CreateHost now (fresh (length rts)) h) st of
                (Inl _, st1) \<Rightarrow> import_routers FL now fresh want n rts st1
              | (Inr _, st1) \<Rightarrow> import_routers FL now fresh want (Suc n) rts st1)))"

definition handleDockerImport :: "feat_libs \<Rightarrow> call_env \<Rightarrow> (nat \<Rightarrow> string) \<Rightarrow> string list option \<Rightarrow> nat handler" where
  "handleDockerImport FL ce fresh body u st =
     (case body of
        None \<Rightarrow> (ApiErr 400 ''invalid body'', st)
      | Some names \<Rightarrow>
          (case ft_routers FL of
             Inl x \<Rightarrow> (ApiErr 503 x, st)
           | Inr rts \<Rightarrow>
               (case import_routers FL (unix_of (ce_now ce)) fresh names 0 rts st of
                  (n, st1) \<Rightarrow> (ApiOk 200 n, reloaded FL ce u ''docker.import'' [] (show_nat n) st1))))"

end
