(* ===== verification/Notify.thy ===== *)
theory Notify
  imports Engine
begin

text \<open>
  Alerts: the dispatcher of \<open>internal/notify/notify.go\<close> with \<open>notifyConfig\<close> of \<open>engine.go\<close>. What leaves the
  process is the list of events of a delivery; the network, the webhook's answer and the SMTP server's
  answer to each command are fields of \<open>notify_libs\<close>.
\<close>

section \<open>Configuration\<close>

record notify_config =
  nc_WebhookURL :: string
  nc_EmailTo :: string
  nc_SMTPHost :: string
  nc_SMTPPort :: string
  nc_SMTPUser :: string
  nc_SMTPPass :: string
  nc_SMTPFrom :: string

definition notify_enabled :: "notify_config \<Rightarrow> bool" where
  "notify_enabled c \<longleftrightarrow> nc_WebhookURL c \<noteq> [] \<or> nc_EmailTo c \<noteq> [] \<and> nc_SMTPHost c \<noteq> []"

definition email_on :: "notify_config \<Rightarrow> bool" where
  "email_on c \<longleftrightarrow> nc_EmailTo c \<noteq> [] \<and> nc_SMTPHost c \<noteq> []"

definition setting_text :: "string \<Rightarrow> engine \<Rightarrow> string \<times> engine" where
  "setting_text key e = (case run_db (GetSetting key) e of (Inl _, e') \<Rightarrow> ([], e') | (Inr v, e') \<Rightarrow> (v, e'))"

text \<open>The password is decrypted; one that cannot be is left out and the mail goes without authentication.\<close>

definition notifyConfig :: "(string \<Rightarrow> string + string) \<Rightarrow> engine \<Rightarrow> notify_config \<times> engine" where
  "notifyConfig decrypt e =
     (let (enc, e1) = setting_text ''notify.smtpPassEnc'' e;
          pass = (if enc = [] then [] else case decrypt enc of Inl _ \<Rightarrow> [] | Inr p \<Rightarrow> p);
          (url, e2) = setting_text ''notify.webhookUrl'' e1;
          (to, e3) = setting_text ''notify.email'' e2;
          (host, e4) = setting_text ''notify.smtpHost'' e3;
          (port, e5) = setting_text ''notify.smtpPort'' e4;
          (usr, e6) = setting_text ''notify.smtpUser'' e5;
          (from, e7) = setting_text ''notify.smtpFrom'' e6 in
      (\<lparr>nc_WebhookURL = url, nc_EmailTo = to, nc_SMTPHost = host, nc_SMTPPort = port, nc_SMTPUser = usr,
        nc_SMTPPass = pass, nc_SMTPFrom = from\<rparr>, e7))"

section \<open>Sending\<close>

datatype smtp_cmd =
  Hello string | StartTLS string | AuthPlain string string | MailFrom string | RcptTo string | MailData string | Quit

datatype event = Connect string | Post string string string string | Smtp smtp_cmd

text \<open>
  \<open>nl_addrs\<close> resolves the host and port of a target to the addresses the dialer tries in turn, \<open>nl_connects\<close>
  tells which accept; \<open>nl_target\<close> is the host and port of a URL, None when no request can be made of it.
\<close>

record notify_libs =
  nl_target :: "string \<Rightarrow> string option"
  nl_addrs :: "string \<Rightarrow> string list"
  nl_connects :: "string \<Rightarrow> bool"
  nl_webhook :: "string \<Rightarrow> string + int"
  nl_starttls :: bool
  nl_smtp :: "smtp_cmd \<Rightarrow> string option"

text \<open>The guarded dialer: \<open>DialControl\<close> sees every address before a connection to it is tried.\<close>

fun guarded_dial :: "(string \<Rightarrow> bool) \<Rightarrow> string list \<Rightarrow> event list \<times> bool" where
  "guarded_dial connects [] = ([], False)"
| "guarded_dial connects (a # as) =
     (if DialControl a \<noteq> None then guarded_dial connects as
      else if connects a then ([Connect a], True)
      else (case guarded_dial connects as of (es, r) \<Rightarrow> (Connect a # es, r)))"

definition sendWebhook :: "notify_libs \<Rightarrow> notify_config \<Rightarrow> string \<Rightarrow> string \<Rightarrow> string \<Rightarrow> event list \<times> string option" where
  "sendWebhook NL c level subject body =
     (case nl_target NL (nc_WebhookURL c) of
        None \<Rightarrow> ([], Some ''bad request'')
      | Some t \<Rightarrow>
          (case guarded_dial (nl_connects NL) (nl_addrs NL t) of
             (es, False) \<Rightarrow> (es, Some ''dial'')
           | (es, True) \<Rightarrow>
               (es @ [Post (nc_WebhookURL c) level subject body],
                (case nl_webhook NL (nc_WebhookURL c) of
                   Inl x \<Rightarrow> Some x
                 | Inr status \<Rightarrow> if status \<ge> 300 then Some (''webhook returned '' @ show_int status) else None))))"

definition buildMessage :: "string \<Rightarrow> string \<Rightarrow> string \<Rightarrow> string \<Rightarrow> string" where
  "buildMessage from to subject body =
     (let crlf = [CHR 0x0D, CHR 0x0A] in
      ''From: '' @ from @ crlf @ ''To: '' @ to @ crlf @ ''Subject: '' @ subject @ crlf
      @ ''MIME-Version: 1.0'' @ crlf @ ''Content-Type: text/plain; charset=utf-8'' @ crlf @ crlf @ body)"

definition recipients :: "string \<Rightarrow> string list" where
  "recipients to = filter (\<lambda>r. r \<noteq> []) (map trim_space (split_on (CHR '','') to))"

definition smtp_session :: "notify_libs \<Rightarrow> notify_config \<Rightarrow> string \<Rightarrow> string \<Rightarrow> smtp_cmd list" where
  "smtp_session NL c subject body =
     (let from = (if nc_SMTPFrom c = [] then nc_SMTPUser c else nc_SMTPFrom c) in
      [Hello (nc_SMTPHost c)]
      @ (if nl_starttls NL then [StartTLS (nc_SMTPHost c)] else [])
      @ (if nc_SMTPUser c \<noteq> [] then [AuthPlain (nc_SMTPUser c) (nc_SMTPPass c)] else [])
      @ [MailFrom from] @ map RcptTo (recipients (nc_EmailTo c))
      @ [MailData (buildMessage from (nc_EmailTo c) subject body), Quit])"

text \<open>The commands in turn, up to the first the server refuses.\<close>

fun run_smtp :: "(smtp_cmd \<Rightarrow> string option) \<Rightarrow> smtp_cmd list \<Rightarrow> event list \<times> string option" where
  "run_smtp srv [] = ([], None)"
| "run_smtp srv (c # cs) =
     (case srv c of
        Some x \<Rightarrow> ([Smtp c], Some x)
      | None \<Rightarrow> (case run_smtp srv cs of (es, r) \<Rightarrow> (Smtp c # es, r)))"

definition sendEmail :: "notify_libs \<Rightarrow> notify_config \<Rightarrow> string \<Rightarrow> string \<Rightarrow> event list \<times> string option" where
  "sendEmail NL c subject body =
     (let port = (if nc_SMTPPort c = [] then ''587'' else nc_SMTPPort c) in
      case guarded_dial (nl_connects NL) (nl_addrs NL (nc_SMTPHost c @ '':'' @ port)) of
        (es, False) \<Rightarrow> (es, Some ''dial'')
      | (es, True) \<Rightarrow>
          (case run_smtp (nl_smtp NL) (smtp_session NL c subject body) of (es', r) \<Rightarrow> (es @ es', r)))"

text \<open>Best effort: a failing channel does not keep the other from its turn.\<close>

definition notify :: "notify_libs \<Rightarrow> notify_config \<Rightarrow> string \<Rightarrow> string \<Rightarrow> string \<Rightarrow> event list" where
  "notify NL c level subject body =
     (if \<not> notify_enabled c then []
      else
        (if nc_WebhookURL c \<noteq> [] then fst (sendWebhook NL c level subject body) else [])
        @ (if email_on c then fst (sendEmail NL c subject body) else []))"

definition test_subject :: string where "test_subject = ''xgress test notification''"
definition test_body :: string where "test_body = ''This is a test from xgress.''"

definition test_notify :: "notify_libs \<Rightarrow> notify_config \<Rightarrow> event list \<times> string option" where
  "test_notify NL c =
     (if \<not> notify_enabled c then ([], Some ''no notification channel configured'')
      else
        (case (if nc_WebhookURL c \<noteq> [] then sendWebhook NL c ''info'' test_subject test_body else ([], None)) of
           (es, Some x) \<Rightarrow> (es, Some (''webhook: '' @ x))
         | (es, None) \<Rightarrow>
             (case (if email_on c then sendEmail NL c test_subject test_body else ([], None)) of
                (es', Some x) \<Rightarrow> (es @ es', Some (''email: '' @ x))
              | (es', None) \<Rightarrow> (es @ es', None))))"

section \<open>Nothing is dialled past the guard\<close>

lemma guarded_dial_only: "Connect a \<in> set (fst (guarded_dial connects as)) \<Longrightarrow> DialControl a = None"
  by (induction as) (auto split: if_splits prod.splits)

lemma guarded_dial_events: "e \<in> set (fst (guarded_dial connects as)) \<Longrightarrow> \<exists>a. e = Connect a"
  by (induction as) (auto split: if_splits prod.splits)

lemma run_smtp_events: "e \<in> set (fst (run_smtp srv cs)) \<Longrightarrow> \<exists>c \<in> set cs. e = Smtp c"
  by (induction cs) (auto split: option.splits prod.splits)

lemma run_smtp_done: "snd (run_smtp srv cs) = None \<Longrightarrow> fst (run_smtp srv cs) = map Smtp cs"
  by (induction cs) (auto split: option.splits prod.splits)

lemma dialled: "guarded_dial connects as = (es, r) \<Longrightarrow> Connect a \<in> set es \<Longrightarrow> DialControl a = None"
  using guarded_dial_only [of a connects as] by simp

lemma no_connect_in_session: "run_smtp srv cs = (es, r) \<Longrightarrow> Connect a \<notin> set es"
  using run_smtp_events [of "Connect a" srv cs] by auto

lemma sendWebhook_guarded: "Connect a \<in> set (fst (sendWebhook NL c level subject body)) \<Longrightarrow> DialControl a = None"
  by (auto simp: sendWebhook_def split: option.splits prod.splits bool.splits dest: dialled)

lemma sendEmail_guarded: "Connect a \<in> set (fst (sendEmail NL c subject body)) \<Longrightarrow> DialControl a = None"
  by (auto simp: sendEmail_def Let_def no_connect_in_session split: prod.splits bool.splits dest: dialled)

lemma sendEmail_done:
  assumes "snd (sendEmail NL c subject body) = None" "cmd \<in> set (smtp_session NL c subject body)"
  shows "Smtp cmd \<in> set (fst (sendEmail NL c subject body))"
  using assms run_smtp_done [of "nl_smtp NL" "smtp_session NL c subject body"]
  by (auto simp: sendEmail_def Let_def split: prod.splits bool.splits)

lemma session_recipient: "r \<in> set (recipients (nc_EmailTo c)) \<Longrightarrow> RcptTo r \<in> set (smtp_session NL c subject body)"
  by (simp add: smtp_session_def Let_def)

lemma test_guarded: "Connect a \<in> set (fst (test_notify NL c)) \<Longrightarrow> DialControl a = None"
  using sendWebhook_guarded [of a NL c "''info''" test_subject test_body] sendEmail_guarded [of a NL c test_subject test_body]
  by (auto simp: test_notify_def split: prod.splits option.splits if_splits)

lemma notify_guarded: "Connect a \<in> set (notify NL c level subject body) \<Longrightarrow> DialControl a = None"
  by (auto simp: notify_def split: if_splits dest: sendWebhook_guarded sendEmail_guarded)


text \<open>
  A test that succeeds delivered: it then posted to the webhook when there is one, and, when mail is
  configured, the server accepted every recipient and the message.
\<close>

theorem test_means_delivered:
  assumes "snd (test_notify NL c) = None"
  shows "notify_enabled c
    \<and> (nc_WebhookURL c = [] \<or> Post (nc_WebhookURL c) ''info'' test_subject test_body \<in> set (fst (test_notify NL c)))
    \<and> (\<not> email_on c \<or> Smtp ` set (smtp_session NL c test_subject test_body) \<subseteq> set (fst (test_notify NL c)))"
proof -
  have posted: "Post (nc_WebhookURL c) ''info'' test_subject test_body \<in> set (fst (sendWebhook NL c ''info'' test_subject test_body))"
    if "snd (sendWebhook NL c ''info'' test_subject test_body) = None"
    using that by (auto simp: sendWebhook_def split: option.splits prod.splits bool.splits sum.splits)
  have mailed: "Smtp ` set (smtp_session NL c test_subject test_body) \<subseteq> set (fst (sendEmail NL c test_subject test_body))"
    if "snd (sendEmail NL c test_subject test_body) = None"
    using sendEmail_done [OF that] by blast
  from assms posted mailed show ?thesis
    by (auto simp: test_notify_def split: prod.splits option.splits if_splits)
qed

section \<open>A configured instance\<close>

definition mail_config :: notify_config where
  "mail_config = \<lparr>nc_WebhookURL = [], nc_EmailTo = ''ops@example.com,dev@example.com'', nc_SMTPHost = ''mail.example.com'',
     nc_SMTPPort = [], nc_SMTPUser = ''relay'', nc_SMTPPass = ''pw'', nc_SMTPFrom = []\<rparr>"

definition rebinding :: notify_libs where
  "rebinding = \<lparr>nl_target = (\<lambda>_. None), nl_addrs = (\<lambda>_. [''127.0.0.1:587'', ''192.0.2.1:587'']), nl_connects = (\<lambda>_. True),
     nl_webhook = (\<lambda>_. Inr 200), nl_starttls = True, nl_smtp = (\<lambda>_. None)\<rparr>"

lemma run_smtp_agrees: "run_smtp (nl_smtp rebinding) cs = (map Smtp cs, None)"
  by (induction cs) (simp_all add: rebinding_def)

lemma rebinding_dial: "guarded_dial (nl_connects rebinding) (nl_addrs rebinding t) = ([Connect ''192.0.2.1:587''], True)"
  by code_simp

lemma dotted_mail: "dotted 192 0 2 1 @ CHR '':'' # show_nat 587 = ''192.0.2.1:587''"
  by code_simp


lemma mail_recipients: "recipients ''ops@example.com,dev@example.com'' = [''ops@example.com'', ''dev@example.com'']"
proof -
  have "split_on (CHR '','') ''ops@example.com,dev@example.com'' = [''ops@example.com'', ''dev@example.com'']" by code_simp
  then show ?thesis by (simp add: recipients_def trim_space_printable printable_def)
qed

lemma test_means_delivered_witness:
  "Smtp (RcptTo ''dev@example.com'') \<in> set (fst (test_notify rebinding mail_config))"
proof -
  have ok: "snd (test_notify rebinding mail_config) = None"
    by (simp add: test_notify_def notify_enabled_def email_on_def sendEmail_def rebinding_dial run_smtp_agrees mail_config_def)
  have on: "email_on mail_config" by (simp add: email_on_def mail_config_def)
  have "nc_EmailTo mail_config = ''ops@example.com,dev@example.com''" by (simp add: mail_config_def)
  then have "RcptTo ''dev@example.com'' \<in> set (smtp_session rebinding mail_config test_subject test_body)"
    by (intro session_recipient) (simp add: mail_recipients)
  with test_means_delivered [OF ok] on show ?thesis by blast
qed

end
