(* ===== verification/Admin.thy ===== *)
theory Admin
  imports Features Notify
begin

text \<open>
  The remaining handlers of the admin API: \<open>handlers_middlewares.go\<close>, \<open>handlers_certs.go\<close>,
  \<open>handlers_misc.go\<close> and the notification settings of \<open>handlers_features.go\<close>, in the style of \<open>Features\<close>.
  Issuance runs in the background: a handler that starts it returns the certificate of the job.
\<close>

section \<open>Middlewares\<close>

definition handleListMiddlewares :: "feat_libs \<Rightarrow> middleware list handler" where
  "handleListMiddlewares FL u st =
     (case on_db ListMiddlewares st of
        (Inl x, st1) \<Rightarrow> (fail_with FL 500 x, st1)
      | (Inr ms, st1) \<Rightarrow> (ApiOk 200 ms, st1))"

definition handleCreateMiddleware :: "feat_libs \<Rightarrow> call_env \<Rightarrow> middleware option \<Rightarrow> middleware handler" where
  "handleCreateMiddleware FL ce body u st =
     (case body of
        None \<Rightarrow> (ApiErr 400 ''invalid body'', st)
      | Some m0 \<Rightarrow>
          (let m = m0\<lparr>mw_ID := []\<rparr>; issues = ValidateMiddleware (pl_render (ft_api FL)) (mw_Type m) (mw_Params m);
               now = unix_of (ce_now ce);
               m' = m\<lparr>mw_ID := ce_fresh ce, mw_CreatedAt := of_unix now, mw_UpdatedAt := of_unix now\<rparr> in
           if issues \<noteq> [] then (writeIssues issues, st)
           else
             (case on_db (CreateMiddleware now (ce_fresh ce) m) st of
                (Inl x, st1) \<Rightarrow> (fail_with FL 500 x, st1)
              | (Inr _, st1) \<Rightarrow> (ApiOk 201 m', reloaded FL ce u ''middleware.create'' (mw_ID m') (mw_Type m') st1))))"

definition handleUpdateMiddleware :: "feat_libs \<Rightarrow> call_env \<Rightarrow> string \<Rightarrow> middleware option \<Rightarrow> middleware handler" where
  "handleUpdateMiddleware FL ce i body u st =
     (case on_db (GetMiddleware i) st of
        (Inl x, st1) \<Rightarrow> (fail_with FL (notFoundIf x) x, st1)
      | (Inr existing, st1) \<Rightarrow>
          (case body of
             None \<Rightarrow> (ApiErr 400 ''invalid body'', st1)
           | Some m0 \<Rightarrow>
               (let m = m0\<lparr>mw_ID := mw_ID existing\<rparr>;
                    issues = ValidateMiddleware (pl_render (ft_api FL)) (mw_Type m) (mw_Params m);
                    now = unix_of (ce_now ce) in
                if issues \<noteq> [] then (writeIssues issues, st1)
                else
                  (case on_db (UpdateMiddleware now m) st1 of
                     (Inl x, st2) \<Rightarrow> (fail_with FL 500 x, st2)
                   | (Inr _, st2) \<Rightarrow>
                       (ApiOk 200 (m\<lparr>mw_UpdatedAt := of_unix now\<rparr>), reloaded FL ce u ''middleware.update'' (mw_ID m) [] st2)))))"

definition handleDeleteMiddleware :: "feat_libs \<Rightarrow> call_env \<Rightarrow> string \<Rightarrow> unit handler" where
  "handleDeleteMiddleware FL ce i u st =
     (case on_db (DeleteMiddleware i) st of
        (Inl x, st1) \<Rightarrow> (fail_with FL 500 x, st1)
      | (Inr _, st1) \<Rightarrow> (ApiOk 200 (), reloaded FL ce u ''middleware.delete'' i [] st1))"

section \<open>Certificates\<close>

definition handleListCerts :: "feat_libs \<Rightarrow> certificate list handler" where
  "handleListCerts FL u st =
     (case on_db ListCertificates st of
        (Inl x, st1) \<Rightarrow> (fail_with FL 500 x, st1)
      | (Inr cs, st1) \<Rightarrow> (ApiOk 200 cs, st1))"

record create_cert_req =
  cr_Type :: cert_type
  cr_Domains :: "string list"
  cr_ChallengeType :: string
  cr_DNSProviderID :: string
  cr_CertPEM :: string
  cr_KeyPEM :: string

definition new_cert :: "create_cert_req \<Rightarrow> certificate" where
  "new_cert q = \<lparr>c_ID = [], c_Type = (if cr_Type q = [] then CertTypeACME else cr_Type q), c_Domains = cr_Domains q,
     c_Status = CertStatusPending, c_ChallengeType = cr_ChallengeType q, c_DNSProviderID = cr_DNSProviderID q,
     c_ACMEAccountID = [], c_CertPEM = [], c_KeyPEMEnc = [], c_IssuedAt = None, c_ExpiresAt = None, c_LastError = [],
     c_LastAttemptAt = None, c_AutoRenew = True, c_CreatedAt = zero_time, c_UpdatedAt = zero_time\<rparr>"

text \<open>The certificate as it is after \<open>CreateCertificate\<close>.\<close>

definition created_cert :: "call_env \<Rightarrow> certificate \<Rightarrow> certificate" where
  "created_cert ce c = c\<lparr>c_ID := ce_fresh ce, c_CreatedAt := of_unix (unix_of (ce_now ce)),
     c_UpdatedAt := of_unix (unix_of (ce_now ce))\<rparr>"

type_synonym cert_answer = "(certificate api_reply \<times> certificate option) \<times> api_state"

definition audited_cert :: "call_env \<Rightarrow> user \<Rightarrow> certificate \<Rightarrow> api_state \<Rightarrow> api_state" where
  "audited_cert ce u c = audit_as ce u ''certificate.create'' (c_ID c) (str_join '','' (c_Domains c))"

definition handleCreateCert :: "feat_libs \<Rightarrow> call_env \<Rightarrow> create_cert_req option \<Rightarrow> user \<Rightarrow> api_state \<Rightarrow> cert_answer" where
  "handleCreateCert FL ce body u st =
     (case body of
        None \<Rightarrow> ((ApiErr 400 ''invalid body'', None), st)
      | Some q \<Rightarrow>
          if cr_Domains q = [] then ((ApiErr 400 ''at least one domain is required'', None), st)
          else
            (let c = new_cert q; now = unix_of (ce_now ce) in
             if c_Type c = CertTypeUploaded then
               (if cr_CertPEM q = [] \<or> cr_KeyPEM q = []
                then ((ApiErr 400 ''certPem and keyPem are required'', None), st)
                else
                  (case ft_encrypt FL (cr_KeyPEM q) of
                     Inl x \<Rightarrow> ((ApiErr 500 x, None), st)
                   | Inr enc \<Rightarrow>
                       (let c1 = c\<lparr>c_CertPEM := cr_CertPEM q, c_KeyPEMEnc := enc, c_Status := CertStatusValid, c_AutoRenew := False\<rparr>;
                            c2 = created_cert ce c1 in
                        case on_db (CreateCertificate now (ce_fresh ce) c1) st of
                          (Inl x, st1) \<Rightarrow> ((fail_with FL 500 x, None), st1)
                        | (Inr _, st1) \<Rightarrow>
                            ((ApiOk 201 c2, None), audited_cert ce u c2 (snd (reloadAfterChange (ft_api FL) ce st1))))))
             else if c_Type c = CertTypeACME then
               (let c1 = c\<lparr>c_ChallengeType := (if c_ChallengeType c = [] then ''http-01'' else c_ChallengeType c)\<rparr>;
                    c2 = created_cert ce c1 in
                case on_db (CreateCertificate now (ce_fresh ce) c1) st of
                  (Inl x, st1) \<Rightarrow> ((fail_with FL 500 x, None), st1)
                | (Inr _, st1) \<Rightarrow> ((ApiOk 201 c2, Some c2), audited_cert ce u c2 st1))
             else ((ApiErr 400 ''unknown certificate type'', None), st)))"

text \<open>The background job: issuance, and a reload when it succeeded.\<close>

definition issueAsync :: "feat_libs \<Rightarrow> lego \<Rightarrow> acme_manager \<Rightarrow> call_env \<Rightarrow> certificate \<Rightarrow> api_state \<Rightarrow> api_state" where
  "issueAsync FL LG m ce c st =
     (case on_eng (run_obtain LG m (ce_now ce) (ce_fresh ce) c) st of
        (Some _, st1) \<Rightarrow> st1
      | (None, st1) \<Rightarrow> snd (reloadAfterChange (ft_api FL) ce st1))"

definition handleRenewCert :: "feat_libs \<Rightarrow> call_env \<Rightarrow> string \<Rightarrow> user \<Rightarrow> api_state \<Rightarrow> cert_answer" where
  "handleRenewCert FL ce i u st =
     (case on_db (GetCertificate i) st of
        (Inl x, st1) \<Rightarrow> ((fail_with FL (notFoundIf x) x, None), st1)
      | (Inr c, st1) \<Rightarrow>
          if c_Type c \<noteq> CertTypeACME then ((ApiErr 400 ''only ACME certificates can be renewed'', None), st1)
          else ((ApiOk 202 c, Some c), audit_as ce u ''certificate.renew'' (c_ID c) [] st1))"

definition handleDeleteCert :: "feat_libs \<Rightarrow> call_env \<Rightarrow> string \<Rightarrow> unit handler" where
  "handleDeleteCert FL ce i u st =
     (case on_db (DeleteCertificate i) st of
        (Inl x, st1) \<Rightarrow> (fail_with FL 500 x, st1)
      | (Inr _, st1) \<Rightarrow> (ApiOk 200 (), reloaded FL ce u ''certificate.delete'' i [] st1))"

section \<open>DNS providers\<close>

definition handleListDNS :: "feat_libs \<Rightarrow> dns_provider list handler" where
  "handleListDNS FL u st =
     (case on_db ListDNSProviders st of
        (Inl x, st1) \<Rightarrow> (fail_with FL 500 x, st1)
      | (Inr ps, st1) \<Rightarrow> (ApiOk 200 ps, st1))"

definition handleCreateDNS :: "feat_libs \<Rightarrow> call_env \<Rightarrow> (string \<times> string \<times> (string, string) gomap) option \<Rightarrow> dns_provider handler" where
  "handleCreateDNS FL ce body u st =
     (case body of
        None \<Rightarrow> (ApiErr 400 ''invalid body'', st)
      | Some (name, provider, creds) \<Rightarrow>
          if name = [] \<or> provider = [] then (ApiErr 400 ''name and provider are required'', st)
          else
            (case ft_encrypt FL (ft_marshal_map FL creds) of
               Inl x \<Rightarrow> (ApiErr 500 x, st)
             | Inr enc \<Rightarrow>
                 (let now = unix_of (ce_now ce);
                      p = \<lparr>dp_ID = [], dp_Name = name, dp_Provider = provider, dp_ConfigEnc = enc, dp_ConfigKeys = map fst creds,
                           dp_CreatedAt = zero_time, dp_UpdatedAt = zero_time\<rparr> in
                  case on_db (CreateDNSProvider now (ce_fresh ce) p) st of
                    (Inl x, st1) \<Rightarrow> (fail_with FL 500 x, st1)
                  | (Inr _, st1) \<Rightarrow>
                      (ApiOk 201 (p\<lparr>dp_ID := ce_fresh ce, dp_CreatedAt := of_unix now, dp_UpdatedAt := of_unix now\<rparr>),
                       audit_as ce u ''dns.create'' (ce_fresh ce) provider st1))))"

definition handleDeleteDNS :: "feat_libs \<Rightarrow> call_env \<Rightarrow> string \<Rightarrow> unit handler" where
  "handleDeleteDNS FL ce i u st =
     (case on_db (DeleteDNSProvider i) st of
        (Inl x, st1) \<Rightarrow> (fail_with FL 500 x, st1)
      | (Inr _, st1) \<Rightarrow> (ApiOk 200 (), audit_as ce u ''dns.delete'' i [] st1))"

section \<open>Listeners and the Traefik process\<close>

record entrypoint_view =
  ev_Name :: string
  ev_Proto :: string
  ev_Port :: int
  ev_Kind :: string
  ev_Builtin :: bool

definition handleListListeners :: "config \<Rightarrow> entrypoint_view list handler" where
  "handleListListeners pc u st =
     (ApiOk 200
        ([\<lparr>ev_Name = cf_HTTPEntryPoint pc, ev_Proto = ''tcp'', ev_Port = cf_HTTPPort pc, ev_Kind = ''http'', ev_Builtin = True\<rparr>,
          \<lparr>ev_Name = cf_HTTPSEntryPoint pc, ev_Proto = ''tcp'', ev_Port = cf_HTTPSPort pc, ev_Kind = ''https'', ev_Builtin = True\<rparr>]
         @ map (\<lambda>ep. \<lparr>ev_Name = se_Name ep, ev_Proto = se_Proto ep, ev_Port = se_Port ep, ev_Kind = ''stream'', ev_Builtin = True\<rparr>)
             (cf_StreamEntryPoints pc)), st)"

definition handleTraefikStatus :: "sup_world \<Rightarrow> sup_status handler" where
  "handleTraefikStatus w u st = (ApiOk 200 (Status (w_sup w)), st)"

definition query_int :: "string \<Rightarrow> int \<Rightarrow> int" where
  "query_int v dflt = (if v = [] then dflt else (case atoi v of (n, ok) \<Rightarrow> if ok then n else dflt))"

definition handleTraefikLogs :: "sup_world \<Rightarrow> string \<Rightarrow> log_line list handler" where
  "handleTraefikLogs w n u st = (ApiOk 200 (Logs (query_int n 200) (w_sup w)), st)"

text \<open>The restart blocks the request: \<open>waited\<close> is what else happens until the old process is gone.\<close>

definition handleTraefikRestart :: "call_env \<Rightarrow> start_result \<Rightarrow> (sup_world \<Rightarrow> sup_world) \<Rightarrow> user
    \<Rightarrow> api_state \<times> sup_world \<Rightarrow> unit api_reply \<times> api_state \<times> sup_world" where
  "handleTraefikRestart ce os waited u = (\<lambda>(st, w).
     case Restart w of
       (Some x, w1) \<Rightarrow> (ApiErr 500 x, st, w1)
     | (None, w1) \<Rightarrow>
         (case restart_finish os (ce_now ce) (sp_cmd (w_sup w)) (waited w1) of
            (Some x, w2) \<Rightarrow> (ApiErr 500 x, st, w2)
          | (None, w2) \<Rightarrow> (ApiOk 200 (), audit_as ce u ''traefik.restart'' [] [] st, w2)))"

section \<open>Settings and the audit log\<close>

fun read_settings :: "string list \<Rightarrow> api_state \<Rightarrow> (string \<times> string) list \<times> api_state" where
  "read_settings [] st = ([], st)"
| "read_settings (k # ks) st =
     (case on_db (GetSetting k) st of
        (Inl _, st1) \<Rightarrow> read_settings ks st1
      | (Inr v, st1) \<Rightarrow> (case read_settings ks st1 of (kvs, st2) \<Rightarrow> ((k, v) # kvs, st2)))"

definition handleGetSettings :: "(string \<times> string) list handler" where
  "handleGetSettings u st =
     (case read_settings [''traefik.accessLog'', ''traefik.metrics'', ''acme.email'', ''acme.staging''] st of
        (kvs, st1) \<Rightarrow> (ApiOk 200 kvs, st1))"

definition handleSetSettings :: "feat_libs \<Rightarrow> call_env \<Rightarrow> (string, string) gomap option \<Rightarrow> (string, string) gomap handler" where
  "handleSetSettings FL ce body u st =
     (case body of
        None \<Rightarrow> (ApiErr 400 ''invalid body'', st)
      | Some m \<Rightarrow>
          (case put_settings m st of
             (Some x, st1) \<Rightarrow> (fail_with FL 500 x, st1)
           | (None, st1) \<Rightarrow> (ApiOk 200 m, audit_as ce u ''settings.update'' [] (str_join '','' (map fst m)) st1)))"

definition handleAudit :: "feat_libs \<Rightarrow> string \<Rightarrow> audit_entry list handler" where
  "handleAudit FL limit u st =
     (case on_db (ListAudit (query_int limit 200)) st of
        (Inl x, st1) \<Rightarrow> (fail_with FL 500 x, st1)
      | (Inr es, st1) \<Rightarrow> (ApiOk 200 es, st1))"

section \<open>Notification settings\<close>

definition saved_notify :: "notify_config \<Rightarrow> (string \<times> string) list" where
  "saved_notify q = [(''notify.webhookUrl'', nc_WebhookURL q), (''notify.email'', nc_EmailTo q),
     (''notify.smtpHost'', nc_SMTPHost q), (''notify.smtpPort'', nc_SMTPPort q), (''notify.smtpUser'', nc_SMTPUser q),
     (''notify.smtpFrom'', nc_SMTPFrom q)]"

text \<open>\<open>saveNotify\<close>: the password is kept when none is given. Some is the error.\<close>

definition saveNotify :: "feat_libs \<Rightarrow> notify_config \<Rightarrow> api_state \<Rightarrow> string option \<times> api_state" where
  "saveNotify FL q st =
     (case put_settings (saved_notify q) st of
        (Some x, st1) \<Rightarrow> (Some (err_text (ft_api FL) x), st1)
      | (None, st1) \<Rightarrow>
          if nc_SMTPPass q = [] then (None, st1)
          else
            (case ft_encrypt FL (nc_SMTPPass q) of
               Inl x \<Rightarrow> (Some x, st1)
             | Inr enc \<Rightarrow>
                 (case on_db (SetSetting ''notify.smtpPassEnc'' enc) st1 of
                    (Inl x, st2) \<Rightarrow> (Some (err_text (ft_api FL) x), st2)
                  | (Inr _, st2) \<Rightarrow> (None, st2))))"

text \<open>The checks both handlers make on the sinks.\<close>

definition sink_error :: "feat_libs \<Rightarrow> notify_config \<Rightarrow> string option" where
  "sink_error FL q =
     (case (if nc_WebhookURL q \<noteq> [] then pl_check (ft_api FL) (nc_WebhookURL q) else None) of
        Some x \<Rightarrow> Some (''webhook: '' @ ft_ssrf FL x)
      | None \<Rightarrow>
          (case (if nc_SMTPHost q \<noteq> [] then ft_check_host FL (nc_SMTPHost q) else None) of
             Some x \<Rightarrow> Some (''smtp host: '' @ ft_ssrf FL x)
           | None \<Rightarrow> None))"

definition handleSetNotifications :: "feat_libs \<Rightarrow> call_env \<Rightarrow> notify_config option \<Rightarrow> unit handler" where
  "handleSetNotifications FL ce body u st =
     (case body of
        None \<Rightarrow> (ApiErr 400 ''invalid body'', st)
      | Some q \<Rightarrow>
          (case sink_error FL q of
             Some x \<Rightarrow> (ApiErr 400 x, st)
           | None \<Rightarrow>
               (case saveNotify FL q st of
                  (Some x, st1) \<Rightarrow> (ApiErr 500 x, st1)
                | (None, st1) \<Rightarrow> (ApiOk 200 (), audit_as ce u ''notifications.update'' [] [] st1))))"

text \<open>The password itself is never sent back, only whether there is one.\<close>

definition handleGetNotifications :: "(notify_config \<times> bool) handler" where
  "handleGetNotifications u st =
     (let (enc, st0) = setting_or_empty ''notify.smtpPassEnc'' st;
          (url, st1) = setting_or_empty ''notify.webhookUrl'' st0;
          (to, st2) = setting_or_empty ''notify.email'' st1;
          (host, st3) = setting_or_empty ''notify.smtpHost'' st2;
          (port, st4) = setting_or_empty ''notify.smtpPort'' st3;
          (usr, st5) = setting_or_empty ''notify.smtpUser'' st4;
          (from, st6) = setting_or_empty ''notify.smtpFrom'' st5 in
      (ApiOk 200 (\<lparr>nc_WebhookURL = url, nc_EmailTo = to, nc_SMTPHost = host, nc_SMTPPort = port, nc_SMTPUser = usr,
         nc_SMTPPass = [], nc_SMTPFrom = from\<rparr>, enc \<noteq> []), st6))"

definition handleTestNotification :: "feat_libs \<Rightarrow> notify_libs \<Rightarrow> user \<Rightarrow> api_state \<Rightarrow> (unit api_reply \<times> event list) \<times> api_state" where
  "handleTestNotification FL NL u st =
     (case on_eng (notifyConfig (ft_decrypt FL)) st of (c, st1) \<Rightarrow>
        (case sink_error FL c of
           Some x \<Rightarrow> ((ApiErr 400 x, []), st1)
         | None \<Rightarrow>
             (case test_notify NL c of
                (es, Some x) \<Rightarrow> ((ApiErr 502 x, es), st1)
              | (es, None) \<Rightarrow> ((ApiOk 200 (), es), st1))))"

end
