(* ===== verification/Backup.thy ===== *)
theory Backup
  imports Admin
begin

text \<open>
  Export and restore of the configuration, \<open>internal/api/handlers_backup.go\<close>. A decoded document may hold
  null entries, so hosts, middlewares and access lists are optional in it; a null that the code would
  dereference is a panic, which the server's recoverer turns into a 500 with the state as it is by then.
\<close>

section \<open>Documents\<close>

definition restorableSettingPrefixes :: "string list" where
  "restorableSettingPrefixes = [''defaultsite.'', ''notify.'', ''plugins.'', ''ban.'', ''traefik.'', ''acme.'', ''raw.'']"

definition restorableSetting :: "string \<Rightarrow> bool" where
  "restorableSetting key \<longleftrightarrow> list_ex (has_prefix key) restorableSettingPrefixes"

record dns_export =
  de_ID :: string
  de_Name :: string
  de_Provider :: string
  de_ConfigEnc :: string
  de_ConfigKeys :: "string list"

record backup_doc =
  bd_Version :: int
  bd_ExportedAt :: string
  bd_Hosts :: "host option list"
  bd_Middlewares :: "middleware option list"
  bd_AccessLists :: "access_list option list"
  bd_DNSProviders :: "dns_export list"
  bd_Settings :: "(string, string) gomap"

section \<open>Export\<close>

text \<open>A read whose error is dropped gives nothing.\<close>

definition read_or :: "'a \<Rightarrow> 'a dbop \<Rightarrow> api_state \<Rightarrow> 'a \<times> api_state" where
  "read_or dflt f st = (case on_db f st of (Inl _, st') \<Rightarrow> (dflt, st') | (Inr x, st') \<Rightarrow> (x, st'))"

definition export_dns :: "dns_provider \<Rightarrow> dns_export" where
  "export_dns d = \<lparr>de_ID = dp_ID d, de_Name = dp_Name d, de_Provider = dp_Provider d, de_ConfigEnc = dp_ConfigEnc d,
     de_ConfigKeys = dp_ConfigKeys d\<rparr>"

definition handleBackupExport :: "call_env \<Rightarrow> string \<Rightarrow> backup_doc handler" where
  "handleBackupExport ce stamp u st =
     (let (hs, st1) = read_or [] (ListHosts []) st;
          (ms, st2) = read_or [] ListMiddlewares st1;
          (as, st3) = read_or [] ListAccessLists st2;
          (ds, st4) = read_or [] ListDNSProviders st3;
          (kvs, st5) = read_or [] ListAllSettings st4 in
      (ApiOk 200 \<lparr>bd_Version = 1, bd_ExportedAt = stamp, bd_Hosts = map Some hs, bd_Middlewares = map Some ms,
         bd_AccessLists = map Some as, bd_DNSProviders = map export_dns ds, bd_Settings = kvs\<rparr>,
       audit_as ce u ''backup.export'' [] [] st5))"

section \<open>Restore: the checks\<close>

definition host_issues :: "api_libs \<Rightarrow> nat \<times> host \<Rightarrow> issue list" where
  "host_issues AP = (\<lambda>(i, h). map (\<lambda>iss. case iss of Issue f m \<Rightarrow> Issue (''hosts['' @ show_nat i @ ''].'' @ f) m) (validateHost AP h))"

definition sink_issues :: "feat_libs \<Rightarrow> (string, string) gomap \<Rightarrow> issue list" where
  "sink_issues FL settings =
     (let url = mget_or [] settings ''notify.webhookUrl''; host = mget_or [] settings ''notify.smtpHost'' in
      (case (if url \<noteq> [] then pl_check (ft_api FL) url else None) of
         Some x \<Rightarrow> [Issue ''settings.notify.webhookUrl'' (ft_ssrf FL x)] | None \<Rightarrow> [])
      @ (case (if host \<noteq> [] then ft_check_host FL host else None) of
           Some x \<Rightarrow> [Issue ''settings.notify.smtpHost'' (ft_ssrf FL x)] | None \<Rightarrow> []))"

text \<open>None is the panic on a null host.\<close>

definition restore_issues :: "feat_libs \<Rightarrow> backup_doc \<Rightarrow> issue list option" where
  "restore_issues FL doc =
     (if None \<in> set (bd_Hosts doc) then None
      else Some (concat (map (host_issues (ft_api FL)) (enumerate 0 (map the (bd_Hosts doc))))
                 @ sink_issues FL (bd_Settings doc)))"

section \<open>Restore: the writes\<close>

text \<open>A statement whose error is dropped, for each element.\<close>

definition each :: "('a \<Rightarrow> unit dbop) \<Rightarrow> 'a list \<Rightarrow> api_state \<Rightarrow> api_state" where
  "each f xs st = fold (\<lambda>x s. snd (on_db (f x) s)) xs st"

definition wipe_table :: "'a list dbop \<Rightarrow> ('a \<Rightarrow> string) \<Rightarrow> (string \<Rightarrow> unit dbop) \<Rightarrow> api_state \<Rightarrow> api_state" where
  "wipe_table list key del st =
     (case on_db list st of (Inl _, st1) \<Rightarrow> st1 | (Inr xs, st1) \<Rightarrow> each (\<lambda>x. del (key x)) xs st1)"

definition wipe :: "api_state \<Rightarrow> api_state" where
  "wipe st = wipe_table ListDNSProviders dp_ID DeleteDNSProvider
     (wipe_table ListAccessLists al_ID DeleteAccessList
       (wipe_table ListMiddlewares mw_ID DeleteMiddleware
         (wipe_table (ListHosts []) h_ID DeleteHost st)))"

text \<open>Inserts in order, each with a fresh identifier; a null element panics, which stops everything after it.\<close>

fun create_each :: "(string \<Rightarrow> 'a \<Rightarrow> unit dbop) \<Rightarrow> (nat \<Rightarrow> string) \<Rightarrow> 'a option list \<Rightarrow> api_state \<Rightarrow> bool \<times> api_state" where
  "create_each f fresh [] st = (True, st)"
| "create_each f fresh (None # xs) st = (False, st)"
| "create_each f fresh (Some x # xs) st = create_each f fresh xs (snd (on_db (f (fresh (length xs)) x) st))"

definition import_dns :: "dns_export \<Rightarrow> dns_provider" where
  "import_dns d = \<lparr>dp_ID = de_ID d, dp_Name = de_Name d, dp_Provider = de_Provider d, dp_ConfigEnc = de_ConfigEnc d,
     dp_ConfigKeys = de_ConfigKeys d, dp_CreatedAt = zero_time, dp_UpdatedAt = zero_time\<rparr>"

definition clean_list :: "access_list \<Rightarrow> access_list" where
  "clean_list a = a\<lparr>al_AllowIPs := fst (ParseAllowIPs (al_AllowIPs a))\<rparr>"

text \<open>The five groups of writes, as far as they come; False is a panic on the way.\<close>

definition put_back :: "int \<Rightarrow> (nat \<Rightarrow> nat \<Rightarrow> string) \<Rightarrow> backup_doc \<Rightarrow> api_state \<Rightarrow> bool \<times> api_state" where
  "put_back now fresh doc st =
     (case create_each (CreateHost now) (fresh 0) (bd_Hosts doc) st of
        (False, st1) \<Rightarrow> (False, st1)
      | (True, st1) \<Rightarrow>
          (case create_each (CreateMiddleware now) (fresh 1) (bd_Middlewares doc) st1 of
             (False, st2) \<Rightarrow> (False, st2)
           | (True, st2) \<Rightarrow>
               (case create_each (CreateAccessList now) (fresh 2) (map (map_option clean_list) (bd_AccessLists doc)) st2 of
                  (False, st3) \<Rightarrow> (False, st3)
                | (True, st3) \<Rightarrow>
                    (case create_each (CreateDNSProvider now) (fresh 3) (map (Some \<circ> import_dns) (bd_DNSProviders doc)) st3 of
                       (False, st4) \<Rightarrow> (False, st4)
                     | (True, st4) \<Rightarrow>
                         (True, each (\<lambda>(k, v). SetSetting k v)
                                  (filter (\<lambda>(k, v). restorableSetting k) (bd_Settings doc)) st4)))))"

definition handleBackupRestore :: "feat_libs \<Rightarrow> call_env \<Rightarrow> (nat \<Rightarrow> nat \<Rightarrow> string) \<Rightarrow> backup_doc option
    \<Rightarrow> (nat \<times> nat \<times> nat \<times> nat) handler" where
  "handleBackupRestore FL ce fresh body u st =
     (case body of
        None \<Rightarrow> (ApiErr 400 ''invalid backup file'', st)
      | Some doc \<Rightarrow>
          (case restore_issues FL doc of
             None \<Rightarrow> (ApiErr 500 ''internal error'', st)
           | Some issues \<Rightarrow>
               if issues \<noteq> [] then (writeIssues issues, st)
               else
                 (case put_back (unix_of (ce_now ce)) fresh doc (wipe st) of
                    (False, st1) \<Rightarrow> (ApiErr 500 ''internal error'', st1)
                  | (True, st1) \<Rightarrow>
                      (case reloadAfterChange (ft_api FL) ce st1 of
                         (Some x, st2) \<Rightarrow> (ApiErr 422 (''restored but config invalid: '' @ err_text (ft_api FL) x), st2)
                       | (None, st2) \<Rightarrow>
                           (ApiOk 200 (length (bd_Hosts doc), length (bd_Middlewares doc), length (bd_AccessLists doc),
                                       length (bd_DNSProviders doc)),
                            audit_as ce u ''backup.restore'' [] [] st2)))))"

end
