(* ===== verification/ApiProps.thy ===== *)
theory ApiProps
  imports Admin
begin

text \<open>
  What the admin API promises: who may change what (the route table with its gates, the raw fragments of
  hosts), and that an imported router's domains are those its rule was built from.
\<close>

section \<open>Who may change what\<close>

text \<open>The routes anyone may change something through.\<close>

definition open_writes :: "string list" where
  "open_writes = [''/api/setup'', ''/api/login'', ''/api/logout'']"

fun writes_guarded :: "string \<times> string \<times> gate \<Rightarrow> bool" where
  "writes_guarded (m, p, g) =
     (m = ''GET'' \<or> (case g of Public \<Rightarrow> m = ''POST'' \<and> p \<in> set open_writes | SignedIn \<Rightarrow> False
                            | Roles rs \<Rightarrow> RoleViewer \<notin> set rs))"

lemma routes_guarded: "list_all writes_guarded routes"
  by code_simp

fun plain_segment :: "string \<Rightarrow> bool" where
  "plain_segment p \<longleftrightarrow> \<not> prefix ''{'' p \<and> \<not> suffix ''...}'' p"

lemma match_plain: "list_all plain_segment ps \<Longrightarrow> match_segments ps ss \<Longrightarrow> ss = ps"
  by (induction ps ss rule: match_segments.induct) (auto split: if_splits list.splits)

lemma join_split: "str_join [d] (split_on d s) = s"
proof (induction s)
  case (Cons c s)
  obtain x xs where "split_on d s = x # xs" using split_on_nonempty [of d s] by (cases "split_on d s") auto
  with Cons show ?case by (cases xs) auto
qed simp

lemma open_segments: "list_all (\<lambda>p. list_all plain_segment (split_on (CHR ''/'') p)) open_writes"
  by code_simp

lemma open_path:
  assumes "p \<in> set open_writes" "match_segments (split_on (CHR ''/'') p) (split_on (CHR ''/'') path)"
  shows "path = p"
proof -
  have "list_all plain_segment (split_on (CHR ''/'') p)" using open_segments assms(1) by (simp add: list_all_iff)
  with assms(2) have "split_on (CHR ''/'') path = split_on (CHR ''/'') p" by (rule match_plain [rotated])
  then show ?thesis by (metis join_split)
qed

lemma gate_of_write:
  assumes "route_gate verb path = Some g" "verb \<noteq> ''GET''" "verb \<noteq> ''HEAD''"
  shows "(g = Public \<and> verb = ''POST'' \<and> path \<in> set open_writes) \<or> (\<exists>rs. g = Roles rs \<and> RoleViewer \<notin> set rs)"
proof -
  obtain m p where f: "(m, p, g) \<in> set routes" "m = verb"
    "match_segments (split_on (CHR ''/'') p) (split_on (CHR ''/'') path)"
    using assms by (auto simp: route_gate_def find_Some_iff) (metis nth_mem)
  then have "writes_guarded (m, p, g)" using routes_guarded by (simp add: list_all_iff del: writes_guarded.simps)
  with f assms show ?thesis by (cases g) (auto dest: open_path)
qed


lemma writeIssues_not_ok: "writeIssues is = ApiOk code h \<longleftrightarrow> False" "ApiErr c m = ApiOk code h \<longleftrightarrow> False"
  by (simp_all add: writeIssues_def)

lemma update_raw:
  assumes "handleUpdateHost AP ce i (Some h0) u st = (ApiOk code h, st')" "on_db (GetHost i) st = (Inr existing, st1)"
  shows "\<exists>h1 h'. rawYAMLRequiresAdmin u h1 (Some existing) = (False, h') \<and> h_RawYAML h = h_RawYAML h'"
proof -
  define h1 where "h1 = h0\<lparr>h_ID := h_ID existing, h_CreatedAt := h_CreatedAt existing,
                            h_Kind := (if h_Kind h0 = [] then h_Kind existing else h_Kind h0)\<rparr>"
  obtain fb h' where r: "rawYAMLRequiresAdmin u h1 (Some existing) = (fb, h')" by fastforce
  have "\<not> fb" "\<exists>t. h = h'\<lparr>h_UpdatedAt := t\<rparr>"
  using assms(1)
    unfolding handleUpdateHost_def assms(2) prod.case sum.case option.case Let_def h1_def [symmetric] r
    by (auto simp only: writeIssues_not_ok if_True if_False prod.inject api_reply.inject
      split: if_split_asm prod.split_asm sum.split_asm option.split_asm)
  with r have "rawYAMLRequiresAdmin u h1 (Some existing) = (False, h') \<and> h_RawYAML h = h_RawYAML h'" by auto
  then show ?thesis by blast
qed

lemma create_raw:
  assumes "handleCreateHost AP ce (Some h0) u st = (ApiOk code h, st')"
  shows "\<exists>h1 h'. rawYAMLRequiresAdmin u h1 None = (False, h') \<and> h_RawYAML h = h_RawYAML h'"
proof -
  define h1 where "h1 = h0\<lparr>h_ID := [], h_Kind := (if h_Kind h0 = [] then HostKindProxy else h_Kind h0)\<rparr>"
  obtain fb h' where r: "rawYAMLRequiresAdmin u h1 None = (fb, h')" by fastforce
  have "\<not> fb" "h = scanHost (host_row_of (unix_of (ce_now ce)) (ce_fresh ce) h')"
    using assms
    unfolding handleCreateHost_def prod.case option.case Let_def h1_def [symmetric] r
    by (auto simp only: writeIssues_not_ok if_True if_False prod.inject api_reply.inject
      split: if_split_asm prod.split_asm sum.split_asm option.split_asm)
  with r have "rawYAMLRequiresAdmin u h1 None = (False, h') \<and> h_RawYAML h = h_RawYAML h'"
    by (auto simp: scanHost_def host_row_of_def hostData_def)
  then show ?thesis by blast
qed

lemma raw_kept: "rawYAMLRequiresAdmin u h1 (Some ex) = (False, h') \<Longrightarrow> usr_Role u \<noteq> RoleAdmin \<Longrightarrow> h_RawYAML h' = h_RawYAML ex"
  by (auto simp: rawYAMLRequiresAdmin_def Let_def split: if_splits)

lemma raw_blank: "rawYAMLRequiresAdmin u h1 None = (False, h') \<Longrightarrow> usr_Role u \<noteq> RoleAdmin \<Longrightarrow> trim_space (h_RawYAML h') = []"
proof -
  have "trim_space [] = []" by (rule trim_space_Nil)
  then show "rawYAMLRequiresAdmin u h1 None = (False, h') \<Longrightarrow> usr_Role u \<noteq> RoleAdmin \<Longrightarrow> trim_space (h_RawYAML h') = []"
    by (auto simp: rawYAMLRequiresAdmin_def Let_def split: if_splits)
qed


section \<open>A created host is served\<close>

lemma on_db_no_fault: "db_faults (en_db (as_eng st)) = [] \<Longrightarrow> t_insert rd wr key uniq r (en_db (as_eng st)) = (x, d) \<Longrightarrow>
    on_db (t_insert rd wr key uniq r) st = ((case x of Inl e \<Rightarrow> Inl (EDB e) | Inr v \<Rightarrow> Inr v), st\<lparr>as_eng := (as_eng st)\<lparr>en_db := d\<rparr>\<rparr>)"
  by (simp add: on_db_def run_db_def split: sum.splits)

definition with_host :: "host_row \<Rightarrow> db \<Rightarrow> db" where
  "with_host row d = d\<lparr>db_hosts := db_hosts d @ [row]\<rparr>"

lemma create_host_db:
  assumes "db_faults d = []"
  shows "CreateHost now fresh h d =
    (if id_or fresh (h_ID h) \<in> hr_id ` set (db_hosts d) then (Inl Conflict, d) else (Inr (), with_host (host_row_of now fresh h) d))"
proof -
  have "(\<exists>x\<in>set (db_hosts d). hr_id x = i) \<longleftrightarrow> i \<in> hr_id ` set (db_hosts d)" for i by auto
  then show ?thesis using assms by (simp add: CreateHost_def t_insert_def with_host_def host_row_of_def)
qed

lemma reload_after:
  assumes "db_faults (en_db (as_eng st)) = []" "reloadAfterChange AP ce st = (r, st')"
  shows "(case db_document (pl_render AP) (pl_uni AP) (pl_cfg AP) (unix_of (ce_now ce)) (en_db (as_eng st)) of
      Inl x \<Rightarrow> r = Some x \<and> en_rendered (as_eng st') = en_rendered (as_eng st)
    | Inr res \<Rightarrow> r = None \<and> en_rendered (as_eng st') = Some \<lparr>sv_JSON = rr_JSON res, sv_Hash = rr_Hash res\<rparr>)"
  using reload_outcome [OF assms(1), of "pl_render AP" "pl_uni AP" "pl_cfg AP" "unix_of (ce_now ce)"] assms(2)
  by (auto simp: reloadAfterChange_def on_eng_def split: prod.splits sum.splits)

lemma audit_served: "en_rendered (as_eng (audit now fresh u a t d st)) = en_rendered (as_eng st)"
  by (simp add: audit_def on_db_def run_db_def split: prod.splits sum.splits)

lemma create_stored:
  assumes nf: "db_faults (en_db (as_eng st)) = []"
    and r: "rawYAMLRequiresAdmin u (h0\<lparr>h_ID := [], h_Kind := (if h_Kind h0 = [] then HostKindProxy else h_Kind h0)\<rparr>) None = (False, h')"
    and ok: "validateHost AP h' = []" "CreateHost now (ce_fresh ce) h' (en_db (as_eng st)) = (Inr (), d1)" "now = unix_of (ce_now ce)"
    and h: "handleCreateHost AP ce (Some h0) u st = (reply, st')"
  shows "case db_document (pl_render AP) (pl_uni AP) (pl_cfg AP) now d1 of
      Inl _ \<Rightarrow> (\<exists>m. reply = ApiErr 422 m) \<and> en_rendered (as_eng st') = en_rendered (as_eng st)
    | Inr res \<Rightarrow> reply = ApiOk 201 (scanHost (host_row_of now (ce_fresh ce) h'))
        \<and> en_rendered (as_eng st') = Some \<lparr>sv_JSON = rr_JSON res, sv_Hash = rr_Hash res\<rparr>"
proof -
  let ?st1 = "st\<lparr>as_eng := (as_eng st)\<lparr>en_db := d1\<rparr>\<rparr>"
  have st1: "on_db (CreateHost now (ce_fresh ce) h') st = (Inr (), ?st1)" by (simp add: on_db_def run_db_def ok(2))
  obtain x st2 where rl: "reloadAfterChange AP ce ?st1 = (x, st2)" by fastforce
  have "db_faults (en_db (as_eng ?st1)) = []"
    using ok(2) nf by (auto simp: create_host_db [OF nf] with_host_def split: if_splits)
  note out = reload_after [OF this rl]
  have "(reply, st') = (case x of Some e \<Rightarrow> (ApiErr 422 (''saved but config invalid: '' @ err_text AP e), st2)
      | None \<Rightarrow> (ApiOk 201 (scanHost (host_row_of now (ce_fresh ce) h')),
                 audit_as ce u ''host.create'' (h_ID (scanHost (host_row_of now (ce_fresh ce) h')))
                   (h_Kind (scanHost (host_row_of now (ce_fresh ce) h'))) st2))"
    using h st1 rl unfolding handleCreateHost_def option.case Let_def r prod.case ok(3) by (simp add: ok(1))
  with out show ?thesis by (auto simp: audit_served ok(3) split: sum.splits)
qed

text \<open>
  C13: A created host is live, or nothing changed for visitors: when creating a host is answered with
  success, the served document is the rendering of the database with exactly that host added, under an
  identifier no other host has; whatever else the answer is, the document stays the one served before.
\<close>

theorem created_host_live:
  assumes nf: "db_faults (en_db (as_eng st)) = []"
    and h: "handleCreateHost AP ce body u st = (reply, st')"
  shows "case reply of
      ApiOk code new \<Rightarrow> \<exists>row res. scanHost row = new \<and> hr_id row \<notin> hr_id ` set (db_hosts (en_db (as_eng st)))
        \<and> db_document (pl_render AP) (pl_uni AP) (pl_cfg AP) (unix_of (ce_now ce)) (with_host row (en_db (as_eng st))) = Inr res
        \<and> en_rendered (as_eng st') = Some \<lparr>sv_JSON = rr_JSON res, sv_Hash = rr_Hash res\<rparr>
    | _ \<Rightarrow> en_rendered (as_eng st') = en_rendered (as_eng st)"
proof (cases body)
  case None
  with h show ?thesis by (auto simp: handleCreateHost_def)
next
  case (Some h0)
  define h1 where "h1 = h0\<lparr>h_ID := [], h_Kind := (if h_Kind h0 = [] then HostKindProxy else h_Kind h0)\<rparr>"
  obtain fb h' where r: "rawYAMLRequiresAdmin u h1 None = (fb, h')" by fastforce
  let ?now = "unix_of (ce_now ce)" and ?d = "en_db (as_eng st)"
  let ?row = "host_row_of ?now (ce_fresh ce) h'"
  note step = h [unfolded handleCreateHost_def Some option.case Let_def, folded h1_def, unfolded r prod.case]
  consider (refused) "fb \<or> validateHost AP h' \<noteq> []" | (taken) "\<not> fb" "validateHost AP h' = []" "hr_id ?row \<in> hr_id ` set (db_hosts ?d)"
    | (stored) "\<not> fb" "validateHost AP h' = []" "hr_id ?row \<notin> hr_id ` set (db_hosts ?d)"
    by blast
  then show ?thesis
  proof cases
    case refused
    with step show ?thesis by (auto simp: writeIssues_def split: if_splits)
  next
    case taken
    then have "CreateHost ?now (ce_fresh ce) h' ?d = (Inl Conflict, ?d)" by (simp add: create_host_db [OF nf] host_row_of_def)
    with taken step show ?thesis by (auto simp: on_db_def run_db_def)
  next
    case stored
    then have c: "CreateHost ?now (ce_fresh ce) h' ?d = (Inr (), with_host ?row ?d)" by (simp add: create_host_db [OF nf] host_row_of_def)
    have "rawYAMLRequiresAdmin u h1 None = (False, h')" using r stored(1) by simp
    from create_stored [OF nf this [unfolded h1_def] stored(2) c refl h [unfolded Some]] stored(3)
    show ?thesis by (cases "db_document (pl_render AP) (pl_uni AP) (pl_cfg AP) ?now (with_host ?row ?d)") auto
  qed
qed

section \<open>Concrete calls\<close>

definition vera :: user where "vera = anna\<lparr>usr_ID := ''2'', usr_Role := RoleViewer\<rparr>"
definition olga :: user where "olga = anna\<lparr>usr_ID := ''3'', usr_Role := RoleOperator\<rparr>"

definition vera_state :: api_state where
  "vera_state = anna_state\<lparr>as_eng := (as_eng anna_state)\<lparr>en_db := empty_db\<lparr>db_users := [vera],
     db_sessions := [\<lparr>ses_Token = ''kot'', ses_UserID = ''2'', ses_UserAgent = [], ses_IP = [], ses_CreatedAt = 0, ses_ExpiresAt = 9\<rparr>]\<rparr>\<rparr>\<rparr>"

definition vera_request :: api_request where
  "vera_request = \<lparr>ar_Cookie = Some ''tok'', ar_RemoteAddr = ''1.2.3.4'', ar_UserAgent = []\<rparr>"

lemma vera_signed_in: "authenticate plain_auth 5 vera_request vera_state = (Some vera, vera_state)"
  by (simp add: authenticate_def vera_request_def on_db_def run_db_def GetSession_def and_then_def t_get_def hashSessionToken_def
    plain_auth_def vera_state_def anna_state_def empty_db_def GetUser_def vera_def anna_def)

lemma delete_hosts_route: "route_gate ''DELETE'' ''/api/hosts/7'' = Some (Roles [RoleAdmin, RoleOperator])"
  by code_simp


text \<open>An installation without middlewares renders whatever its hosts are.\<close>

definition empty_fragment :: dyn_config where
  "empty_fragment = \<lparr>dc_HTTP = None, dc_TCP = None, dc_UDP = None, dc_TLS = None\<rparr>"

definition raw_libs :: libs where
  "raw_libs = plain_libs\<lparr>lib_yaml := (\<lambda>_. Inr empty_fragment)\<rparr>"

definition sample_api :: api_libs where
  "sample_api = \<lparr>pl_auth = plain_auth, pl_render = raw_libs, pl_uni = id, pl_alnum = (\<lambda>_. False), pl_uri = (\<lambda>_. True),
     pl_check = (\<lambda>_. None), pl_checkText = (\<lambda>_. []), pl_cfg = sample_cfg\<rparr>"

lemma plain_document:
  assumes "db_middlewares d = []" "mget (db_settings d) ''raw.dynamicYaml'' = None"
  shows "\<exists>res. db_document raw_libs id sample_cfg now d = Inr res"
proof -
  have j: "lib_json raw_libs c = Inr ''{}''" "lib_recode raw_libs x = None" "lib_sha raw_libs x = x" for c x
    by (simp_all add: raw_libs_def plain_libs_def)
  obtain hs certs acls bans st where d: "db_document raw_libs id sample_cfg now d =
      render_checked raw_libs id sample_cfg hs [] certs acls bans st" "mget_or [] st ''raw.dynamicYaml'' = []"
    unfolding db_document_def using assms by (simp add: mget_or_def)
  obtain r where "Render raw_libs id (render_inputs sample_cfg hs [] certs acls bans st None) = Inr r"
    by (simp add: Render_def Let_def render_inputs_def j)
  then show ?thesis by (simp add: d render_checked_def ValidateConfig_def j)
qed

definition dead_site :: host where
  "dead_site = zero_host\<lparr>h_Kind := HostKindDead, h_Domains := [''a.io'']\<rparr>"

lemma dead_site_valid: "validateHost sample_api (dead_site\<lparr>h_ID := i, h_RawYAML := [], h_CreatedAt := t\<rparr>) = []"
proof -
  have v: "ValidateRuleInputs (\<lambda>_. False) [''a.io''] [] = []" by code_simp
  have e: "trim_space [] = []" by (rule trim_space_Nil)
  have "ValidateHostInputs (\<lambda>_. True) HostKindDead [''a.io''] [] [] = []" by code_simp
  then show ?thesis
    by (simp add: validateHost_def kind_issues_def dead_site_def zero_host_def sample_api_def corsIssues_def rawYAMLIssues_def v e)
qed

lemma olga_creates:
  "\<exists>st'. handleCreateHost sample_api anna_call (Some dead_site) olga anna_state =
     (ApiOk 201 (scanHost (host_row_of 0 ''a'' (dead_site\<lparr>h_ID := [], h_RawYAML := []\<rparr>))), st')"
proof -
  let ?h' = "dead_site\<lparr>h_ID := [], h_RawYAML := []\<rparr>" and ?d = "en_db (as_eng anna_state)"
  have nf: "db_faults ?d = []" by (simp add: anna_state_def empty_db_def)
  have e: "trim_space [] = []" by (rule trim_space_Nil)
  have r: "rawYAMLRequiresAdmin olga (dead_site\<lparr>h_ID := [], h_Kind := (if h_Kind dead_site = [] then HostKindProxy else h_Kind dead_site)\<rparr>) None
      = (False, ?h')"
    by (simp add: rawYAMLRequiresAdmin_def olga_def anna_def dead_site_def zero_host_def e)
  have v: "validateHost sample_api ?h' = []"
    using dead_site_valid [where i = "[]" and t = 0] by (simp add: dead_site_def zero_host_def)
  let ?row = "host_row_of 0 ''a'' ?h'"
  have f: "ce_fresh anna_call = ''a''" by (simp add: anna_call_def)
  have c: "CreateHost 0 (ce_fresh anna_call) ?h' ?d = (Inr (), with_host ?row ?d)"
  proof -
    have "db_hosts ?d = []" by (simp add: anna_state_def empty_db_def)
    then show ?thesis by (simp add: create_host_db [OF nf] f)
  qed
  have t: "0 = unix_of (ce_now anna_call)" by (simp add: anna_call_def unix_of_def)
  obtain reply st' where h: "handleCreateHost sample_api anna_call (Some dead_site) olga anna_state = (reply, st')" by fastforce
  obtain res where "db_document raw_libs id sample_cfg 0 (with_host ?row ?d) = Inr res"
    using plain_document [of "with_host ?row ?d"] by (auto simp: with_host_def anna_state_def empty_db_def)
  with create_stored [OF nf r v c t h] have "reply = ApiOk 201 (scanHost (host_row_of 0 (ce_fresh anna_call) ?h'))"
    by (simp add: sample_api_def)
  with h f show ?thesis by simp
qed

lemma created_host_live_witness:
  "\<exists>new st' row res. handleCreateHost sample_api anna_call (Some dead_site) olga anna_state = (ApiOk 201 new, st') \<and> scanHost row = new
    \<and> db_document raw_libs id sample_cfg 0 (with_host row (en_db (as_eng anna_state))) = Inr res
    \<and> en_rendered (as_eng st') = Some \<lparr>sv_JSON = rr_JSON res, sv_Hash = rr_Hash res\<rparr>"
proof -
  have nf: "db_faults (en_db (as_eng anna_state)) = []" by (simp add: anna_state_def empty_db_def)
  have t: "unix_of (ce_now anna_call) = 0" by (simp add: anna_call_def unix_of_def)
  obtain st' where h: "handleCreateHost sample_api anna_call (Some dead_site) olga anna_state =
     (ApiOk 201 (scanHost (host_row_of 0 ''a'' (dead_site\<lparr>h_ID := [], h_RawYAML := []\<rparr>))), st')" using olga_creates by blast
  from created_host_live [OF nf h] h t show ?thesis by (simp add: sample_api_def) blast
qed


section \<open>Domains of imported routers\<close>

lemma domains_skip: "c \<noteq> CHR ''H'' \<Longrightarrow> domainsFromRule (c # s) = domainsFromRule s"
  by (subst (1 2) domainsFromRule.simps) (auto simp: host_open_def Let_def split: option.splits)

lemma index_byte_first: "d \<notin> set v \<Longrightarrow> index_byte (v @ d # rest) d = Some (length v)"
  by (induction v) auto

lemma domains_matcher: "domainsFromRule (matcher ''Host'' v @ rest) = ruleQuote v # domainsFromRule rest"
proof -
  have "matcher ''Host'' v @ rest = host_open @ ruleQuote v @ bq # '')'' @ rest" by (simp add: matcher_def host_open_def)
  moreover have "str_index (host_open @ s) host_open = Some 0" for s by (simp add: host_open_def)
  ultimately have "domainsFromRule (matcher ''Host'' v @ rest) = ruleQuote v # domainsFromRule ('')'' @ rest)"
    by (subst domainsFromRule.simps) (simp add: index_byte_first ruleQuote_no_bq Let_def)
  then show ?thesis by (simp add: domains_skip)
qed

lemma domains_nil: "domainsFromRule [] = []"
  by (subst domainsFromRule.simps) (simp add: host_open_def)

lemma domains_join: "domainsFromRule (str_join '' || '' (map (matcher ''Host'') vs)) = map ruleQuote vs"
proof (induction vs)
  case (Cons v vs)
  show ?case
  proof (cases vs)
    case Nil
    with domains_matcher [of v "[]"] show ?thesis by (simp add: domains_nil)
  next
    case (Cons x xs)
    with Cons.IH show ?thesis by (simp add: domains_matcher domains_skip)
  qed
qed (simp add: domains_nil)

text \<open>
  C34: Importing reads back the domains a rule was built from: for every list of domains, whatever they
  contain, parsing the rule that is rendered for them gives the same domains with the same multiplicity,
  up to the backticks that quoting removes, and none for the rule without domains.
\<close>

theorem rule_domains_roundtrip: "mset (domainsFromRule (hostRule ds)) = mset (map ruleQuote ds)"
proof (cases "ds = []")
  case True
  have "domainsFromRule (''PathPrefix('' @ [bq] @ ''/'' @ [bq] @ '')'') = []"
    by (simp add: domains_skip domains_nil)
  with True show ?thesis by (simp add: hostRule_def)
next
  case False
  then show ?thesis by (simp add: hostRule_join domains_join)
qed

end
