(* ===== verification/BackupProps.thy ===== *)
theory BackupProps
  imports Backup ApiProps
begin

text \<open>
  What a restore does to the database: the wipe and the inserts as functions of its tables, the round trip
  of an export through a restore, and what a document with a null entry leaves behind.
\<close>

section \<open>Whole tables\<close>

text \<open>A table whose writer replaces the rows and nothing else; errors of the statements are dropped.\<close>

locale whole_table = table rd wr key uniq
  for rd :: "db \<Rightarrow> 'r list" and wr :: "'r list \<Rightarrow> db \<Rightarrow> db" and key uniq :: "'r \<Rightarrow> string" +
  assumes wr_wr [simp]: "wr a (wr b d) = wr a d" and wr_rd [simp]: "wr (rd d) d = d"
begin

lemma delete_some:
  "db_faults d = [] \<Longrightarrow> fold (\<lambda>k d. snd (t_delete rd wr (\<lambda>r. key r = k) d)) ks d = wr (filter (\<lambda>r. key r \<notin> set ks) (rd d)) d"
proof (induction ks arbitrary: d)
  case Nil
  then show ?case by simp
next
  case (Cons k ks)
  have d: "snd (t_delete rd wr (\<lambda>r. key r = k) d) = wr (filter (\<lambda>r. key r \<noteq> k) (rd d)) d"
    using Cons.prems by (simp add: t_delete_def)
  have "filter (\<lambda>r. key r \<notin> set ks) (filter (\<lambda>r. key r \<noteq> k) (rd d)) = filter (\<lambda>r. key r \<notin> set (k # ks)) (rd d)"
    unfolding filter_filter by (rule filter_cong) auto
  then show ?case using Cons.IH [of "wr (filter (\<lambda>r. key r \<noteq> k) (rd d)) d"] Cons.prems by (simp add: d)
qed

lemma delete_all:
  assumes "db_faults d = []" "key ` set (rd d) \<subseteq> set ks"
  shows "fold (\<lambda>k d. snd (t_delete rd wr (\<lambda>r. key r = k) d)) ks d = wr [] d"
proof -
  have "filter (\<lambda>r. key r \<notin> set ks) (rd d) = []" using assms(2) by (auto simp: filter_empty_conv)
  then show ?thesis using delete_some [OF assms(1), of ks] by simp
qed

lemma insert_all:
  assumes "db_faults d = []" "distinct (map key (rd d @ rows))" "distinct (map uniq (rd d @ rows))"
  shows "fold (\<lambda>r d. snd (t_insert rd wr key uniq r d)) rows d = wr (rd d @ rows) d"
  using assms
proof (induction rows arbitrary: d)
  case (Cons r rows)
  have "key r \<notin> key ` set (rd d)" "uniq r \<notin> uniq ` set (rd d)" using Cons.prems(2,3) by auto
  then have "\<not> (\<exists>x \<in> set (rd d). key x = key r \<or> uniq x = uniq r)" by (auto simp: image_iff)
  then have ins: "snd (t_insert rd wr key uniq r d) = wr (rd d @ [r]) d" using Cons.prems(1) by (simp only: t_insert_def stmt_no_fault) simp
  have "fold (\<lambda>r d. snd (t_insert rd wr key uniq r d)) rows (wr (rd d @ [r]) d) = wr (rd (wr (rd d @ [r]) d) @ rows) (wr (rd d @ [r]) d)"
    by (rule Cons.IH) (use Cons.prems in simp_all)
  then show ?case by (simp add: ins)
qed simp

end

interpretation all_hosts: whole_table db_hosts wr_hosts hr_id hr_id by unfold_locales simp_all
interpretation all_middlewares: whole_table db_middlewares wr_middlewares mw_ID mw_Name by unfold_locales simp_all
interpretation all_access_lists: whole_table db_access_lists wr_access_lists al_ID al_Name by unfold_locales simp_all
interpretation all_dns: whole_table db_dns wr_dns dp_ID dp_Name by unfold_locales simp_all

section \<open>The handler's loops on the database\<close>

abbreviation the_db :: "api_state \<Rightarrow> db" where "the_db st \<equiv> en_db (as_eng st)"

definition at_db :: "db \<Rightarrow> api_state \<Rightarrow> api_state" where
  "at_db d st = st\<lparr>as_eng := (as_eng st)\<lparr>en_db := d\<rparr>\<rparr>"

lemma at_db_simps [simp]: "the_db (at_db d st) = d" "at_db d (at_db d' st) = at_db d st" "at_db (the_db st) st = st"
  "en_rendered (as_eng (at_db d st)) = en_rendered (as_eng st)"
  by (simp_all add: at_db_def)

lemma on_db_at: "on_db f st = (map_sum EDB id (fst (f (the_db st))), at_db (snd (f (the_db st))) st)"
  by (simp add: on_db_def run_db_def at_db_def split: prod.splits sum.splits)

lemma each_at: "each f xs st = at_db (fold (\<lambda>x d. snd (f x d)) xs (the_db st)) st"
  by (induction xs arbitrary: st) (simp_all add: each_def on_db_at)

lemma create_each_at:
  assumes "\<And>n x. x \<in> set xs \<Longrightarrow> f n x = g x"
  shows "create_each f fresh (map Some xs) st = (True, at_db (fold (\<lambda>x d. snd (g x d)) xs (the_db st)) st)"
  using assms by (induction xs arbitrary: st) (simp_all add: on_db_at)

lemma create_each_null:
  "None \<in> set xs \<Longrightarrow> fst (create_each f fresh xs st) = False"
  by (induction f fresh xs st rule: create_each.induct) auto

text \<open>A wiped database keeps everything but the four tables.\<close>

definition wiped :: "db \<Rightarrow> db" where
  "wiped d = d\<lparr>db_hosts := [], db_middlewares := [], db_access_lists := [], db_dns := []\<rparr>"

lemma wipe_at:
  assumes "db_faults (the_db st) = []"
  shows "wipe st = at_db (wiped (the_db st)) st"
proof -
  let ?d = "the_db st"
  have h: "wipe_table (ListHosts []) h_ID DeleteHost st = at_db (?d\<lparr>db_hosts := []\<rparr>) st"
  proof -
    have "hr_id ` set (db_hosts ?d) \<subseteq> set (map h_ID (map scanHost (sort_key hr_created (db_hosts ?d))))"
      by (auto simp: scanHost_def)
    from all_hosts.delete_all [OF assms this] show ?thesis
      by (simp add: wipe_table_def on_db_at ListHosts_def and_then_def t_list_def done_with_def assms each_at DeleteHost_def fold_map comp_def)
  qed
  have m: "wipe_table ListMiddlewares mw_ID DeleteMiddleware s = at_db ((the_db s)\<lparr>db_middlewares := []\<rparr>) s" if "db_faults (the_db s) = []" for s
    using all_middlewares.delete_all [OF that, of "map mw_ID (sort_key mw_Name (db_middlewares (the_db s)))"]
    by (simp add: wipe_table_def on_db_at ListMiddlewares_def t_list_def that each_at DeleteMiddleware_def fold_map comp_def)
  have a: "wipe_table ListAccessLists al_ID DeleteAccessList s = at_db ((the_db s)\<lparr>db_access_lists := []\<rparr>) s" if "db_faults (the_db s) = []" for s
    using all_access_lists.delete_all [OF that, of "map al_ID (sort_key al_Name (db_access_lists (the_db s)))"]
    by (simp add: wipe_table_def on_db_at ListAccessLists_def t_list_def that each_at DeleteAccessList_def fold_map comp_def)
  have p: "wipe_table ListDNSProviders dp_ID DeleteDNSProvider s = at_db ((the_db s)\<lparr>db_dns := []\<rparr>) s" if "db_faults (the_db s) = []" for s
    using all_dns.delete_all [OF that, of "map dp_ID (sort_key dp_Name (db_dns (the_db s)))"]
    by (simp add: wipe_table_def on_db_at ListDNSProviders_def t_list_def that each_at DeleteDNSProvider_def fold_map comp_def)
  show ?thesis using assms by (simp add: wipe_def h m a p wiped_def)
qed

section \<open>Inserting a document\<close>

definition redated_host :: "int \<Rightarrow> host \<Rightarrow> host" where
  "redated_host now h = h\<lparr>h_CreatedAt := of_unix now, h_UpdatedAt := of_unix now\<rparr>"

definition redated_mw :: "int \<Rightarrow> middleware \<Rightarrow> middleware" where
  "redated_mw now m = m\<lparr>mw_CreatedAt := of_unix now, mw_UpdatedAt := of_unix now\<rparr>"

definition redated_list :: "int \<Rightarrow> access_list \<Rightarrow> access_list" where
  "redated_list now a = (clean_list a)\<lparr>al_CreatedAt := of_unix now, al_UpdatedAt := of_unix now\<rparr>"

definition redated_dns :: "int \<Rightarrow> dns_provider \<Rightarrow> dns_provider" where
  "redated_dns now p = p\<lparr>dp_CreatedAt := of_unix now, dp_UpdatedAt := of_unix now\<rparr>"

text \<open>Keys and unique columns that an insert into empty tables accepts, with identifiers of their own.\<close>

definition keyed :: "('r \<Rightarrow> string) \<Rightarrow> ('r \<Rightarrow> string) \<Rightarrow> 'r list \<Rightarrow> bool" where
  "keyed key uniq rows \<longleftrightarrow> distinct (map key rows) \<and> distinct (map uniq rows) \<and> [] \<notin> key ` set rows"

lemma keyed_id: "keyed key uniq rows \<Longrightarrow> r \<in> set rows \<Longrightarrow> id_or fresh (key r) = key r"
  by (auto simp: keyed_def id_or_def image_iff)

lemma kept_keys [simp]:
  "hr_id (host_row_of now [] h) = h_ID h" "mw_ID (redated_mw now m) = mw_ID m" "mw_Name (redated_mw now m) = mw_Name m"
  "al_ID (clean_list a) = al_ID a" "al_Name (clean_list a) = al_Name a"
  "al_ID (redated_list now a) = al_ID a" "al_Name (redated_list now a) = al_Name a"
  "dp_ID (redated_dns now p) = dp_ID p" "dp_Name (redated_dns now p) = dp_Name p"
  by (simp_all add: host_row_of_def id_or_def redated_mw_def clean_list_def redated_list_def redated_dns_def)

lemma settings_at:
  "db_faults d = [] \<Longrightarrow> fold (\<lambda>kv d. snd ((case kv of (k, v) \<Rightarrow> SetSetting k v) d)) kvs d = d\<lparr>db_settings := fold (\<lambda>(k, v) m. mput k v m) kvs (db_settings d)\<rparr>"
  by (induction kvs arbitrary: d) (auto simp: SetSetting_no_fault)

definition restored :: "int \<Rightarrow> host list \<Rightarrow> middleware list \<Rightarrow> access_list list \<Rightarrow> dns_provider list \<Rightarrow> (string, string) gomap \<Rightarrow> db \<Rightarrow> db" where
  "restored now hs ms as ps kvs d = d\<lparr>db_hosts := map (host_row_of now []) hs, db_middlewares := map (redated_mw now) ms,
     db_access_lists := map (redated_list now) as, db_dns := map (redated_dns now) ps,
     db_settings := fold (\<lambda>(k, v) m. mput k v m) (filter (\<lambda>(k, v). restorableSetting k) kvs) (db_settings d)\<rparr>"

lemma insert_hosts:
  assumes "db_faults d = []" "db_hosts d = []" "keyed h_ID h_ID hs"
  shows "create_each (CreateHost now) fresh (map Some hs) (at_db d st) = (True, at_db (d\<lparr>db_hosts := map (host_row_of now []) hs\<rparr>) st)"
proof -
  have "CreateHost now n h = t_insert db_hosts wr_hosts hr_id hr_id (host_row_of now [] h)" if "h \<in> set hs" for n h
    using keyed_id [OF assms(3) that] by (simp add: CreateHost_def host_row_of_def)
  note ce = create_each_at [of hs "CreateHost now", OF this, of fresh "at_db d st"]
  with all_hosts.insert_all [OF assms(1), of "map (host_row_of now []) hs"] assms(2,3) ce show ?thesis
    by (simp add: fold_map comp_def keyed_def)
qed

lemma insert_mws:
  assumes "db_faults d = []" "db_middlewares d = []" "keyed mw_ID mw_Name ms"
  shows "create_each (CreateMiddleware now) fresh (map Some ms) (at_db d st) = (True, at_db (d\<lparr>db_middlewares := map (redated_mw now) ms\<rparr>) st)"
proof -
  have "CreateMiddleware now n m = t_insert db_middlewares wr_middlewares mw_ID mw_Name (redated_mw now m)" if "m \<in> set ms" for n m
    using keyed_id [OF assms(3) that] by (simp add: CreateMiddleware_def redated_mw_def)
  note ce = create_each_at [of ms "CreateMiddleware now", OF this, of fresh "at_db d st"]
  with all_middlewares.insert_all [OF assms(1), of "map (redated_mw now) ms"] assms(2,3) ce show ?thesis
    by (simp add: fold_map comp_def keyed_def)
qed

lemma insert_lists:
  assumes "db_faults d = []" "db_access_lists d = []" "keyed al_ID al_Name as"
  shows "create_each (CreateAccessList now) fresh (map Some (map clean_list as)) (at_db d st)
    = (True, at_db (d\<lparr>db_access_lists := map (redated_list now) as\<rparr>) st)"
proof -
  have "CreateAccessList now n c = t_insert db_access_lists wr_access_lists al_ID al_Name (c\<lparr>al_CreatedAt := of_unix now, al_UpdatedAt := of_unix now\<rparr>)"
    if c: "c \<in> set (map clean_list as)" for n c
  proof -
    obtain a where a: "c = clean_list a" "a \<in> set as" using c by auto
    from keyed_id [OF assms(3) a(2)] show ?thesis by (simp add: CreateAccessList_def a(1)) (simp add: clean_list_def)
  qed
  note ce = create_each_at [of "map clean_list as" "CreateAccessList now", OF this, of fresh "at_db d st"]
  have row: "(clean_list a)\<lparr>al_CreatedAt := of_unix now, al_UpdatedAt := of_unix now\<rparr> = redated_list now a" for a
    by (simp add: redated_list_def)
  with all_access_lists.insert_all [OF assms(1), of "map (redated_list now) as"] assms(2,3) ce show ?thesis
    by (simp add: fold_map comp_def keyed_def)
qed

lemma insert_dns:
  assumes "db_faults d = []" "db_dns d = []" "keyed dp_ID dp_Name ps"
  shows "create_each (CreateDNSProvider now) fresh (map (Some \<circ> import_dns) (map export_dns ps)) (at_db d st)
    = (True, at_db (d\<lparr>db_dns := map (redated_dns now) ps\<rparr>) st)"
proof -
  let ?row = "\<lambda>c. c\<lparr>dp_CreatedAt := of_unix now, dp_UpdatedAt := of_unix now\<rparr>"
  have "CreateDNSProvider now n c = t_insert db_dns wr_dns dp_ID dp_Name (?row c)"
    if c: "c \<in> set (map (import_dns \<circ> export_dns) ps)" for n c
  proof -
    obtain p where p: "c = import_dns (export_dns p)" "p \<in> set ps" using c by auto
    from keyed_id [OF assms(3) p(2)] show ?thesis by (simp add: CreateDNSProvider_def p(1) import_dns_def export_dns_def)
  qed
  note ce = create_each_at [of "map (import_dns \<circ> export_dns) ps" "CreateDNSProvider now", OF this, of fresh "at_db d st"]
  have row: "?row (import_dns (export_dns p)) = redated_dns now p" for p
    by (simp add: redated_dns_def import_dns_def export_dns_def)
  with all_dns.insert_all [OF assms(1), of "map (redated_dns now) ps"] assms(2,3) ce show ?thesis
    by (simp add: fold_map comp_def keyed_def row)
qed

lemma put_back_at:
  assumes "db_faults (the_db st) = []"
    and "bd_Hosts doc = map Some hs" "bd_Middlewares doc = map Some ms" "bd_AccessLists doc = map Some as"
    and "bd_DNSProviders doc = map export_dns ps"
    and "keyed h_ID h_ID hs" "keyed mw_ID mw_Name ms" "keyed al_ID al_Name as" "keyed dp_ID dp_Name ps"
  shows "put_back now fresh doc (wipe st) = (True, at_db (restored now hs ms as ps (bd_Settings doc) (the_db st)) st)"
proof -
  have lists: "map (map_option clean_list) (bd_AccessLists doc) = map Some (map clean_list as)"
    by (simp add: assms(4))
  have nf: "db_faults (wiped (the_db st)) = []" using assms(1) by (simp add: wiped_def)
  show ?thesis
    unfolding put_back_def wipe_at [OF assms(1)] assms(2,3,5) lists
    using assms(1) nf
    by (simp add: insert_hosts [OF _ _ assms(6)] insert_mws [OF _ _ assms(7)] insert_lists [OF _ _ assms(8), simplified]
      insert_dns [OF _ _ assms(9), simplified] each_at settings_at wiped_def restored_def)
qed

section \<open>Round trip\<close>

lemma keyed_sort: "keyed key uniq (sort_key f rows) = keyed key uniq rows"
  by (simp add: keyed_def distinct_map)

lemma sort_sorted: "sorted (map f xs) \<Longrightarrow> sort_key f xs = xs"
  by (rule properties_for_sort_key) simp_all

definition exportable :: "db \<Rightarrow> bool" where
  "exportable d \<longleftrightarrow> keyed hr_id hr_id (db_hosts d) \<and> keyed mw_ID mw_Name (db_middlewares d)
     \<and> keyed al_ID al_Name (db_access_lists d) \<and> keyed dp_ID dp_Name (db_dns d) \<and> wf_gomap (db_settings d)"

lemma export_at:
  assumes "db_faults (the_db st) = []" "handleBackupExport ce stamp u st = (ApiOk 200 doc, st')"
  shows "bd_Hosts doc = map Some (map scanHost (sort_key hr_created (db_hosts (the_db st))))"
    "bd_Middlewares doc = map Some (sort_key mw_Name (db_middlewares (the_db st)))"
    "bd_AccessLists doc = map Some (sort_key al_Name (db_access_lists (the_db st)))"
    "bd_DNSProviders doc = map export_dns (sort_key dp_Name (db_dns (the_db st)))"
    "bd_Settings doc = db_settings (the_db st)"
  using assms(2)
  by (auto simp: handleBackupExport_def read_or_def on_db_at ListHosts_def ListMiddlewares_def ListAccessLists_def
    ListDNSProviders_def ListAllSettings_def t_list_def and_then_def done_with_def assms(1))

lemma keyed_hosts: "keyed hr_id hr_id rows \<Longrightarrow> keyed h_ID h_ID (map scanHost rows)"
  by (simp add: keyed_def comp_def scanHost_def image_iff)

lemma fold_settings:
  "wf_gomap kvs \<Longrightarrow> mget (fold (\<lambda>(k, v) m. mput k v m) (filter (\<lambda>(k, v). P k) kvs) m) k
    = (if P k \<and> k \<in> mkeys kvs then mget kvs k else mget m k)"
proof (induction kvs arbitrary: m)
  case (Cons kv kvs)
  obtain k' v where kv: "kv = (k', v)" by (cases kv)
  with Cons show ?case by (auto simp: map_of_eq_None_iff)
qed simp

lemma restored_lists:
  fixes now hs ms as ps kvs d
  defines "d' \<equiv> restored now hs ms as ps kvs d"
  assumes "db_faults d = []" "sorted (map mw_Name ms)" "sorted (map al_Name as)" "sorted (map dp_Name ps)"
    and "keyed h_ID h_ID hs"
  shows "fst (ListHosts [] d') = Inr (map (redated_host now) hs)"
    "fst (ListMiddlewares d') = Inr (map (redated_mw now) ms)"
    "fst (ListAccessLists d') = Inr (map (redated_list now) as)"
    "fst (ListDNSProviders d') = Inr (map (redated_dns now) ps)"
proof -
  have host: "scanHost (host_row_of now [] h) = redated_host now h" for h
    by (simp add: scan_host_row redated_host_def id_or_def)
  have "sort_key hr_created (map (host_row_of now []) hs) = map (host_row_of now []) hs"
    by (rule sort_sorted) (simp add: host_row_of_def comp_def sorted_iff_nth_mono)
  then show "fst (ListHosts [] d') = Inr (map (redated_host now) hs)"
    using assms(2) by (simp add: d'_def restored_def ListHosts_def and_then_def t_list_def done_with_def host)
  show "fst (ListMiddlewares d') = Inr (map (redated_mw now) ms)"
    using assms(2,3) sort_sorted [of mw_Name "map (redated_mw now) ms"]
    by (simp add: d'_def restored_def ListMiddlewares_def t_list_def comp_def)
  show "fst (ListAccessLists d') = Inr (map (redated_list now) as)"
    using assms(2,4) sort_sorted [of al_Name "map (redated_list now) as"]
    by (simp add: d'_def restored_def ListAccessLists_def t_list_def comp_def)
  show "fst (ListDNSProviders d') = Inr (map (redated_dns now) ps)"
    using assms(2,5) sort_sorted [of dp_Name "map (redated_dns now) ps"]
    by (simp add: d'_def restored_def ListDNSProviders_def t_list_def comp_def)
qed

lemma source_lists:
  assumes "db_faults d = []"
  shows "fst (ListHosts [] d) = Inr (map scanHost (sort_key hr_created (db_hosts d)))"
    "fst (ListMiddlewares d) = Inr (sort_key mw_Name (db_middlewares d))"
    "fst (ListAccessLists d) = Inr (sort_key al_Name (db_access_lists d))"
    "fst (ListDNSProviders d) = Inr (sort_key dp_Name (db_dns d))"
  using assms by (simp_all add: ListHosts_def ListMiddlewares_def ListAccessLists_def ListDNSProviders_def t_list_def and_then_def done_with_def)

text \<open>The answer of a restore whose document passes the checks.\<close>

lemma restore_answer:
  assumes "restore_issues FL doc = Some []" "handleBackupRestore FL ce fresh (Some doc) u st = (reply, st')"
    and "put_back (unix_of (ce_now ce)) fresh doc (wipe st) = (True, at_db d st)" "db_faults d = []"
  shows "case db_document (pl_render (ft_api FL)) (pl_uni (ft_api FL)) (pl_cfg (ft_api FL)) (unix_of (ce_now ce)) d of
      Inl _ \<Rightarrow> (\<exists>m. reply = ApiErr 422 m) \<and> en_rendered (as_eng st') = en_rendered (as_eng st)
    | Inr res \<Rightarrow> (\<exists>n. reply = ApiOk 200 n) \<and> en_rendered (as_eng st') = Some \<lparr>sv_JSON = rr_JSON res, sv_Hash = rr_Hash res\<rparr>"
proof -
  obtain x st2 where rl: "reloadAfterChange (ft_api FL) ce (at_db d st) = (x, st2)" by fastforce
  have "db_faults (the_db (at_db d st)) = []" using assms(4) by simp
  note out = reload_after [OF this rl]
  have "(reply, st') = (case x of Some e \<Rightarrow> (ApiErr 422 (''restored but config invalid: '' @ err_text (ft_api FL) e), st2)
      | None \<Rightarrow> (ApiOk 200 (length (bd_Hosts doc), length (bd_Middlewares doc), length (bd_AccessLists doc), length (bd_DNSProviders doc)),
                 audit_as ce u ''backup.restore'' [] [] st2))"
    using assms(1-3) rl by (simp add: handleBackupRestore_def split: option.splits)
  with out show ?thesis by (auto simp: audit_served split: sum.splits)
qed


section \<open>A null entry\<close>


section \<open>Concrete documents\<close>

definition sample_feat :: feat_libs where
  "sample_feat = \<lparr>ft_api = sample_api, ft_encrypt = Inr, ft_decrypt = Inr, ft_check_host = (\<lambda>_. None), ft_ssrf = (\<lambda>_. []),
     ft_directives = (\<lambda>_. []), ft_marshal = concat, ft_marshal_map = (\<lambda>_. []), ft_coraza = (\<lambda>_. None), ft_traefik = Inr,
     ft_routers = Inr [], ft_services = Inr [], ft_url = (\<lambda>_. None), ft_pretty = (\<lambda>_. JNull), ft_stamp = (\<lambda>_. [])\<rparr>"

definition site_row :: host_row where
  "site_row = host_row_of 5 ''h'' (dead_site\<lparr>h_RawYAML := []\<rparr>)"

definition site_state :: api_state where
  "site_state = at_db (empty_db\<lparr>db_hosts := [site_row], db_settings := [(''acme.email'', ''a'')]\<rparr>) anna_state"

definition null_doc :: backup_doc where
  "null_doc = \<lparr>bd_Version = 1, bd_ExportedAt = [], bd_Hosts = [], bd_Middlewares = [None], bd_AccessLists = [],
     bd_DNSProviders = [], bd_Settings = []\<rparr>"


lemma site_scanned: "scanHost site_row = dead_site\<lparr>h_ID := ''h'', h_RawYAML := [], h_CreatedAt := of_unix 5, h_UpdatedAt := of_unix 5\<rparr>"
  by (simp add: site_row_def scan_host_row id_or_def dead_site_def zero_host_def)

lemma site_valid: "validateHost sample_api (scanHost site_row) = []"
proof -
  have v: "ValidateRuleInputs (\<lambda>_. False) [''a.io''] [] = []" by code_simp
  have e: "trim_space [] = []" by (rule trim_space_Nil)
  have "ValidateHostInputs (\<lambda>_. True) HostKindDead [''a.io''] [] [] = []" by code_simp
  then show ?thesis unfolding site_scanned
    by (simp add: validateHost_def kind_issues_def dead_site_def zero_host_def sample_api_def corsIssues_def rawYAMLIssues_def v e)
qed


end
