(* ===== verification/Webcontent.thy ===== *)
theory Webcontent
  imports Store Cron
begin

text \<open>
  The pages xgress serves through Traefik, \<open>internal/webcontent/responder.go\<close>: the default site, the hosts'
  error pages and the page for banned addresses. The built-in documents are the constructors of \<open>page\<close>;
  reading a setting or a host is a statement on the database.
\<close>

datatype page = BannedHTML | WelcomeHTML | StatusHTML int | OwnHTML string

datatype web_reply = Page int page | RedirectTo string | ConnectionClosed | Teapot | PlainNotFound

definition single_quoted :: "string \<Rightarrow> string" where
  "single_quoted s = [CHR 0x27] @ s @ [CHR 0x27]"

text \<open>The headers of every page.\<close>

definition page_headers :: "(string \<times> string) list" where
  "page_headers =
     [(''Content-Type'', ''text/html; charset=utf-8''),
      (''Content-Security-Policy'',
       ''default-src '' @ single_quoted ''none'' @ ''; style-src '' @ single_quoted ''unsafe-inline''
       @ ''; img-src '' @ single_quoted ''self'' @ '' data:; font-src '' @ single_quoted ''self'' @ '' data:; base-uri ''
       @ single_quoted ''none'' @ ''; form-action '' @ single_quoted ''none'' @ ''; frame-ancestors '' @ single_quoted ''none''),
      (''X-Content-Type-Options'', ''nosniff'')]"

definition writeStatusPage :: "int \<Rightarrow> string \<Rightarrow> web_reply" where
  "writeStatusPage status html = Page status (if html = [] then StatusHTML status else OwnHTML html)"

definition atoiDefault :: "string \<Rightarrow> int \<Rightarrow> int" where
  "atoiDefault s dflt = (case atoi (trim_space s) of (n, ok) \<Rightarrow> if ok then n else dflt)"

definition web_setting :: "string \<Rightarrow> string \<Rightarrow> db \<Rightarrow> string \<times> db" where
  "web_setting key dflt d =
     (case GetSetting key d of (Inl _, d') \<Rightarrow> (dflt, d') | (Inr v, d') \<Rightarrow> (if v = [] then dflt else v, d'))"

definition handleBanned :: web_reply where
  "handleBanned = Page 403 BannedHTML"

text \<open>\<open>hijack\<close> tells whether the connection can be taken over and closed.\<close>

definition handleDefault :: "bool \<Rightarrow> db \<Rightarrow> web_reply \<times> db" where
  "handleDefault hijack d =
     (let (mode, d1) = web_setting ''defaultsite.mode'' ''404'' d in
      if mode = ''redirect'' then
        (let (to, d2) = web_setting ''defaultsite.redirectTo'' [] d1 in
         (if to = [] then writeStatusPage 404 [] else RedirectTo to, d2))
      else if mode = ''custom'' then
        (let (s, d2) = web_setting ''defaultsite.statusCode'' ''200'' d1; (html, d3) = web_setting ''defaultsite.html'' [] d2 in
         (writeStatusPage (atoiDefault s 200) html, d3))
      else if mode = ''welcome'' then (Page 200 WelcomeHTML, d1)
      else if mode = ''close'' then (if hijack then ConnectionClosed else Teapot, d1)
      else
        (let (s, d2) = web_setting ''defaultsite.statusCode'' ''404'' d1 in (writeStatusPage (atoiDefault s 404) [], d2)))"

definition part_matches :: "int \<Rightarrow> string \<Rightarrow> bool" where
  "part_matches code part0 =
     (let part = trim_space part0 in
      case split_first (CHR ''-'') part of
        Some (a, b) \<Rightarrow>
          (let lo = atoiDefault (trim_space a) (- 1); hi = atoiDefault (trim_space b) (- 1) in
           lo \<ge> 0 \<and> hi \<ge> 0 \<and> lo \<le> code \<and> code \<le> hi)
      | None \<Rightarrow> atoiDefault part (- 1) = code)"

definition statusMatches :: "string \<Rightarrow> int \<Rightarrow> bool" where
  "statusMatches spec code \<longleftrightarrow> list_ex (part_matches code) (split_on (CHR '','') spec)"

definition ErrorPath :: string where
  "ErrorPath = ''/__xgress/error/''"

definition handleError :: "string \<Rightarrow> db \<Rightarrow> web_reply \<times> db" where
  "handleError path d =
     (case split_first (CHR ''/'') (trim_prefix path ErrorPath) of
        None \<Rightarrow> (PlainNotFound, d)
      | Some (hostID, statusStr) \<Rightarrow>
          (let status = atoiDefault statusStr 500 in
           case GetHost hostID d of
             (Inl _, d1) \<Rightarrow> (writeStatusPage status [], d1)
           | (Inr h, d1) \<Rightarrow>
               (case find (\<lambda>ep. statusMatches (ep_Status ep) status) (h_ErrorPages h) of
                  Some ep \<Rightarrow> (writeStatusPage status (ep_HTML ep), d1)
                | None \<Rightarrow> (writeStatusPage status [], d1))))"

section \<open>Status lists\<close>

text \<open>The notation the page editor documents: codes and ranges of codes, separated by commas.\<close>

datatype status_part = Code nat | Codes nat nat

fun show_status :: "status_part \<Rightarrow> string" where
  "show_status (Code n) = show_nat n"
| "show_status (Codes a b) = show_nat a @ ''-'' @ show_nat b"

fun status_in :: "status_part \<Rightarrow> int \<Rightarrow> bool" where
  "status_in (Code n) c = (c = int n)"
| "status_in (Codes a b) c = (int a \<le> c \<and> c \<le> int b)"

fun sane_status :: "status_part \<Rightarrow> bool" where
  "sane_status (Code n) = (n < 2 ^ 63)"
| "sane_status (Codes a b) = (a < 2 ^ 63 \<and> b < 2 ^ 63)"

lemma trim_show_nat: "trim_space (show_nat n) = show_nat n"
  by (simp add: trim_space_plain show_nat_nonempty hd_show_plain last_show_plain)

lemma atoiDefault_show: "n < 2 ^ 63 \<Longrightarrow> atoiDefault (show_nat n) dflt = int n"
  by (simp add: atoiDefault_def trim_show_nat atoi_show_nat)

lemma status_no_comma: "CHR '','' \<notin> set (show_status p)"
  by (cases p) (simp_all add: cron_notin)

lemma trim_show_status: "trim_space (show_status p) = show_status p"
proof (cases p)
  case (Codes a b)
  then show ?thesis
    using hd_show_plain [of a] last_show_plain [of b] show_nat_nonempty
    by (intro trim_space_plain) (simp_all add: hd_append)
qed (simp add: trim_show_nat)

lemma part_matches_show: "sane_status p \<Longrightarrow> part_matches c (show_status p) \<longleftrightarrow> status_in p c"
proof (cases p)
  case (Code n)
  assume "sane_status p"
  then show ?thesis
    using Code by (auto simp: part_matches_def trim_show_nat split_first_None cron_notin atoiDefault_show)
next
  case (Codes a b)
  assume s: "sane_status p"
  have "trim_space (show_nat a @ CHR ''-'' # show_nat b) = show_nat a @ CHR ''-'' # show_nat b"
    using trim_show_status [of p] Codes by simp
  then show ?thesis
    using s Codes by (simp add: part_matches_def split_first_append cron_notin trim_show_nat atoiDefault_show)
qed

text \<open>
  A status list means what it says: for every list of codes and ranges written in the notation of the
  page editor, the responder's matcher accepts exactly the codes that are listed or lie in a range.
\<close>

theorem status_list_matches:
  assumes "ps \<noteq> []" "\<forall>p \<in> set ps. sane_status p"
  shows "statusMatches (str_join '','' (map show_status ps)) c \<longleftrightarrow> (\<exists>p \<in> set ps. status_in p c)"
proof -
  have "split_on (CHR '','') (str_join '','' (map show_status ps)) = map show_status ps"
    using assms(1) by (simp add: split_on_str_join status_no_comma)
  then show ?thesis using assms(2) by (auto simp: statusMatches_def list_ex_iff part_matches_show)
qed

lemma status_list_matches_witness:
  "statusMatches (str_join '','' (map show_status [Code 404, Codes 500 503])) 502
    \<and> \<not> statusMatches (str_join '','' (map show_status [Code 404, Codes 500 503])) 405"
  using status_list_matches [of "[Code 404, Codes 500 503]" 502] status_list_matches [of "[Code 404, Codes 500 503]" 405] by simp

end
