(* ===== verification/Detections.thy ===== *)
theory Detections
  imports Edge Bans
begin

text \<open>
  From the firewall to the bans: what a finished transaction of \<open>internal/edge/waf.go\<close> reports to the
  security metrics, the queue between the collector and its worker (\<open>internal/secmetrics/collector.go\<close>)
  and the engine's observer at its end. Requests and the worker interleave freely: the pair of collector
  and engine moves by either step.
\<close>

section \<open>Reports\<close>

text \<open>A rule Coraza matched, and what a transaction says of itself once its phases are over.\<close>

record matched_rule =
  mr_ID :: int
  mr_Tags :: "string list"
  mr_ClientIP :: string
  mr_Message :: string
  mr_Severity :: int

record tx_report =
  tr_interrupted :: bool
  tr_matched :: "matched_rule list"

definition hasAttackTag :: "string list \<Rightarrow> bool" where
  "hasAttackTag tags = list_ex (\<lambda>t. has_prefix t ''attack-'') tags"

definition attack_rule :: "matched_rule \<Rightarrow> bool" where
  "attack_rule mr \<longleftrightarrow> mr_ID mr \<noteq> 0 \<and> hasAttackTag (mr_Tags mr)"

definition client_of :: "request \<Rightarrow> matched_rule \<Rightarrow> string" where
  "client_of r mr = (if mr_ClientIP mr = [] then fst (clientAddr r) else mr_ClientIP mr)"

definition rule_event :: "(string \<Rightarrow> string) \<Rightarrow> gotime \<Rightarrow> request \<Rightarrow> matched_rule \<Rightarrow> sec_event" where
  "rule_event uni now r mr = \<lparr>ev_At = now, ev_ClientIP = client_of r mr, ev_Host = hostOnly (rq_Host r),
     ev_Method = rq_Method r, ev_URI = rq_URI r, ev_RuleID = show_int (mr_ID mr), ev_Message = mr_Message mr,
     ev_Category = category uni (mr_Tags mr) (mr_Message mr), ev_Severity = mr_Severity mr, ev_Blocked = True\<rparr>"

definition recordTx ::
  "(string \<Rightarrow> string) \<Rightarrow> gotime \<Rightarrow> gotime \<Rightarrow> request \<Rightarrow> tx_report \<Rightarrow> collector option \<Rightarrow> collector option" where
  "recordTx uni zero now r rep sec =
     (case sec of
        None \<Rightarrow> None
      | Some c \<Rightarrow>
          Some (if \<not> tr_interrupted rep then c
                else fold (\<lambda>mr. Record_event uni zero now (rule_event uni now r mr)) (filter attack_rule (tr_matched rep)) c))"

section \<open>The worker\<close>

text \<open>The worker hands the oldest event to the engine, or has nothing to do.\<close>

definition worker_step :: "gotime \<Rightarrow> collector \<times> engine \<Rightarrow> (collector \<times> engine) option" where
  "worker_step now s =
     (case next_event (fst s) of None \<Rightarrow> None | Some (ev, c) \<Rightarrow> Some (c, onWAFEvent now ev (snd s)))"

text \<open>The worker until its queue is empty, when nothing is added meanwhile.\<close>

function drain :: "gotime \<Rightarrow> collector \<times> engine \<Rightarrow> collector \<times> engine" where
  "drain now s = (case worker_step now s of None \<Rightarrow> s | Some s' \<Rightarrow> drain now s')"
  by auto
termination
  by (relation "measure (\<lambda>(_, s). length (cl_events (fst s)))")
    (auto simp: worker_step_def next_event_def split: option.splits list.splits)

declare drain.simps [simp del]

lemma drain_fold: "drain now (c, e) = (c\<lparr>cl_events := []\<rparr>, waf_run (map (Pair now) (cl_events c)) e)"
proof (induction "cl_events c" arbitrary: c e)
  case Nil
  then show ?case by (subst drain.simps) (simp add: worker_step_def next_event_def waf_run_def)
next
  case (Cons ev es)
  have "drain now (c, e) = drain now (c\<lparr>cl_events := es\<rparr>, onWAFEvent now ev e)"
    by (subst drain.simps) (simp add: worker_step_def next_event_def flip: Cons(2))
  also have "\<dots> = (c\<lparr>cl_events := []\<rparr>, waf_run (map (Pair now) es) (onWAFEvent now ev e))"
    using Cons(1) [of "c\<lparr>cl_events := es\<rparr>" "onWAFEvent now ev e"] by simp
  finally show ?case by (simp add: waf_run_def flip: Cons(2))
qed


section \<open>Only attackers are banned\<close>

text \<open>The states that finished transactions and the worker reach, with the transactions so far.\<close>

inductive detected :: "(string \<Rightarrow> string) \<Rightarrow> gotime \<Rightarrow> engine \<Rightarrow> (request \<times> tx_report) list \<Rightarrow> collector \<times> engine \<Rightarrow> bool"
  for uni zero e0 where
  boot: "detected uni zero e0 [] (AddObserver new_collector, e0)"
| finished: "detected uni zero e0 txs (c, e) \<Longrightarrow> recordTx uni zero now r rep (Some c) = Some c'
    \<Longrightarrow> detected uni zero e0 (txs @ [(r, rep)]) (c', e)"
| worked: "detected uni zero e0 txs s \<Longrightarrow> worker_step now s = Some s' \<Longrightarrow> detected uni zero e0 txs s'"

definition accuses :: "string \<Rightarrow> request \<times> tx_report \<Rightarrow> bool" where
  "accuses ip t = (case t of (r, rep) \<Rightarrow> tr_interrupted rep \<and> (\<exists>mr \<in> set (tr_matched rep). attack_rule mr \<and> client_of r mr = ip))"

lemma queue_of_event: "set (cl_events (Record_event uni zero now ev c)) \<subseteq> insert (stamped uni zero now ev) (set (cl_events c))"
  by (auto simp: Record_event_def add_event_def stamped_def Let_def)

lemma stamped_ip [simp]: "ev_ClientIP (stamped uni zero now ev) = ev_ClientIP ev" "ev_Blocked (stamped uni zero now ev) = ev_Blocked ev"
  by (simp_all add: stamped_def Let_def)

lemma queue_of_rules:
  "ev \<in> set (cl_events (fold (\<lambda>mr. Record_event uni zero now (rule_event uni now r mr)) mrs c)) \<Longrightarrow>
    ev \<in> set (cl_events c) \<or> (\<exists>mr \<in> set mrs. ev_ClientIP ev = client_of r mr)"
proof (induction mrs arbitrary: c)
  case (Cons mr mrs)
  from Cons.IH [OF Cons.prems [simplified fold_simps(2) o_apply]] queue_of_event [of uni zero now "rule_event uni now r mr" c]
  show ?case by (auto simp: rule_event_def)
qed simp

lemma queue_of_tx:
  assumes "recordTx uni zero now r rep (Some c) = Some c'" "ev \<in> set (cl_events c')"
  shows "ev \<in> set (cl_events c) \<or> accuses (ev_ClientIP ev) (r, rep)"
proof (cases "tr_interrupted rep")
  case True
  with assms have "ev \<in> set (cl_events (fold (\<lambda>mr. Record_event uni zero now (rule_event uni now r mr)) (filter attack_rule (tr_matched rep)) c))"
    by (simp add: recordTx_def)
  from queue_of_rules [OF this] True show ?thesis by (auto simp: accuses_def)
qed (use assms in \<open>simp add: recordTx_def\<close>)

text \<open>What holds of every reachable pair: the events seen and those waiting stem from the transactions.\<close>

definition traced :: "ban_config \<Rightarrow> (request \<times> tx_report) list \<Rightarrow> collector \<times> engine \<Rightarrow> bool" where
  "traced cfg txs s \<longleftrightarrow> (\<exists>evs. windows_ok cfg evs (snd s)
     \<and> (\<forall>ev \<in> snd ` set evs \<union> set (cl_events (fst s)). \<exists>t \<in> set txs. accuses (ev_ClientIP ev) t))"

lemma traced_run:
  assumes "detected uni zero e0 txs s" "windows_ok cfg [] e0"
  shows "traced cfg txs s"
  using assms(1)
proof (induction rule: detected.induct)
  case boot
  show ?case unfolding traced_def
    by (rule exI [of _ "[]"]) (simp add: assms(2) AddObserver_def new_collector_def)
next
  case (finished txs c e now r rep c')
  then show ?case unfolding traced_def by (fastforce dest: queue_of_tx)
next
  case (worked txs s now s')
  from worked.IH obtain evs where evs: "windows_ok cfg evs (snd s)"
    "\<forall>ev \<in> snd ` set evs \<union> set (cl_events (fst s)). \<exists>t \<in> set txs. accuses (ev_ClientIP ev) t" by (auto simp: traced_def)
  obtain ev es where q: "cl_events (fst s) = ev # es" "s' = ((fst s)\<lparr>cl_events := es\<rparr>, onWAFEvent now ev (snd s))"
    using worked.hyps(2) by (auto simp: worker_step_def next_event_def split: list.splits)
  show ?case unfolding traced_def
    using windows_ok_step [OF evs(1), of now ev] evs(2) q by (intro exI [of _ "evs @ [(now, ev)]"]) auto
qed

lemma justified_accused:
  assumes "justified cfg evs ip" "1 \<le> bc_Threshold cfg"
  shows "\<exists>ev \<in> snd ` set evs. ev_ClientIP ev = ip"
proof -
  obtain n where "bc_Threshold cfg \<le> int (length (filter (\<lambda>t. fst (evs ! (n - 1)) - secs (bc_WindowSec cfg) < t) (blocks_of ip (take n evs))))"
    using assms(1) by (auto simp: justified_def)
  with assms(2) have "blocks_of ip (take n evs) \<noteq> []" by force
  then show ?thesis by (force simp: blocks_of_def filter_empty_conv dest: in_set_takeD)
qed

text \<open>
  C15: Only an attacker is banned: from an engine without bans, through any interleaving of finished
  requests with the worker of the metrics, a banned address is the client of a request the firewall
  interrupted and in which a rule with an attack tag matched; requests the firewall lets pass, and rules
  that only score, never lead to a ban.
\<close>

theorem only_attackers_banned:
  assumes "detected uni zero e0 txs (c, e)" "en_banConfig e0 = Some cfg" "1 \<le> bc_Threshold cfg"
    and "en_banHits e0 = []" "db_bans (en_db e0) = []" "row \<in> set (db_bans (en_db e))"
  shows "\<exists>t \<in> set txs. accuses (br_ip row) t"
proof -
  have "windows_ok cfg [] e0" using assms(2,4,5) by (simp add: windows_ok_def mget_or_def)
  from traced_run [OF assms(1) this] obtain evs where evs: "windows_ok cfg evs e"
    "\<forall>ev \<in> snd ` set evs \<union> set (cl_events c). \<exists>t \<in> set txs. accuses (ev_ClientIP ev) t" by (auto simp: traced_def)
  from evs(1) assms(6) have "justified cfg evs (br_ip row)" by (simp add: windows_ok_def)
  from justified_accused [OF this assms(3)] evs(2) show ?thesis by force
qed

section \<open>One request can be enough\<close>

lemma updated_ips:
  "br_ip ` set (map (\<lambda>r. if br_ip r = i then r\<lparr>br_reason := x, br_manual := m, br_hits := h, br_expires := t\<rparr> else r) rs)
    = br_ip ` set rs"
proof -
  have eq: "br_ip \<circ> (\<lambda>r. if br_ip r = i then r\<lparr>br_reason := x, br_manual := m, br_hits := h, br_expires := t\<rparr> else r) = br_ip" by auto
  show ?thesis by (simp only: set_map image_comp eq)
qed

lemma AddBan_no_fault:
  assumes "db_faults d = []"
  shows "br_ip ` set (db_bans (snd (AddBan t b d))) = insert (b_IP b) (br_ip ` set (db_bans d))"
    "db_faults (snd (AddBan t b d)) = []"
proof -
  show "br_ip ` set (db_bans (snd (AddBan t b d))) = insert (b_IP b) (br_ip ` set (db_bans d))"
  proof (cases "b_IP b \<in> br_ip ` set (db_bans d)")
    case True
    with assms updated_ips show ?thesis
      by (simp add: AddBan_def and_then_def stmt_def done_with_def insert_absorb del: set_map)
  next
    case False
    then have "map (\<lambda>r. if br_ip r = b_IP b then f r else r) (db_bans d) = db_bans d" for f by (intro map_idI) (metis imageI)
    with False assms show ?thesis by (simp add: AddBan_def and_then_def stmt_def)
  qed
  show "db_faults (snd (AddBan t b d)) = []" using assms by (auto simp: AddBan_def and_then_def stmt_def done_with_def)
qed

lemma ip_of_ban: "b_IP (ban_for cfg now ip n) = ip"
  by (simp add: ban_for_def)

lemma ban_db_bans:
  assumes "db_faults d = []"
  shows "br_ip ` set (db_bans (snd (ban_db now b d))) = insert (b_IP b) (br_ip ` set (db_bans d))" (is ?ips)
    and "db_faults (snd (ban_db now b d)) = []" (is ?faults)
proof -
  let ?banned = "\<exists>r \<in> set (db_bans d). br_ip r = b_IP b \<and> ban_active (unix_of now) r"
  have q: "IsActivelyBanned (unix_of now) (b_IP b) d = (Inr ?banned, d)" using assms by (simp add: IsActivelyBanned_def stmt_def)
  have "?ips \<and> ?faults"
  proof (cases ?banned)
    case True
    then have "ban_db now b d = (False, d)" by (simp add: ban_db_def q split: prod.splits)
    moreover have "b_IP b \<in> br_ip ` set (db_bans d)" using True by force
    ultimately show ?thesis using assms by (simp add: insert_absorb)
  next
    case False
    then have "ban_db now b d = (\<not> isl (fst (AddBan (unix_of now) b d)), snd (AddBan (unix_of now) b d))"
      by (auto simp: ban_db_def q split: prod.splits)
    with AddBan_no_fault [OF assms, of "unix_of now" b] show ?thesis by simp
  qed
  then show ?ips ?faults by auto
qed

lemma onWAFEvent_bans_grow:
  assumes "en_banConfig e = Some cfg" "db_faults (en_db e) = []"
  shows "br_ip ` set (db_bans (en_db e)) \<subseteq> br_ip ` set (db_bans (en_db (onWAFEvent now ev e)))"
    and "db_faults (en_db (onWAFEvent now ev e)) = []"
proof -
  have "br_ip ` set (db_bans (en_db e)) \<subseteq> br_ip ` set (db_bans (en_db (onWAFEvent now ev e)))
      \<and> db_faults (en_db (onWAFEvent now ev e)) = []"
  proof (cases "skips cfg ev")
    case False
    from onWAFEvent_count [OF assms(1) this refl, of now] ban_db_bans [OF assms(2), of now] assms(2) show ?thesis
      by (simp add: auto_ban_eq subset_insertI)
  qed (use assms in \<open>simp add: onWAFEvent_skip\<close>)
  then show "br_ip ` set (db_bans (en_db e)) \<subseteq> br_ip ` set (db_bans (en_db (onWAFEvent now ev e)))"
    "db_faults (en_db (onWAFEvent now ev e)) = []" by auto
qed

lemma waf_run_bans_grow:
  "en_banConfig e = Some cfg \<Longrightarrow> db_faults (en_db e) = [] \<Longrightarrow>
    br_ip ` set (db_bans (en_db e)) \<subseteq> br_ip ` set (db_bans (en_db (waf_run evs e)))"
proof (induction evs arbitrary: e)
  case (Cons x evs)
  obtain t ev where x: "x = (t, ev)" by (cases x)
  have "br_ip ` set (db_bans (en_db e)) \<subseteq> br_ip ` set (db_bans (en_db (onWAFEvent t ev e)))"
    using Cons.prems by (rule onWAFEvent_bans_grow)
  also have "\<dots> \<subseteq> br_ip ` set (db_bans (en_db (waf_run evs (onWAFEvent t ev e))))"
    using Cons.prems by (intro Cons.IH onWAFEvent_config onWAFEvent_bans_grow(2) [where cfg = cfg])
  finally show ?case by (simp add: x waf_run_def)
qed (simp add: waf_run_def)

lemma strikes_ban:
  assumes "en_banConfig e = Some cfg" "db_faults (en_db e) = []" "bc_Enabled cfg" "0 < secs (bc_WindowSec cfg)" "ip \<noteq> []"
    and "\<forall>ev \<in> set evs. ev_Blocked ev \<and> ev_ClientIP ev = ip"
    and "mget_or [] (en_banHits e) ip = replicate j now" "int j < bc_Threshold cfg" "bc_Threshold cfg \<le> int (j + length evs)"
  shows "ip \<in> br_ip ` set (db_bans (en_db (waf_run (map (Pair now) evs) e)))"
  using assms
proof (induction evs arbitrary: e j)
  case (Cons ev evs)
  then have ip: "ev_ClientIP ev = ip" and "\<not> skips cfg ev" by (auto simp: skips_def)
  have kept: "slide cfg now (mget_or [] (en_banHits e) ip) = replicate (Suc j) now"
    using Cons.prems(4,7) by (simp add: slide_def replicate_append_same)
  note step = onWAFEvent_count [OF Cons.prems(1) \<open>\<not> skips cfg ev\<close> refl, of now, unfolded ip kept length_replicate]
  show ?case
  proof (cases "bc_Threshold cfg \<le> int (Suc j)")
    case True
    then have "ip \<in> br_ip ` set (db_bans (en_db (onWAFEvent now ev e)))"
      using ban_db_bans [OF Cons.prems(2), of now "ban_for cfg now ip (Suc j)"] by (simp add: step auto_ban_eq ip_of_ban del: replicate_Suc)
    with waf_run_bans_grow [OF onWAFEvent_config [OF Cons.prems(1)] onWAFEvent_bans_grow(2) [OF Cons.prems(1,2)], of now ev "map (Pair now) evs"]
    show ?thesis by (auto simp: waf_run_def)
  next
    case False
    let ?e = "onWAFEvent now ev e"
    have e: "?e = e\<lparr>en_banHits := mput ip (replicate (Suc j) now) (en_banHits e)\<rparr>" using False step by (simp del: replicate_Suc)
    then have "mget_or [] (en_banHits ?e) ip = replicate (Suc j) now" by (simp add: mget_or_def del: replicate_Suc)
    then have "ip \<in> br_ip ` set (db_bans (en_db (waf_run (map (Pair now) evs) ?e)))"
      using Cons.prems e False by (intro Cons.IH [of _ "Suc j"]) (auto simp del: replicate_Suc)
    then show ?thesis by (simp add: waf_run_def)
  qed
qed simp

lemma queue_fills:
  assumes "0 < cl_observers c" "length (cl_events c) + length mrs \<le> observerQueue"
  shows "cl_events (fold (\<lambda>mr. Record_event uni zero now (rule_event uni now r mr)) mrs c)
    = cl_events c @ map (\<lambda>mr. stamped uni zero now (rule_event uni now r mr)) mrs"
  using assms
proof (induction mrs arbitrary: c)
  case (Cons mr mrs)
  let ?c = "Record_event uni zero now (rule_event uni now r mr) c"
  have "cl_events ?c = cl_events c @ [stamped uni zero now (rule_event uni now r mr)]" "0 < cl_observers ?c"
    using Cons.prems by (auto simp: Record_event_def add_event_def stamped_def Let_def)
  then show ?case using Cons.IH [of ?c] Cons.prems(2) by simp
qed simp

text \<open>
  C38: The threshold counts matched rules, not requests: a single interrupted request in which at least
  the threshold number of attack rules matched gets its client banned, from an engine that has seen
  nothing of it before, as soon as the worker has emptied its queue.
\<close>

theorem one_request_bans:
  assumes "en_banConfig e = Some cfg" "bc_Enabled cfg" "1 \<le> bc_Threshold cfg" "0 < secs (bc_WindowSec cfg)"
    and "db_faults (en_db e) = []" "mget_or [] (en_banHits e) ip = []" "0 < cl_observers c" "cl_events c = []"
    and "tr_interrupted rep" "mrs = filter attack_rule (tr_matched rep)" "\<forall>mr \<in> set mrs. client_of r mr = ip" "ip \<noteq> []"
    and "bc_Threshold cfg \<le> int (length mrs)" "length mrs \<le> observerQueue"
    and "recordTx uni zero t r rep (Some c) = Some c'" "drain now (c', e) = (c'', e')"
  shows "ip \<in> br_ip ` set (db_bans (en_db e'))"
proof -
  have q: "cl_events c' = map (\<lambda>mr. stamped uni zero t (rule_event uni t r mr)) mrs"
    using queue_fills [OF assms(7), of mrs uni zero t r] assms(8-10,14,15) by (simp add: recordTx_def)
  have "e' = waf_run (map (Pair now) (cl_events c')) e" using assms(16) by (simp add: drain_fold)
  moreover have "\<forall>ev \<in> set (cl_events c'). ev_Blocked ev \<and> ev_ClientIP ev = ip"
    using assms(11) by (auto simp: q rule_event_def)
  ultimately show ?thesis
    using strikes_ban [OF assms(1,5,2,4,12), of "cl_events c'" 0 now] assms(3,6,13) by (simp add: q)
qed

section \<open>Concrete requests\<close>

definition probe :: request where
  "probe = \<lparr>rq_Method = ''GET'', rq_Host = ''a.io'', rq_Path = ''/'', rq_RawQuery = [], rq_URI = ''/?q=1'', rq_Header = [],
     rq_TLS = False, rq_Remote = ''9.9.9.9:1''\<rparr>"

definition sqli_rule :: matched_rule where
  "sqli_rule = \<lparr>mr_ID = 942100, mr_Tags = [''attack-sqli''], mr_ClientIP = ''9.9.9.9'', mr_Message = ''SQL'', mr_Severity = 2\<rparr>"

definition two_rules :: tx_report where
  "two_rules = \<lparr>tr_interrupted = True, tr_matched = [sqli_rule, sqli_rule\<lparr>mr_ID := 942190\<rparr>]\<rparr>"

lemma two_rules_attack: "filter attack_rule (tr_matched two_rules) = [sqli_rule, sqli_rule\<lparr>mr_ID := 942190\<rparr>]"
  by (simp add: two_rules_def attack_rule_def sqli_rule_def hasAttackTag_def)

lemma one_request_bans_witness:
  "\<exists>c' c'' e'. recordTx id 0 5 probe two_rules (Some (AddObserver new_collector)) = Some c'
    \<and> drain 7 (c', quiet_engine) = (c'', e') \<and> ''9.9.9.9'' \<in> br_ip ` set (db_bans (en_db e'))"
proof -
  obtain c' where c': "recordTx id 0 5 probe two_rules (Some (AddObserver new_collector)) = Some c'" by (simp add: recordTx_def)
  obtain c'' e' where d: "drain 7 (c', quiet_engine) = (c'', e')" by fastforce
  have "''9.9.9.9'' \<in> br_ip ` set (db_bans (en_db e'))"
    by (rule one_request_bans [OF _ _ _ _ _ _ _ _ _ two_rules_attack [symmetric] _ _ _ _ c' d, where cfg = two_strikes])
      (simp_all add: quiet_engine_def two_strikes_def secs_600 empty_db_def mget_or_def AddObserver_def new_collector_def
        two_rules_def sqli_rule_def client_of_def)
  with c' d show ?thesis by blast
qed

lemma only_attackers_banned_witness:
  "\<exists>c e row. detected id 0 quiet_engine [(probe, two_rules)] (c, e) \<and> row \<in> set (db_bans (en_db e)) \<and> accuses (br_ip row) (probe, two_rules)"
proof -
  let ?ev = "\<lambda>mr. stamped id 0 5 (rule_event id 5 probe mr)" and ?m2 = "sqli_rule\<lparr>mr_ID := 942190\<rparr>"
  obtain c' where c': "recordTx id 0 5 probe two_rules (Some (AddObserver new_collector)) = Some c'" by (simp add: recordTx_def)
  have q: "cl_events c' = [?ev sqli_rule, ?ev ?m2]"
    using c' queue_fills [of "AddObserver new_collector" "[sqli_rule, ?m2]" id 0 5 probe] two_rules_attack
    by (auto simp: recordTx_def two_rules_def AddObserver_def new_collector_def)
  let ?e1 = "onWAFEvent 7 (?ev sqli_rule) quiet_engine"
  let ?e2 = "onWAFEvent 7 (?ev ?m2) ?e1"
  have r1: "detected id 0 quiet_engine [(probe, two_rules)] (c', quiet_engine)"
    using detected.finished [OF detected.boot c'] by simp
  have r2: "detected id 0 quiet_engine [(probe, two_rules)] (c'\<lparr>cl_events := [?ev ?m2]\<rparr>, ?e1)"
    by (rule detected.worked [OF r1, where now = 7]) (simp add: worker_step_def next_event_def q)
  have r3: "detected id 0 quiet_engine [(probe, two_rules)] (c'\<lparr>cl_events := []\<rparr>, ?e2)"
    by (rule detected.worked [OF r2, where now = 7]) (simp add: worker_step_def next_event_def)
  have "?e2 = waf_run (map (Pair 7) [?ev sqli_rule, ?ev ?m2]) quiet_engine" by (simp add: waf_run_def)
  moreover have "''9.9.9.9'' \<in> br_ip ` set (db_bans (en_db (waf_run (map (Pair 7) [?ev sqli_rule, ?ev ?m2]) quiet_engine)))"
    by (rule strikes_ban [where cfg = two_strikes and j = 0])
      (simp_all add: quiet_engine_def two_strikes_def secs_600 empty_db_def mget_or_def rule_event_def client_of_def sqli_rule_def)
  ultimately obtain row where row: "row \<in> set (db_bans (en_db ?e2))" by fastforce
  have "\<exists>t \<in> set [(probe, two_rules)]. accuses (br_ip row) t"
    by (rule only_attackers_banned [OF r3 _ _ _ _ row, where cfg = two_strikes])
      (simp_all add: quiet_engine_def two_strikes_def empty_db_def)
  with r3 row show ?thesis by auto
qed

end
