(* ===== verification/Liveness.thy ===== *)
theory Liveness
  imports Recovery
begin

text \<open>
  That the program keeps going: the supervisor never leaves Traefik down without somebody bringing it back,
  and repeated crashes reach the minimal static configuration whatever the database does.
\<close>

section \<open>Traefik is never left down\<close>

text \<open>
  The steps of the supervisor when the operating system starts what it is asked to and the program is not
  shutting down.
\<close>

inductive willing :: "sup_world \<Rightarrow> sup_world \<Rightarrow> bool" where
  exits: "pid \<in> set (w_live w) \<Longrightarrow> willing w (process_exit now err False pid w)"
| wakes: "0 < w_sleepers w \<Longrightarrow> willing w (respawn Starts now False w)"
| restarts: "willing w (snd (Restart w))"
| goes_on: "c \<in> set (w_restarts w) \<Longrightarrow> (case c of Some pid \<Rightarrow> pid \<notin> set (w_live w) | None \<Rightarrow> True)
    \<Longrightarrow> willing w (snd (restart_finish Starts now c w))"
| stops: "willing w (Stop w)"
| healthy: "willing w (health_timer now w)"
| trips: "willing w (TripCrashLoop w)"

lemma willing_step: "willing w w' \<Longrightarrow> sup_step w w'"
  by (induction rule: willing.induct) (auto intro: sup_step.intros)

definition attended :: "sup_world \<Rightarrow> bool" where
  "attended w \<longleftrightarrow> w_live w \<noteq> [] \<or> 0 < w_sleepers w \<or> w_restarts w \<noteq> [] \<or> sp_crashLoop (w_sup w) \<or> sp_wantStop (w_sup w)"

lemma spawn_starts: "w_live (snd (spawnLocked Starts now w)) = w_pids w # w_live w"
  "sp_state (w_sup (snd (spawnLocked Starts now w))) = StateRunning"
  by (simp_all add: spawnLocked_def)

lemma live_exit: "w_live (process_exit now err cancelled pid w) = remove1 pid (w_live w)"
  by (simp add: process_exit_def Let_def split: prod.split)

lemma attended_exit: "attended (process_exit now err False pid w)"
proof -
  obtain tripped s where n: "note_exit now err (w_sup w) = (tripped, s)" by fastforce
  have "sp_wantStop s = sp_wantStop (w_sup w)" using n by (auto simp: note_exit_def Let_def split: if_splits)
  then show ?thesis by (auto simp: process_exit_def n attended_def Let_def)
qed

lemma attended_step: "willing w w' \<Longrightarrow> attended w \<Longrightarrow> attended w'"
proof (induction rule: willing.induct)
  case (exits pid w now err)
  show ?case by (rule attended_exit)
next
  case (wakes w now)
  then show ?case by (simp add: respawn_def attended_def spawn_starts Let_def)
next
  case (restarts w)
  then show ?case by (auto simp: Restart_def stop_begin_def attended_def)
next
  case (goes_on c w now)
  then show ?case by (simp add: restart_finish_def attended_def spawn_starts)
next
  case (stops w)
  then show ?case by (auto simp: Stop_def stop_begin_def attended_def)
next
  case (healthy w now)
  then show ?case by (auto simp: health_timer_def attended_def split: option.splits)
next
  case (trips w)
  then show ?case by (auto simp: TripCrashLoop_def attended_def)
qed


section \<open>The ladder ends at the minimal configuration\<close>

text \<open>A run of crash-loop trips; each has the outcome of the file write, its time and an identifier.\<close>

definition recover_run :: "heal_libs \<Rightarrow> config \<Rightarrow> eng_cfg \<Rightarrow> (string option \<times> gotime \<times> string) list \<Rightarrow> machine \<Rightarrow> machine" where
  "recover_run HL pc cfg trips w = fold (\<lambda>(io, t, f). recoverTraefik HL pc cfg io t f) trips w"

lemma level_run_db [simp]: "en_recoverLevel (snd (run_db f e)) = en_recoverLevel e"
  by (simp add: run_db_def split: prod.splits sum.splits)

definition keeps_level :: "'a eop \<Rightarrow> bool" where
  "keeps_level f \<longleftrightarrow> (\<forall>e. en_recoverLevel (snd (f e)) = en_recoverLevel e)"

named_theorems keeps_level_intros "operations that keep the ladder's position"

lemma keeps_level_then [keeps_level_intros]: "keeps_level f \<Longrightarrow> (\<And>x. keeps_level (g x)) \<Longrightarrow> keeps_level (e_then f g)"
  by (simp add: keeps_level_def e_then_def split: prod.splits sum.splits) (metis snd_conv)

lemma keeps_level_basic [keeps_level_intros]:
  "keeps_level (run_db f)" "keeps_level (e_return x)" "keeps_level (e_fail y)" "keeps_level (e_ignore (run_db f))"
  "keeps_level (e_update (sync_edge cfg hosts flags))" "keeps_level (e_update (\<lambda>e. (set_served res e)\<lparr>en_version := v\<rparr>))"
  "keeps_level (e_update (\<lambda>e. e\<lparr>en_rendered := r\<rparr>))"
  by (simp_all add: keeps_level_def e_return_def e_fail_def e_ignore_def e_update_def sync_edge_def set_served_def)

lemma renderConfig_keeps_level [keeps_level_intros]: "keeps_level (renderConfig L uni cfg now)"
  unfolding renderConfig_def by (intro keeps_level_intros) (auto intro: keeps_level_intros split: sum.split)

lemma Reload_keeps_level: "keeps_level (Reload L uni cfg now)"
proof -
  have served: "keeps_level (\<lambda>e. if C e then (Inr res, set_served res e) else f e)" if "keeps_level f" for C f and res :: render_result
    using that by (simp add: keeps_level_def set_served_def)
  show ?thesis unfolding Reload_def
    by (intro keeps_level_intros) (auto split: prod.split intro!: keeps_level_intros served)
qed

lemma level_run_dbD: "run_db f e = (x, e') \<Longrightarrow> en_recoverLevel e' = en_recoverLevel e"
  using level_run_db [of f e] by simp

lemma Rollback_keeps_level: "keeps_level (Rollback now v)"
  unfolding Rollback_def
  by (intro keeps_level_intros) (auto simp: keeps_level_def e_then_def e_ignore_def e_update_def Let_def split: prod.splits sum.splits
    dest: level_run_dbD)

lemma lastGood_level: "lastGoodVersion e = (v, e') \<Longrightarrow> en_recoverLevel e' = en_recoverLevel e"
  by (auto simp: lastGoodVersion_def Let_def dest: level_run_dbD split: prod.splits sum.splits)

lemma level_steps:
  "level0 HL cfg now e = (a, e') \<Longrightarrow> en_recoverLevel e' = en_recoverLevel e"
  "level1 HL cfg now e = (a, e') \<Longrightarrow> en_recoverLevel e' = en_recoverLevel e"
proof -
  show "level0 HL cfg now e = (a, e') \<Longrightarrow> en_recoverLevel e' = en_recoverLevel e"
    using Reload_keeps_level by (auto simp: level0_def keeps_level_def)
  show "level1 HL cfg now e = (a, e') \<Longrightarrow> en_recoverLevel e' = en_recoverLevel e"
    using Reload_keeps_level Rollback_keeps_level
    by (auto simp: level1_def keeps_level_def split: prod.splits option.splits dest: lastGood_level)
qed

lemma recover_level:
  assumes "ec_TraefikManaged cfg"
  shows "en_recoverLevel (mc_eng (recoverTraefik HL pc cfg io t f w)) = Suc (en_recoverLevel (mc_eng w))"
proof -
  let ?e = "(mc_eng w)\<lparr>en_recoverLevel := Suc (en_recoverLevel (mc_eng w))\<rparr>"
  obtain a0 e0 where l0: "level0 HL cfg t ?e = (a0, e0)" by fastforce
  obtain a1 e1 where l1: "level1 HL cfg t ?e = (a1, e1)" by fastforce
  have "mc_eng (snd (writeMinimalStatic HL pc io w')) = mc_eng w'" for w'
    by (simp add: writeMinimalStatic_def split: sum.split option.split)
  with level_steps(1) [OF l0] level_steps(2) [OF l1] l0 l1 assms show ?thesis
    by (cases "en_recoverLevel (mc_eng w) = 0"; cases "en_recoverLevel (mc_eng w) = 1")
      (simp_all add: recoverTraefik_def on_engine_def Let_def)
qed

lemma recover_run_level:
  assumes "ec_TraefikManaged cfg"
  shows "en_recoverLevel (mc_eng (recover_run HL pc cfg trips w)) = en_recoverLevel (mc_eng w) + length trips"
  by (induction trips arbitrary: w) (auto simp: recover_run_def recover_level [OF assms])

text \<open>
  C18: Repeated crashes end at the minimal configuration: with Traefik managed, after three recoveries
  without a reset in between, whatever the database and the rendering did in the first two, every further
  recovery whose file can be written leaves exactly the minimal static configuration, with its entry points
  and the provider and nothing else, and asks for a restart.
\<close>

theorem ladder_reaches_minimal:
  assumes "ec_TraefikManaged cfg" "2 \<le> en_recoverLevel (mc_eng w) + length trips"
    and "RenderStatic (hl_yaml HL) ((static_of pc)\<lparr>sg_Minimal := True\<rparr>) = Inr doc"
  shows "let w' = recover_run HL pc cfg (trips @ [(None, t, f)]) w; before = recover_run HL pc cfg trips w in
    mc_static w' = Some doc \<and> mc_sup w' = snd (Restart (mc_sup before))"
proof -
  let ?b = "recover_run HL pc cfg trips w"
  have "2 \<le> en_recoverLevel (mc_eng ?b)" using assms(2) by (simp add: recover_run_level [OF assms(1)])
  then have "en_recoverLevel (mc_eng ?b) \<noteq> 0" "en_recoverLevel (mc_eng ?b) \<noteq> 1" by simp_all
  with assms(1,3) have "mc_static (recoverTraefik HL pc cfg None t f ?b) = Some doc
      \<and> mc_sup (recoverTraefik HL pc cfg None t f ?b) = snd (Restart (mc_sup ?b))"
    by (simp add: recoverTraefik_def writeMinimalStatic_def Let_def)
  then show ?thesis by (simp add: recover_run_def)
qed

section \<open>Concrete runs\<close>


lemma ladder_reaches_minimal_witness:
  "mc_static (recover_run sample_heal (env_config ascii_libs []) sample_cfg
      ([(None, 0, ''a''), (None, 1, ''b'')] @ [(None, 2, ''c'')]) crashed_machine) = Some []"
proof -
  have "ec_TraefikManaged sample_cfg" by (simp add: sample_cfg_def)
  from ladder_reaches_minimal [OF this, of crashed_machine "[(None, 0, ''a''), (None, 1, ''b'')]" sample_heal "env_config ascii_libs []" "[]" 2 "''c''"]
  show ?thesis by (simp add: sample_heal_def RenderStatic_def Let_def)
qed

end
