(* ===== verification/StoreProps.thy ===== *)
theory StoreProps
  imports Store
begin

text \<open>
  The constraints of the schema as an invariant of the tables: every writing method of the store, with any
  statement failing, keeps the primary keys and the unique columns, so that a read by key is unambiguous.
\<close>

section \<open>The writing methods\<close>

datatype store_op =
    DoCreateUser int string user | DoCreateFirstUser int string user | DoUpdateUser int user | DoDeleteUser string
  | DoCreateSession session | DoGetSession gotime string | DoDeleteSession string | DoPurgeExpiredSessions int
  | DoCreateHost int string host | DoUpdateHost int host | DoDeleteHost string
  | DoCreateMiddleware int string middleware | DoUpdateMiddleware int middleware | DoDeleteMiddleware string
  | DoCreateAccessList int string access_list | DoUpdateAccessList int access_list | DoDeleteAccessList string
  | DoCreateCertificate int string certificate | DoUpdateCertificate int certificate | DoDeleteCertificate string
  | DoCreateDNSProvider int string dns_provider | DoDeleteDNSProvider string
  | DoCreateACMEAccount int string acme_account | DoSetSetting string string | DoAddAudit gotime string audit_entry
  | DoAddSnapshot int config_snapshot | DoPruneSnapshots int
  | DoCreateSchedule int string schedule | DoDeleteSchedule string
  | DoAcquireLease int string string duration
  | DoAddBan int ban | DoDeleteBan string | DoPruneExpiredBans int

fun run_op :: "(string \<Rightarrow> string) \<Rightarrow> store_op \<Rightarrow> db \<Rightarrow> db" where
  "run_op sha (DoCreateUser n f u) d = snd (CreateUser n f u d)"
| "run_op sha (DoCreateFirstUser n f u) d = snd (CreateFirstUser n f u d)"
| "run_op sha (DoUpdateUser n u) d = snd (UpdateUser n u d)"
| "run_op sha (DoDeleteUser i) d = snd (DeleteUser i d)"
| "run_op sha (DoCreateSession s) d = snd (CreateSession sha s d)"
| "run_op sha (DoGetSession n t) d = snd (GetSession sha n t d)"
| "run_op sha (DoDeleteSession t) d = snd (DeleteSession sha t d)"
| "run_op sha (DoPurgeExpiredSessions n) d = snd (PurgeExpiredSessions n d)"
| "run_op sha (DoCreateHost n f h) d = snd (CreateHost n f h d)"
| "run_op sha (DoUpdateHost n h) d = snd (UpdateHost n h d)"
| "run_op sha (DoDeleteHost i) d = snd (DeleteHost i d)"
| "run_op sha (DoCreateMiddleware n f m) d = snd (CreateMiddleware n f m d)"
| "run_op sha (DoUpdateMiddleware n m) d = snd (UpdateMiddleware n m d)"
| "run_op sha (DoDeleteMiddleware i) d = snd (DeleteMiddleware i d)"
| "run_op sha (DoCreateAccessList n f a) d = snd (CreateAccessList n f a d)"
| "run_op sha (DoUpdateAccessList n a) d = snd (UpdateAccessList n a d)"
| "run_op sha (DoDeleteAccessList i) d = snd (DeleteAccessList i d)"
| "run_op sha (DoCreateCertificate n f c) d = snd (CreateCertificate n f c d)"
| "run_op sha (DoUpdateCertificate n c) d = snd (UpdateCertificate n c d)"
| "run_op sha (DoDeleteCertificate i) d = snd (DeleteCertificate i d)"
| "run_op sha (DoCreateDNSProvider n f p) d = snd (CreateDNSProvider n f p d)"
| "run_op sha (DoDeleteDNSProvider i) d = snd (DeleteDNSProvider i d)"
| "run_op sha (DoCreateACMEAccount n f a) d = snd (CreateACMEAccount n f a d)"
| "run_op sha (DoSetSetting k v) d = snd (SetSetting k v d)"
| "run_op sha (DoAddAudit t f e) d = snd (AddAudit t f e d)"
| "run_op sha (DoAddSnapshot n s) d = snd (AddSnapshot n s d)"
| "run_op sha (DoPruneSnapshots k) d = snd (PruneSnapshots k d)"
| "run_op sha (DoCreateSchedule n f s) d = snd (CreateSchedule n f s d)"
| "run_op sha (DoDeleteSchedule i) d = snd (DeleteSchedule i d)"
| "run_op sha (DoAcquireLease n name holder ttl) d = snd (AcquireLease n name holder ttl d)"
| "run_op sha (DoAddBan n b) d = snd (AddBan n b d)"
| "run_op sha (DoDeleteBan i) d = snd (DeleteBan i d)"
| "run_op sha (DoPruneExpiredBans n) d = snd (PruneExpiredBans n d)"

section \<open>The schema's constraints\<close>

definition schema_ok :: "db \<Rightarrow> bool" where
  "schema_ok d \<longleftrightarrow> users.ok d \<and> sessions.ok d \<and> hosts.ok d \<and> middlewares.ok d \<and> access_lists.ok d \<and> certs.ok d
     \<and> dns.ok d \<and> schedules.ok d \<and> distinct (map acc_ID (db_accounts d))
     \<and> distinct (map (\<lambda>a. (acc_Email a, acc_CADirURL a)) (db_accounts d)) \<and> wf_gomap (db_settings d)
     \<and> distinct (map ae_ID (db_audit d)) \<and> distinct (map sn_Version (db_snapshots d)) \<and> wf_gomap (db_leases d)
     \<and> distinct (map br_ip (db_bans d))"

text \<open>An operation that keeps the constraints.\<close>

definition keeps_schema :: "'a dbop \<Rightarrow> bool" where
  "keeps_schema f \<longleftrightarrow> (\<forall>d. schema_ok d \<longrightarrow> schema_ok (snd (f d)))"

named_theorems schema "operations that keep the schema's constraints"

lemma schema_faults [simp]: "schema_ok (d\<lparr>db_faults := fs\<rparr>) = schema_ok d"
  by (simp add: schema_ok_def)

lemma schema_stmt: "(\<And>d. schema_ok d \<Longrightarrow> schema_ok (snd (f d))) \<Longrightarrow> keeps_schema (stmt f)"
  by (auto simp: keeps_schema_def stmt_def split: list.splits bool.splits)

lemma schema_then [schema]: "keeps_schema f \<Longrightarrow> (\<And>x. keeps_schema (g x)) \<Longrightarrow> keeps_schema (and_then f g)"
  by (auto simp: keeps_schema_def and_then_def split: prod.splits sum.splits)

lemma schema_done [schema]: "keeps_schema (done_with x)"
  by (simp add: keeps_schema_def done_with_def)

lemma schema_get [schema]: "keeps_schema (t_get rd P)"
  unfolding t_get_def by (rule schema_stmt) simp

text \<open>A table among the others: its writer keeps the constraints of the rest.\<close>

locale schema_table = table rd wr key uniq
  for rd :: "db \<Rightarrow> 'r list" and wr :: "'r list \<Rightarrow> db \<Rightarrow> db" and key uniq :: "'r \<Rightarrow> string" +
  assumes schema_wr: "schema_ok d \<Longrightarrow> schema_ok (wr rows d) = (distinct (map key rows) \<and> distinct (map uniq rows))"
    and schema_rd: "schema_ok d \<Longrightarrow> distinct (map key (rd d)) \<and> distinct (map uniq (rd d))"
begin

lemma insert_keeps: "keeps_schema (t_insert rd wr key uniq r)"
  unfolding t_insert_def by (rule schema_stmt) (auto simp: schema_wr dest: schema_rd)

lemma delete_keeps: "keeps_schema (t_delete rd wr P)"
  unfolding t_delete_def by (rule schema_stmt) (auto simp: schema_wr distinct_map_filter dest: schema_rd)

lemma update_keeps:
  assumes "\<And>x. key (f x) = key x"
  shows "keeps_schema (t_update rd wr key uniq k f)"
proof -
  have "map key (map (\<lambda>x. if key x = k then f x else x) rows) = map key rows" for rows using assms by simp
  then show ?thesis unfolding t_update_def
    by (intro schema_stmt) (auto simp: schema_wr Let_def simp del: map_map dest: schema_rd)
qed

end

lemmas table_oks = users.ok_def sessions.ok_def hosts.ok_def middlewares.ok_def access_lists.ok_def certs.ok_def dns.ok_def schedules.ok_def

interpretation s_users: schema_table db_users wr_users usr_ID usr_Email by unfold_locales (auto simp: schema_ok_def table_oks)
interpretation s_sessions: schema_table db_sessions wr_sessions ses_Token ses_Token by unfold_locales (auto simp: schema_ok_def table_oks)
interpretation s_hosts: schema_table db_hosts wr_hosts hr_id hr_id by unfold_locales (auto simp: schema_ok_def table_oks)
interpretation s_middlewares: schema_table db_middlewares wr_middlewares mw_ID mw_Name by unfold_locales (auto simp: schema_ok_def table_oks)
interpretation s_access_lists: schema_table db_access_lists wr_access_lists al_ID al_Name by unfold_locales (auto simp: schema_ok_def table_oks)
interpretation s_certs: schema_table db_certs wr_certs c_ID c_ID by unfold_locales (auto simp: schema_ok_def table_oks)
interpretation s_dns: schema_table db_dns wr_dns dp_ID dp_Name by unfold_locales (auto simp: schema_ok_def table_oks)
interpretation s_schedules: schema_table db_schedules wr_schedules sc_ID sc_ID by unfold_locales (auto simp: schema_ok_def table_oks)

lemmas insert_schema [schema] = s_users.insert_keeps s_sessions.insert_keeps s_hosts.insert_keeps s_middlewares.insert_keeps
  s_access_lists.insert_keeps s_certs.insert_keeps s_dns.insert_keeps s_schedules.insert_keeps

lemmas delete_schema [schema] = s_users.delete_keeps s_sessions.delete_keeps s_hosts.delete_keeps s_middlewares.delete_keeps
  s_access_lists.delete_keeps s_certs.delete_keeps s_dns.delete_keeps s_schedules.delete_keeps

lemma update_schema [schema]:
  "keeps_schema (UpdateUser now u)" "keeps_schema (UpdateHost now h)" "keeps_schema (UpdateMiddleware now m)"
  "keeps_schema (UpdateAccessList now a)" "keeps_schema (UpdateCertificate now c)"
  unfolding UpdateUser_def UpdateHost_def UpdateMiddleware_def UpdateAccessList_def UpdateCertificate_def
  by (auto intro!: s_users.update_keeps s_hosts.update_keeps s_middlewares.update_keeps s_access_lists.update_keeps s_certs.update_keeps)

text \<open>The rows that have statements of their own.\<close>

lemma own_schema [schema]:
  "keeps_schema (CreateFirstUser now f u)" "keeps_schema (GetSession sha t tok)" "keeps_schema (CreateACMEAccount now f a)"
  "keeps_schema (SetSetting k v)" "keeps_schema (AddAudit t f e)" "keeps_schema (AddSnapshot now s)"
  "keeps_schema (PruneSnapshots n)" "keeps_schema (DeleteBan i)" "keeps_schema (PruneExpiredBans now)"
proof -
  show "keeps_schema (CreateFirstUser now f u)" unfolding CreateFirstUser_def
    by (rule schema_stmt) (auto simp: schema_ok_def table_oks)
  have "keeps_schema (DeleteSession sha tok)" unfolding DeleteSession_def by (intro schema)
  then have "keeps_schema (\<lambda>d. if t > ses_ExpiresAt s then (Inl NotFound, snd (DeleteSession sha tok d)) else (Inr (s\<lparr>ses_Token := tok\<rparr>), d))" for s :: session
    by (simp add: keeps_schema_def)
  then show "keeps_schema (GetSession sha t tok)" unfolding GetSession_def by (intro schema)
  show "keeps_schema (CreateACMEAccount now f a)" unfolding CreateACMEAccount_def
    by (rule schema_stmt) (auto simp: schema_ok_def table_oks Let_def)
  show "keeps_schema (SetSetting k v)" unfolding SetSetting_def
    by (intro schema schema_stmt) (auto simp: schema_ok_def table_oks schema_done intro!: schema_stmt)
  show "keeps_schema (AddAudit t f e)" unfolding AddAudit_def
    by (rule schema_stmt) (auto simp: schema_ok_def table_oks Let_def)
  show "keeps_schema (AddSnapshot now s)" unfolding AddSnapshot_def
    by (rule schema_stmt) (auto simp: schema_ok_def table_oks)
  show "keeps_schema (PruneSnapshots n)" unfolding PruneSnapshots_def
    by (rule schema_stmt) (auto simp: schema_ok_def table_oks distinct_map_filter Let_def)
  show "keeps_schema (DeleteBan i)" unfolding DeleteBan_def
    by (rule schema_stmt) (auto simp: schema_ok_def table_oks distinct_map_filter)
  show "keeps_schema (PruneExpiredBans now)" unfolding PruneExpiredBans_def
    by (rule schema_stmt) (auto simp: schema_ok_def table_oks distinct_map_filter)
qed

lemma schema_bans: "schema_ok d \<Longrightarrow> distinct (map br_ip rows) \<Longrightarrow> schema_ok (d\<lparr>db_bans := rows\<rparr>)"
  by (simp add: schema_ok_def table_oks)

lemma ban_schema [schema]: "keeps_schema (AddBan now b)"
proof -
  have upd: "schema_ok (d\<lparr>db_bans := map (\<lambda>r. if br_ip r = b_IP b then r\<lparr>br_reason := b_Reason b, br_manual := b_Manual b,
      br_hits := b_Hits b, br_expires := ban_expiry b\<rparr> else r) (db_bans d)\<rparr>)" if "schema_ok d" for d
  proof -
    have "map br_ip (map (\<lambda>r. if br_ip r = b_IP b then r\<lparr>br_reason := b_Reason b, br_manual := b_Manual b,
      br_hits := b_Hits b, br_expires := ban_expiry b\<rparr> else r) rows) = map br_ip rows" for rows :: "ban_row list" by simp
    moreover have "distinct (map br_ip (db_bans d))" using that by (simp add: schema_ok_def)
    ultimately show ?thesis by (intro schema_bans [OF that]) (simp only:)
  qed
  have ins: "schema_ok (d\<lparr>db_bans := db_bans d @ [r]\<rparr>)" if "schema_ok d" "br_ip r \<notin> br_ip ` set (db_bans d)" for d r
    using that by (simp add: schema_ok_def table_oks)
  have "keeps_schema (if u then done_with () else stmt (\<lambda>d. if b_IP b \<in> br_ip ` set (db_bans d) then (Inl Conflict, d)
      else (Inr (), d\<lparr>db_bans := db_bans d @ [\<lparr>br_ip = b_IP b, br_reason = b_Reason b, br_manual = b_Manual b,
         br_hits = b_Hits b, br_created = now, br_expires = ban_expiry b\<rparr>]\<rparr>)))" for u
    by (simp add: schema_done) (intro impI schema_stmt, auto intro!: ins)
  then show ?thesis unfolding AddBan_def by (intro schema schema_stmt) (simp_all add: upd)
qed

lemma lease_schema: "schema_ok d \<Longrightarrow> schema_ok (snd (AcquireLease now name holder ttl d))"
proof -
  have lease: "schema_ok (d\<lparr>db_leases := mput k v (db_leases d)\<rparr>)" if "schema_ok d" for d k v
    using that by (simp add: schema_ok_def table_oks)
  have "keeps_schema (lease_update now name holder x)" for x
    unfolding lease_update_def by (rule schema_stmt) (auto intro: lease split: option.split)
  moreover have "keeps_schema (lease_insert name holder x)" for x
    unfolding lease_insert_def by (rule schema_stmt) (auto intro: lease)
  ultimately show "schema_ok d \<Longrightarrow> schema_ok (snd (AcquireLease now name holder ttl d))"
    unfolding keeps_schema_def AcquireLease_def by (auto split: prod.splits sum.splits bool.splits) (metis snd_conv)+
qed

lemma run_op_schema:
  assumes "schema_ok d"
  shows "schema_ok (run_op sha x d)"
proof -
  have k: "keeps_schema f \<Longrightarrow> schema_ok (snd (f d))" for f :: "'a dbop" using assms by (simp add: keeps_schema_def)
  show ?thesis
    by (cases x)
      (simp_all add: lease_schema [OF assms] k schema CreateUser_def DeleteUser_def CreateSession_def DeleteSession_def
        PurgeExpiredSessions_def CreateHost_def DeleteHost_def CreateMiddleware_def DeleteMiddleware_def CreateAccessList_def
        DeleteAccessList_def CreateCertificate_def DeleteCertificate_def CreateDNSProvider_def DeleteDNSProvider_def
        CreateSchedule_def DeleteSchedule_def)
qed


end
