(* ===== verification/Migrate.thy ===== *)
theory Migrate
  imports Config
begin

text \<open>
  Opening the database, \<open>internal/store/store.go\<close>: \<open>Open\<close> with its choice of dialect, the placeholders that
  \<open>rebind\<close> numbers for Postgres, and \<open>migrate\<close> over the scripts of \<open>internal/store/migrations\<close>. A statement
  can fail for reasons outside the program; \<open>sm_faults\<close> decides, one entry per statement.
\<close>

section \<open>Dialects and placeholders\<close>

datatype dialect = DialectSQLite | DialectPostgres

text \<open>The loop of \<open>rebind\<close>: queries are ASCII, so its runes are bytes. \<open>n\<close> counts the placeholders so far.\<close>

fun number_placeholders :: "nat \<Rightarrow> string \<Rightarrow> string" where
  "number_placeholders n [] = []"
| "number_placeholders n (c # cs) =
     (if c = CHR ''?'' then CHR ''$'' # show_nat (Suc n) @ number_placeholders (Suc n) cs
      else c # number_placeholders n cs)"

definition rebind :: "dialect \<Rightarrow> string \<Rightarrow> string" where
  "rebind dia query = (if dia \<noteq> DialectPostgres then query else number_placeholders 0 query)"

section \<open>The schema\<close>

text \<open>The statements the scripts use; each names what it creates and an index the table it is on.\<close>

datatype ddl = CreateTable string | CreateIndex string string

text \<open>The scripts, statement by statement.\<close>

definition script_0001 :: "ddl list" where
  "script_0001 =
     [CreateTable ''users'', CreateTable ''sessions'',
      CreateIndex ''idx_sessions_user'' ''sessions'', CreateIndex ''idx_sessions_expires'' ''sessions'',
      CreateTable ''hosts'', CreateIndex ''idx_hosts_kind'' ''hosts'',
      CreateTable ''middlewares'', CreateTable ''certificates'',
      CreateTable ''acme_accounts'', CreateIndex ''idx_acme_email_ca'' ''acme_accounts'',
      CreateTable ''dns_providers'', CreateTable ''listeners'', CreateTable ''settings'',
      CreateTable ''audit_log'', CreateIndex ''idx_audit_at'' ''audit_log'',
      CreateTable ''config_snapshots'']"

definition script_0002 :: "ddl list" where
  "script_0002 = [CreateTable ''access_lists'']"

definition script_0003 :: "ddl list" where
  "script_0003 = [CreateTable ''schedules'', CreateIndex ''idx_schedules_host'' ''schedules'', CreateTable ''leases'']"

definition script_0004 :: "ddl list" where
  "script_0004 = [CreateTable ''bans'', CreateIndex ''idx_bans_expires'' ''bans'']"

text \<open>An entry of the embedded directory: its name, and its statements unless it is a directory.\<close>

type_synonym dir_entry = "string \<times> ddl list option"

definition migrationsFS :: "dir_entry list" where
  "migrationsFS =
     [(''0001_init.sql'', Some script_0001), (''0002_access_lists.sql'', Some script_0002),
      (''0003_schedules_locks.sql'', Some script_0003), (''0004_bans.sql'', Some script_0004)]"

text \<open>
  What is there: the tables and indexes in the order of their creation, and the rows of
  \<open>schema_migrations\<close>, None while that table does not exist.
\<close>

record schema =
  sm_objects :: "string list"
  sm_applied :: "string list option"
  sm_faults :: "bool list"

definition fresh_schema :: schema where
  "fresh_schema = \<lparr>sm_objects = [], sm_applied = None, sm_faults = []\<rparr>"

text \<open>A statement: None when it fails.\<close>

definition sm_stmt :: "(schema \<Rightarrow> 'a option \<times> schema) \<Rightarrow> schema \<Rightarrow> 'a option \<times> schema" where
  "sm_stmt f s =
     (case sm_faults s of
        [] \<Rightarrow> f s
      | True # fs \<Rightarrow> (None, s\<lparr>sm_faults := fs\<rparr>)
      | False # fs \<Rightarrow> f (s\<lparr>sm_faults := fs\<rparr>))"

definition add_object :: "string \<Rightarrow> schema \<Rightarrow> schema" where
  "add_object x s = (if x \<in> set (sm_objects s) then s else s\<lparr>sm_objects := sm_objects s @ [x]\<rparr>)"

definition run_ddl :: "ddl \<Rightarrow> schema \<Rightarrow> unit option \<times> schema" where
  "run_ddl c = sm_stmt (\<lambda>s.
     case c of
       CreateTable t \<Rightarrow> (Some (), add_object t s)
     | CreateIndex i t \<Rightarrow> if t \<in> set (sm_objects s) then (Some (), add_object i s) else (None, s))"

fun run_all :: "ddl list \<Rightarrow> schema \<Rightarrow> unit option \<times> schema" where
  "run_all [] s = (Some (), s)"
| "run_all (c # cs) s = (case run_ddl c s of (None, s') \<Rightarrow> (None, s') | (Some _, s') \<Rightarrow> run_all cs s')"

text \<open>
  A script sent in one call: SQLite keeps the statements before the failing one, Postgres runs the
  statements of one call in one transaction.
\<close>

definition execScript :: "dialect \<Rightarrow> ddl list \<Rightarrow> schema \<Rightarrow> unit option \<times> schema" where
  "execScript dia script s =
     (case run_all script s of
        (Some u, s') \<Rightarrow> (Some u, s')
      | (None, s') \<Rightarrow> (None, if dia = DialectPostgres then s'\<lparr>sm_objects := sm_objects s\<rparr> else s'))"

section \<open>Migration\<close>

definition create_tracking :: "schema \<Rightarrow> unit option \<times> schema" where
  "create_tracking = sm_stmt (\<lambda>s. (Some (), s\<lparr>sm_applied := Some (case sm_applied s of Some rows \<Rightarrow> rows | None \<Rightarrow> [])\<rparr>))"

definition count_applied :: "string \<Rightarrow> schema \<Rightarrow> nat option \<times> schema" where
  "count_applied name = sm_stmt (\<lambda>s. (map_option (\<lambda>rows. count_list rows name) (sm_applied s), s))"

definition record_applied :: "string \<Rightarrow> schema \<Rightarrow> unit option \<times> schema" where
  "record_applied name = sm_stmt (\<lambda>s.
     case sm_applied s of
       None \<Rightarrow> (None, s)
     | Some rows \<Rightarrow> if name \<in> set rows then (None, s) else (Some (), s\<lparr>sm_applied := Some (rows @ [name])\<rparr>))"

definition migration_names :: "dir_entry list \<Rightarrow> string list" where
  "migration_names fs = sort (map fst (filter (\<lambda>(n, body). body \<noteq> None \<and> has_suffix n ''.sql'') fs))"

datatype migrate_err = TrackingFailed | CountFailed | ReadFailed string | ScriptFailed string | RecordFailed string

definition migrate_one :: "dialect \<Rightarrow> dir_entry list \<Rightarrow> string \<Rightarrow> schema \<Rightarrow> migrate_err option \<times> schema" where
  "migrate_one dia fs name s =
     (case count_applied name s of
        (None, s1) \<Rightarrow> (Some CountFailed, s1)
      | (Some n, s1) \<Rightarrow>
          if n > 0 then (None, s1)
          else
            (case map_of fs name of
               Some (Some body) \<Rightarrow>
                 (case execScript dia body s1 of
                    (None, s2) \<Rightarrow> (Some (ScriptFailed name), s2)
                  | (Some _, s2) \<Rightarrow>
                      (case record_applied name s2 of
                         (None, s3) \<Rightarrow> (Some (RecordFailed name), s3)
                       | (Some _, s3) \<Rightarrow> (None, s3)))
             | _ \<Rightarrow> (Some (ReadFailed name), s1)))"

fun migrate_each :: "dialect \<Rightarrow> dir_entry list \<Rightarrow> string list \<Rightarrow> schema \<Rightarrow> migrate_err option \<times> schema" where
  "migrate_each dia fs [] s = (None, s)"
| "migrate_each dia fs (n # ns) s =
     (case migrate_one dia fs n s of
        (Some x, s') \<Rightarrow> (Some x, s')
      | (None, s') \<Rightarrow> migrate_each dia fs ns s')"

definition migrate :: "dialect \<Rightarrow> dir_entry list \<Rightarrow> schema \<Rightarrow> migrate_err option \<times> schema" where
  "migrate dia fs s =
     (case create_tracking s of
        (None, s1) \<Rightarrow> (Some TrackingFailed, s1)
      | (Some _, s1) \<Rightarrow> migrate_each dia fs (migration_names fs) s1)"

section \<open>Opening\<close>

datatype open_err = UnsupportedDriver string | OpenFailed | PingFailed | MigrateFailed migrate_err

definition dialect_of :: "config \<Rightarrow> dialect option" where
  "dialect_of pc =
     (if cf_DBDriver pc = DriverSQLite then Some DialectSQLite
      else if cf_DBDriver pc = DriverPostgres then Some DialectPostgres else None)"

text \<open>\<open>opened\<close> and \<open>pinged\<close> say whether the driver opens the handle and reaches the database.\<close>

definition Open :: "config \<Rightarrow> bool \<Rightarrow> bool \<Rightarrow> schema \<Rightarrow> (open_err + dialect) \<times> schema" where
  "Open pc opened pinged s =
     (case dialect_of pc of
        None \<Rightarrow> (Inl (UnsupportedDriver (cf_DBDriver pc)), s)
      | Some dia \<Rightarrow>
          if \<not> opened then (Inl OpenFailed, s)
          else if \<not> pinged then (Inl PingFailed, s)
          else
            (case migrate dia migrationsFS s of
               (Some x, s') \<Rightarrow> (Inl (MigrateFailed x), s')
             | (None, s') \<Rightarrow> (Inr dia, s')))"

section \<open>Placeholders\<close>

lemma show_nat_no_question: "CHR ''?'' \<notin> set (show_nat n)"
  using show_nat_digits [of n] by (auto simp: list_all_iff is_digit_def)

lemma number_placeholders_none: "CHR ''?'' \<notin> set (number_placeholders n q)"
  by (induction q arbitrary: n) (auto simp: show_nat_no_question)

text \<open>What lies between the placeholders stays, and the placeholders are numbered from one in order.\<close>

lemma number_placeholders_append:
  "number_placeholders n (a @ b) = number_placeholders n a @ number_placeholders (n + count_list a (CHR ''?'')) b"
  by (induction a arbitrary: n) auto

lemma number_placeholders_id: "CHR ''?'' \<notin> set q \<Longrightarrow> number_placeholders n q = q"
  by (induction q) auto

theorem rebind_numbers:
  assumes "CHR ''?'' \<notin> set b"
  shows "rebind DialectPostgres (a @ ''?'' @ b)
    = rebind DialectPostgres a @ ''$'' @ show_nat (Suc (count_list a (CHR ''?''))) @ b"
  using assms by (simp add: rebind_def number_placeholders_append number_placeholders_id)

section \<open>Interrupted migrations\<close>

primrec object_of :: "ddl \<Rightarrow> string" where
  "object_of (CreateTable t) = t"
| "object_of (CreateIndex i t) = i"

text \<open>Statements that create different things, an index after its table.\<close>

definition well_ordered :: "ddl list \<Rightarrow> bool" where
  "well_ordered D \<longleftrightarrow> distinct (map object_of D)
     \<and> (\<forall>q < length D. case D ! q of CreateTable _ \<Rightarrow> True | CreateIndex _ t \<Rightarrow> t \<in> object_of ` set (take q D))"

definition built :: "ddl list \<Rightarrow> nat \<Rightarrow> schema \<Rightarrow> bool" where
  "built D m s \<longleftrightarrow> m \<le> length D \<and> sm_objects s = map object_of (take m D)"

lemma well_ordered_at: "well_ordered (pre @ CreateIndex i t # post) \<Longrightarrow> t \<in> object_of ` set pre"
  unfolding well_ordered_def by (auto dest: spec [of _ "length pre"])

lemma built_add:
  assumes "well_ordered D" "D = pre @ c # post" "built D m s" "length pre \<le> m"
  shows "built D (max m (Suc (length pre))) (add_object (object_of c) s)"
proof (cases "length pre < m")
  case True
  then have "object_of c \<in> set (sm_objects s)"
    using assms(2,3) by (force simp: built_def take_Cons' not_le)
  with True assms(3) show ?thesis by (simp add: add_object_def max_absorb1)
next
  case False
  with assms(4) have m: "m = length pre" by simp
  then have "sm_objects s = map object_of pre" using assms(2,3) by (simp add: built_def)
  moreover from this have "object_of c \<notin> set (sm_objects s)" using assms(1,2) by (auto simp: well_ordered_def)
  ultimately show ?thesis using m assms(2) by (simp add: built_def add_object_def)
qed

lemma built_faults [simp]: "built D m (s\<lparr>sm_faults := fs\<rparr>) = built D m s" "built D m (s\<lparr>sm_applied := a\<rparr>) = built D m s"
  by (simp_all add: built_def)

lemma add_object_rest [simp]: "sm_applied (add_object x s) = sm_applied s" "sm_faults (add_object x s) = sm_faults s"
  by (simp_all add: add_object_def)

text \<open>One statement at its place, with the state after it and whether it succeeded.\<close>

lemma run_ddl_progress:
  assumes "well_ordered D" "D = pre @ c # post" "built D m s" "length pre \<le> m" "run_ddl c s = (r, s')"
  shows "(r = None \<and> built D m s' \<or> r \<noteq> None \<and> built D (max m (Suc (length pre))) s')
    \<and> sm_applied s' = sm_applied s \<and> (sm_faults s = [] \<longrightarrow> r \<noteq> None \<and> sm_faults s' = [])"
proof -
  have there: "t \<in> set (sm_objects s)" if "c = CreateIndex i t" for i t
  proof -
    have "t \<in> object_of ` set pre" using well_ordered_at assms(1,2) that by blast
    then show ?thesis using assms(2,3,4) by (auto simp: built_def)
  qed
  show ?thesis
    using assms(5) built_add [OF assms(1,2,3,4)] built_add [OF assms(1,2), of m "s\<lparr>sm_faults := fs\<rparr>" for fs] assms(3,4) there
    by (cases c) (auto simp: run_ddl_def sm_stmt_def split: list.splits bool.splits)
qed

lemma run_all_progress:
  assumes "well_ordered D" "D = pre @ cs @ post" "built D m s" "length pre \<le> m" "run_all cs s = (r, s')"
  shows "\<exists>m'\<ge>m. built D m' s' \<and> (r \<noteq> None \<longrightarrow> length (pre @ cs) \<le> m')
    \<and> sm_applied s' = sm_applied s \<and> (sm_faults s = [] \<longrightarrow> r \<noteq> None \<and> sm_faults s' = [])"
  using assms(2-)
proof (induction cs arbitrary: pre m s)
  case Nil
  then show ?case by auto
next
  case (Cons c cs)
  obtain r1 s1 where one: "run_ddl c s = (r1, s1)" by fastforce
  have D: "D = pre @ c # (cs @ post)" using Cons.prems(1) by simp
  note p = run_ddl_progress [OF assms(1) D Cons.prems(2,3) one]
  show ?case
  proof (cases r1)
    case None
    with one Cons.prems p show ?thesis by auto
  next
    case (Some u)
    with one Cons.prems(4) have rest: "run_all cs s1 = (r, s')" by simp
    have "\<exists>m'\<ge>max m (Suc (length pre)). built D m' s' \<and> (r \<noteq> None \<longrightarrow> length ((pre @ [c]) @ cs) \<le> m')
      \<and> sm_applied s' = sm_applied s1 \<and> (sm_faults s1 = [] \<longrightarrow> r \<noteq> None \<and> sm_faults s' = [])"
      using p Some by (intro Cons.IH rest) (auto simp: D)
    with p show ?thesis by fastforce
  qed
qed

lemma execScript_progress:
  assumes "well_ordered D" "D = pre @ cs @ post" "built D m s" "length pre \<le> m" "execScript dia cs s = (r, s')"
  shows "\<exists>m'\<ge>m. built D m' s' \<and> (r \<noteq> None \<longrightarrow> length (pre @ cs) \<le> m')
    \<and> sm_applied s' = sm_applied s \<and> (sm_faults s = [] \<longrightarrow> r \<noteq> None \<and> sm_faults s' = [])"
proof -
  obtain r1 s1 where all: "run_all cs s = (r1, s1)" by fastforce
  note p = run_all_progress [OF assms(1-4) all]
  have "built D m (s1\<lparr>sm_objects := sm_objects s\<rparr>)" using assms(3) by (simp add: built_def)
  with p all assms(5) show ?thesis
    by (cases r1) (auto simp: execScript_def split: if_splits)
qed

text \<open>
  How far a database is: the first \<open>k\<close> scripts are recorded, all they create is there, and perhaps the
  first part of what the next ones create.
\<close>

definition at_script :: "(string \<times> ddl list) list \<Rightarrow> nat \<Rightarrow> schema \<Rightarrow> bool" where
  "at_script ps k s \<longleftrightarrow> k \<le> length ps \<and> sm_applied s = Some (map fst (take k ps))
     \<and> (\<exists>m. built (concat (map snd ps)) m s \<and> length (concat (map snd (take k ps))) \<le> m)"

definition scripts_of :: "dir_entry list \<Rightarrow> (string \<times> ddl list) list \<Rightarrow> bool" where
  "scripts_of fs ps \<longleftrightarrow> distinct (map fst ps) \<and> well_ordered (concat (map snd ps))
     \<and> (\<forall>(n, body) \<in> set ps. map_of fs n = Some (Some body))"

lemma scripts_of_body: "scripts_of fs ps \<Longrightarrow> ps = pre @ (n, body) # rest \<Longrightarrow> map_of fs n = Some (Some body)"
  by (simp add: scripts_of_def)

lemma at_script_faults [simp]: "at_script ps k (s\<lparr>sm_faults := fs\<rparr>) = at_script ps k s"
  by (simp add: at_script_def)

text \<open>The outcome of a stage that starts at \<open>k\<close> from a state without faults or with some.\<close>

definition advances :: "(string \<times> ddl list) list \<Rightarrow> nat \<Rightarrow> nat \<Rightarrow> schema \<Rightarrow> 'e option \<Rightarrow> schema \<Rightarrow> bool" where
  "advances ps k goal s r s' \<longleftrightarrow> (\<exists>k' \<ge> k. at_script ps k' s' \<and> (r = None \<longrightarrow> goal \<le> k'))
     \<and> (sm_faults s = [] \<longrightarrow> r = None \<and> sm_faults s' = [])"

lemma count_applied_cases:
  assumes "count_applied n s = (r, s')" "sm_applied s = Some rows"
  shows "(r = None \<and> sm_faults s \<noteq> [] \<or> r = Some (count_list rows n)) \<and> (\<exists>fs. s' = s\<lparr>sm_faults := fs\<rparr>) \<and> (sm_faults s = [] \<longrightarrow> s' = s)"
  using assms by (auto simp: count_applied_def sm_stmt_def split: list.splits bool.splits intro: exI [of _ "sm_faults s"])

lemma record_applied_cases:
  assumes "record_applied n s = (r, s')" "sm_applied s = Some rows" "n \<notin> set rows"
  shows "(r = None \<and> sm_faults s \<noteq> [] \<and> (\<exists>fs. s' = s\<lparr>sm_faults := fs\<rparr>)
      \<or> r = Some () \<and> (\<exists>fs. s' = s\<lparr>sm_faults := fs, sm_applied := Some (rows @ [n])\<rparr>)) \<and> (sm_faults s = [] \<longrightarrow> sm_faults s' = [])"
  using assms by (auto simp: record_applied_def sm_stmt_def split: list.splits bool.splits intro: exI [of _ "sm_faults s"])

lemma run_new_script:
  assumes ok: "scripts_of fs ps" and ps: "ps = pre @ (n, body) # rest" and at: "at_script ps (length pre) s"
    and run: "execScript dia body s = (r1, s1)"
  shows "at_script ps (length pre) s1" "r1 \<noteq> None \<Longrightarrow> \<exists>m'. built (concat (map snd ps)) m' s1
      \<and> length (concat (map snd (pre @ [(n, body)]))) \<le> m'"
    "sm_applied s1 = Some (map fst pre)" "sm_faults s = [] \<Longrightarrow> r1 \<noteq> None \<and> sm_faults s1 = []"
proof -
  obtain m where m: "built (concat (map snd ps)) m s" "length (concat (map snd pre)) \<le> m"
    and rows: "sm_applied s = Some (map fst pre)"
    using at ps by (auto simp: at_script_def)
  have D: "concat (map snd ps) = concat (map snd pre) @ body @ concat (map snd rest)" using ps by simp
  obtain m' where "m \<le> m'" "built (concat (map snd ps)) m' s1"
    "r1 \<noteq> None \<longrightarrow> length (concat (map snd pre) @ body) \<le> m'" "sm_applied s1 = sm_applied s"
    "sm_faults s = [] \<longrightarrow> r1 \<noteq> None \<and> sm_faults s1 = []"
    using execScript_progress [OF _ D m run] ok by (auto simp: scripts_of_def)
  with m rows ps show "at_script ps (length pre) s1" "r1 \<noteq> None \<Longrightarrow> \<exists>m'. built (concat (map snd ps)) m' s1
      \<and> length (concat (map snd (pre @ [(n, body)]))) \<le> m'"
    "sm_applied s1 = Some (map fst pre)" "sm_faults s = [] \<Longrightarrow> r1 \<noteq> None \<and> sm_faults s1 = []"
    by (auto simp: at_script_def intro!: exI [of _ m'])
qed

lemma migrate_one_new:
  assumes ok: "scripts_of fs ps" and ps: "ps = pre @ (n, body) # rest" and at: "at_script ps (length pre) s"
    and one: "migrate_one dia fs n s = (r, s')"
  shows "advances ps (length pre) (Suc (length pre)) s r s'"
proof -
  obtain c s1 where cnt: "count_applied n s = (c, s1)" by fastforce
  have rows: "sm_applied s = Some (map fst pre)" using at ps by (simp add: at_script_def)
  have new: "n \<notin> set (map fst pre)" using ok ps by (simp add: scripts_of_def)
  note c = count_applied_cases [OF cnt rows]
  then have at1: "at_script ps (length pre) s1" using at by auto
  show ?thesis
  proof (cases c)
    case None
    with one cnt c at1 show ?thesis by (auto simp: migrate_one_def advances_def)
  next
    case (Some k)
    with c new have k: "k = 0" by (auto simp: count_list_0_iff)
    obtain r1 s2 where run: "execScript dia body s1 = (r1, s2)" by fastforce
    note x = run_new_script [OF ok ps at1 run]
    show ?thesis
    proof (cases r1)
      case None
      with one cnt Some k run scripts_of_body [OF ok ps] have "r \<noteq> None" "s' = s2" by (auto simp: migrate_one_def)
      with x(1,4) c None show ?thesis by (auto simp: advances_def)
    next
      case (Some u)
      then obtain m' where m': "built (concat (map snd ps)) m' s2" "length (concat (map snd (pre @ [(n, body)]))) \<le> m'"
        using x(2) by auto
      obtain r2 s3 where rec: "record_applied n s2 = (r2, s3)" by fastforce
      note y = record_applied_cases [OF rec x(3) new]
      have out: "r = (case r2 of None \<Rightarrow> Some (RecordFailed n) | Some _ \<Rightarrow> None)" "s' = s3"
        using one cnt \<open>c = Some k\<close> k run Some rec scripts_of_body [OF ok ps] by (auto simp: migrate_one_def split: option.splits)
      have "at_script ps (Suc (length pre)) s3" if "r2 = Some ()"
        using y that m' ps by (auto simp: at_script_def intro!: exI [of _ m'])
      moreover have "at_script ps (length pre) s3" if "r2 = None" using y that x(1) by auto
      ultimately show ?thesis
        using out y x(4) c by (cases r2) (auto simp: advances_def intro: Suc_leD exI [of _ "Suc (length pre)"])
    qed
  qed
qed

text \<open>A script that is recorded already is skipped.\<close>

lemma migrate_one_old:
  assumes at: "at_script ps k s" and n: "n \<in> set (map fst (take k ps))" and one: "migrate_one dia fs n s = (r, s')"
  shows "advances ps k k s r s'"
proof -
  obtain c s1 where cnt: "count_applied n s = (c, s1)" by fastforce
  have rows: "sm_applied s = Some (map fst (take k ps))" using at by (simp add: at_script_def)
  have "count_list (map fst (take k ps)) n \<noteq> 0" using n by (simp only: count_list_0_iff) simp
  with count_applied_cases [OF cnt rows] cnt one at show ?thesis
    by (auto simp: migrate_one_def advances_def intro!: exI [of _ k])
qed

lemma migrate_each_progress:
  assumes ok: "scripts_of fs ps" and ps: "ps = pre @ rest" and at: "at_script ps k s" "length pre \<le> k"
    and each: "migrate_each dia fs (map fst rest) s = (r, s')"
  shows "advances ps k (length ps) s r s'"
  using ps at each
proof (induction rest arbitrary: pre k s)
  case Nil
  then show ?case by (auto simp: advances_def)
next
  case (Cons p rest)
  obtain n body where p: "p = (n, body)" by fastforce
  obtain r1 s1 where one: "migrate_one dia fs n s = (r1, s1)" by fastforce
  have k: "k \<le> length ps" using Cons.prems(2) by (simp add: at_script_def)
  have "advances ps k (Suc (length pre)) s r1 s1"
  proof (cases "k = length pre")
    case True
    then have "at_script ps (length pre) s" using Cons.prems(2) by simp
    with migrate_one_new [OF ok _ _ one, of pre body rest] Cons.prems(1) p True show ?thesis by simp
  next
    case False
    with Cons.prems(3) have k': "Suc (length pre) \<le> k" by simp
    then have "n \<in> set (map fst (take k ps))"
      using Cons.prems(1) p by (simp add: take_Cons')
    from migrate_one_old [OF Cons.prems(2) this one] k' show ?thesis by (auto simp: advances_def)
  qed
  then obtain k1 where k1: "k \<le> k1" "at_script ps k1 s1" "r1 = None \<longrightarrow> Suc (length pre) \<le> k1"
    and clean: "sm_faults s = [] \<longrightarrow> r1 = None \<and> sm_faults s1 = []"
    by (auto simp: advances_def)
  show ?case
  proof (cases r1)
    case None
    with one p Cons.prems(4) have "migrate_each dia fs (map fst rest) s1 = (r, s')" by simp
    with Cons.IH [of "pre @ [p]" k1 s1] Cons.prems(1) k1 None have "advances ps k1 (length ps) s1 r s'" by simp
    with k1 clean show ?thesis by (auto simp: advances_def intro: order_trans)
  next
    case (Some x)
    with one p Cons.prems(4) have "r = Some x" "s' = s1" by simp_all
    with k1 clean Some show ?thesis by (auto simp: advances_def)
  qed
qed

text \<open>Every state a database can be in: starts, each with its own faults, from a database nobody opened.\<close>

inductive migrated :: "dialect \<Rightarrow> schema \<Rightarrow> bool" for dia where
  fresh: "migrated dia fresh_schema"
| start: "migrated dia s \<Longrightarrow> migrated dia (snd (migrate dia migrationsFS (s\<lparr>sm_faults := fs\<rparr>)))"

definition shipped :: "(string \<times> ddl list) list" where
  "shipped = map (\<lambda>(n, b). (n, the b)) migrationsFS"

lemmas script_defs = script_0001_def script_0002_def script_0003_def script_0004_def migrationsFS_def

lemma shipped_names: "migration_names migrationsFS = map fst shipped"
  by code_simp

lemma shipped_ordered: "well_ordered (concat (map snd shipped))"
  unfolding well_ordered_def Ball_set_list_all by code_simp

lemma shipped_scripts: "scripts_of migrationsFS shipped"
  unfolding scripts_of_def using shipped_ordered by (simp add: shipped_def migrationsFS_def)

definition begun :: "schema \<Rightarrow> bool" where
  "begun s \<longleftrightarrow> sm_objects s = [] \<and> sm_applied s = None \<or> (\<exists>k. at_script shipped k s)"

lemma tracking_created:
  assumes "begun s"
  shows "\<exists>k. at_script shipped k (s\<lparr>sm_applied := Some (case sm_applied s of Some rows \<Rightarrow> rows | None \<Rightarrow> [])\<rparr>)"
proof (cases "sm_applied s")
  case None
  with assms have "at_script shipped 0 (s\<lparr>sm_applied := Some []\<rparr>)"
    by (auto simp: begun_def at_script_def built_def intro: exI [of _ 0])
  with None show ?thesis by auto
next
  case (Some rows)
  with assms have "\<exists>k. at_script shipped k s" by (simp add: begun_def)
  with Some show ?thesis by (simp add: at_script_def)
qed

lemma begun_faults [simp]: "begun (s\<lparr>sm_faults := fs\<rparr>) = begun s"
  by (simp add: begun_def)

lemma create_tracking_cases:
  assumes "create_tracking s = (r, s')" "begun s"
  shows "(r = None \<and> begun s' \<and> sm_faults s \<noteq> [] \<or> r \<noteq> None \<and> (\<exists>k. at_script shipped k s'))
    \<and> (sm_faults s = [] \<longrightarrow> sm_faults s' = [])"
proof (cases "sm_faults s")
  case Nil
  with assms tracking_created [of s] show ?thesis by (auto simp: create_tracking_def sm_stmt_def)
next
  case (Cons f fs)
  have "\<exists>k. at_script shipped k (s\<lparr>sm_faults := fs, sm_applied := Some (case sm_applied s of Some rows \<Rightarrow> rows | None \<Rightarrow> [])\<rparr>)"
    using tracking_created [of "s\<lparr>sm_faults := fs\<rparr>"] assms(2) by simp
  with Cons assms show ?thesis by (auto simp: create_tracking_def sm_stmt_def split: bool.splits)
qed

lemma migrate_begun:
  assumes "begun s" "migrate dia migrationsFS s = (r, s')"
  shows "begun s' \<and> (r = None \<longrightarrow> at_script shipped (length shipped) s') \<and> (sm_faults s = [] \<longrightarrow> r = None)"
proof -
  obtain c s1 where c: "create_tracking s = (c, s1)" by fastforce
  note t = create_tracking_cases [OF c assms(1)]
  show ?thesis
  proof (cases c)
    case None
    with assms(2) c t show ?thesis by (auto simp: migrate_def)
  next
    case (Some u)
    then obtain k where k: "at_script shipped k s1" using t by auto
    have each: "migrate_each dia migrationsFS (map fst shipped) s1 = (r, s')"
      using assms(2) c Some by (simp add: migrate_def shipped_names)
    have "advances shipped k (length shipped) s1 r s'"
      using migrate_each_progress [OF shipped_scripts _ k _ each, of "[]"] by simp
    then obtain k' where k': "at_script shipped k' s'" "r = None \<longrightarrow> length shipped \<le> k'"
      and clean: "sm_faults s1 = [] \<longrightarrow> r = None"
      by (auto simp: advances_def)
    have "k' \<le> length shipped" using k'(1) by (simp add: at_script_def)
    with k' clean t show ?thesis unfolding begun_def by (metis le_antisym)
  qed
qed

text \<open>What a database must have: every script recorded once and in order, every table and index there.\<close>

definition up_to_date :: "schema \<Rightarrow> bool" where
  "up_to_date s \<longleftrightarrow> sm_applied s = Some (map fst shipped) \<and> sm_objects s = map object_of (concat (map snd shipped))"

lemma at_end_up_to_date: "at_script shipped (length shipped) s \<Longrightarrow> up_to_date s"
  by (auto simp: at_script_def up_to_date_def built_def)

lemma migrated_begun: "migrated dia s \<Longrightarrow> begun s"
proof (induction rule: migrated.induct)
  case fresh
  then show ?case by (simp add: begun_def fresh_schema_def)
next
  case (start s fs)
  have "begun (s\<lparr>sm_faults := fs\<rparr>)" using start.IH by (simp add: begun_def)
  then show ?case using migrate_begun by (metis prod.collapse)
qed

text \<open>
  C32: Migrations survive interruptions: in whatever state earlier starts left the database, each stopped
  by a failure at any statement, on either kind of database, a start that reports success has every
  script recorded exactly once and every table and index in place, and a start without failures succeeds.
\<close>

theorem migrations_resume:
  assumes "migrated dia s"
  shows "fst (migrate dia migrationsFS (s\<lparr>sm_faults := []\<rparr>)) = None
    \<and> (fst (migrate dia migrationsFS (s\<lparr>sm_faults := fs\<rparr>)) = None
        \<longrightarrow> up_to_date (snd (migrate dia migrationsFS (s\<lparr>sm_faults := fs\<rparr>))))"
proof -
  have b: "begun (s\<lparr>sm_faults := fs\<rparr>)" for fs using migrated_begun [OF assms] by simp
  obtain r s1 where clean: "migrate dia migrationsFS (s\<lparr>sm_faults := []\<rparr>) = (r, s1)" by fastforce
  obtain q s2 where any: "migrate dia migrationsFS (s\<lparr>sm_faults := fs\<rparr>) = (q, s2)" by fastforce
  show ?thesis
    using migrate_begun [OF b clean] migrate_begun [OF b any] clean any at_end_up_to_date by simp
qed

text \<open>
  A start on SQLite that fails after six statements, then one that fails to record the first script: the
  database still comes up to date. The first script has then run twice.
\<close>

definition broken_twice :: "dialect \<Rightarrow> schema" where
  "broken_twice dia =
     (let s1 = snd (migrate dia migrationsFS (fresh_schema\<lparr>sm_faults := replicate 8 False @ [True]\<rparr>)) in
      snd (migrate dia migrationsFS (s1\<lparr>sm_faults := replicate 18 False @ [True]\<rparr>)))"

lemma broken_migrated: "migrated dia (broken_twice dia)"
  unfolding broken_twice_def Let_def by (intro migrated.intros)

lemma script_runs_twice:
  "sm_applied (broken_twice DialectSQLite) = Some [] \<and> sm_objects (broken_twice DialectSQLite) = map object_of script_0001"
  by code_simp

lemma migrations_resume_witness:
  "fst (migrate DialectSQLite migrationsFS ((broken_twice DialectSQLite)\<lparr>sm_faults := []\<rparr>)) = None
    \<and> up_to_date (snd (migrate DialectSQLite migrationsFS ((broken_twice DialectSQLite)\<lparr>sm_faults := []\<rparr>)))"
  using migrations_resume [OF broken_migrated, of DialectSQLite "[]"] by blast

end
