(* ===== verification/Secrets.thy ===== *)
theory Secrets
  imports Config
begin

text \<open>
  Start-up: the secret box of \<open>internal/secrets/secrets.go\<close>, the access tokens and the order of the boot
  steps of \<open>cmd/xgress/main.go\<close>. Files are a map from paths to contents whose writes may fail; AES-GCM,
  base64 and the random source are the fields of \<open>crypto\<close>.
\<close>

section \<open>Files and cryptography\<close>

text \<open>A read that fails though the file exists, and a write that fails, are listed by path.\<close>

record files =
  fs_content :: "(string, string) gomap"
  fs_unreadable :: "string list"
  fs_readonly :: "string list"

datatype read_result = NotExist | ReadFails | Content string

definition ReadFile :: "files \<Rightarrow> string \<Rightarrow> read_result" where
  "ReadFile fs p =
     (case mget (fs_content fs) p of
        None \<Rightarrow> NotExist
      | Some c \<Rightarrow> if p \<in> set (fs_unreadable fs) then ReadFails else Content c)"

definition WriteFile :: "string \<Rightarrow> string \<Rightarrow> files \<Rightarrow> bool \<times> files" where
  "WriteFile p c fs =
     (if p \<in> set (fs_readonly fs) then (False, fs) else (True, fs\<lparr>fs_content := mput p c (fs_content fs)\<rparr>))"

text \<open>The cipher with a key, nonce and plaintext, and its inverse; encodings; random bytes, None a failure.\<close>

record crypto =
  cy_seal :: "string \<Rightarrow> string \<Rightarrow> string \<Rightarrow> string"
  cy_open :: "string \<Rightarrow> string \<Rightarrow> string \<Rightarrow> string option"
  cy_nonceSize :: nat
  cy_encode :: "string \<Rightarrow> string"
  cy_decode :: "string \<Rightarrow> string option"
  cy_rawurl :: "string \<Rightarrow> string"

datatype secret_err =
  KeyRandom | KeyDir | KeyPersist | KeyRead | KeySize nat | NonceRandom | BadBase64 | TooShort | BadCipher | KeyMismatch
  | CanaryRead | CanaryWrite

section \<open>The box\<close>

text \<open>The key file is read, or made on first use; \<open>random\<close> is the outcome of the random source.\<close>

definition load_key :: "string option \<Rightarrow> bool \<Rightarrow> string \<Rightarrow> files \<Rightarrow> (secret_err + string) \<times> files" where
  "load_key random dir_ok keyFile fs =
     (case ReadFile fs keyFile of
        ReadFails \<Rightarrow> (Inl KeyRead, fs)
      | Content key \<Rightarrow> (if length key \<noteq> 32 then Inl (KeySize (length key)) else Inr key, fs)
      | NotExist \<Rightarrow>
          (case random of
             None \<Rightarrow> (Inl KeyRandom, fs)
           | Some key \<Rightarrow>
               if \<not> dir_ok then (Inl KeyDir, fs)
               else
                 (case WriteFile keyFile key fs of
                    (False, fs1) \<Rightarrow> (Inl KeyPersist, fs1)
                  | (True, fs1) \<Rightarrow> (if length key \<noteq> 32 then Inl (KeySize (length key)) else Inr key, fs1))))"

definition Encrypt :: "crypto \<Rightarrow> string \<Rightarrow> string option \<Rightarrow> string \<Rightarrow> secret_err + string" where
  "Encrypt C key nonce pt =
     (case nonce of None \<Rightarrow> Inl NonceRandom | Some n \<Rightarrow> Inr (cy_encode C (n @ cy_seal C key n pt)))"

definition Decrypt :: "crypto \<Rightarrow> string \<Rightarrow> string \<Rightarrow> secret_err + string" where
  "Decrypt C key token =
     (case cy_decode C token of
        None \<Rightarrow> Inl BadBase64
      | Some raw \<Rightarrow>
          if length raw < cy_nonceSize C then Inl TooShort
          else (case cy_open C key (take (cy_nonceSize C) raw) (drop (cy_nonceSize C) raw) of
                  None \<Rightarrow> Inl BadCipher
                | Some pt \<Rightarrow> Inr pt))"

definition canaryPlaintext :: string where
  "canaryPlaintext = ''xgress-secret-key-canary-v1''"

definition VerifyKey :: "crypto \<Rightarrow> string \<Rightarrow> string option \<Rightarrow> string \<Rightarrow> files \<Rightarrow> secret_err option \<times> files" where
  "VerifyKey C key nonce canaryFile fs =
     (case ReadFile fs canaryFile of
        NotExist \<Rightarrow>
          (case Encrypt C key nonce canaryPlaintext of
             Inl x \<Rightarrow> (Some x, fs)
           | Inr enc \<Rightarrow> (case WriteFile canaryFile enc fs of (True, fs1) \<Rightarrow> (None, fs1) | (False, fs1) \<Rightarrow> (Some CanaryWrite, fs1)))
      | ReadFails \<Rightarrow> (Some CanaryRead, fs)
      | Content data \<Rightarrow>
          (case Decrypt C key (trim_space data) of
             Inl _ \<Rightarrow> (Some KeyMismatch, fs)
           | Inr pt \<Rightarrow> (if pt = canaryPlaintext then None else Some KeyMismatch, fs)))"

section \<open>Tokens\<close>

text \<open>Given, else persisted, else made and persisted. Inl is a failure of the random source or the write.\<close>

definition resolveToken :: "crypto \<Rightarrow> string option \<Rightarrow> string \<Rightarrow> string \<Rightarrow> files \<Rightarrow> (secret_err + string) \<times> files" where
  "resolveToken C random explicit path fs =
     (if explicit \<noteq> [] then (Inr explicit, fs)
      else
        (let kept = (case ReadFile fs path of Content c \<Rightarrow> trim_space c | _ \<Rightarrow> []) in
         if kept \<noteq> [] then (Inr kept, fs)
         else
           (case random of
              None \<Rightarrow> (Inl KeyRandom, fs)
            | Some buf \<Rightarrow>
                (let tok = cy_rawurl C buf in
                 case WriteFile path tok fs of
                   (True, fs1) \<Rightarrow> (Inr tok, fs1)
                 | (False, fs1) \<Rightarrow> (Inl KeyPersist, fs1)))))"

definition ensureProviderToken :: "crypto \<Rightarrow> string option \<Rightarrow> config \<Rightarrow> files \<Rightarrow> (secret_err + config) \<times> files" where
  "ensureProviderToken C random pc fs =
     (case resolveToken C random (cf_ProviderToken pc) (ProviderTokenFile pc) fs of
        (Inl x, fs1) \<Rightarrow> (Inl x, fs1)
      | (Inr tok, fs1) \<Rightarrow> (Inr (pc\<lparr>cf_ProviderToken := tok\<rparr>), fs1))"

definition ensureEdgeToken :: "crypto \<Rightarrow> string option \<Rightarrow> config \<Rightarrow> files \<Rightarrow> (secret_err + config) \<times> files" where
  "ensureEdgeToken C random pc fs =
     (case resolveToken C random (cf_EdgeToken pc) (EdgeTokenFile pc) fs of
        (Inl x, fs1) \<Rightarrow> (Inl x, fs1)
      | (Inr tok, fs1) \<Rightarrow> (Inr (pc\<lparr>cf_EdgeToken := tok\<rparr>), fs1))"

section \<open>Boot\<close>

datatype boot_err =
  BootConfig cfg_err | BootDirs | BootSecrets secret_err | BootProviderToken secret_err | BootEdgeToken secret_err | BootUngated

text \<open>
  \<open>run\<close> up to the point where the database is opened: the configuration that the servers start with, the
  box's key, and whether the key fits the stored material (which is only reported).
\<close>

record boot_random =
  br_key :: "string option"
  br_nonce :: "string option"
  br_provider :: "string option"
  br_edge :: "string option"

definition prepare :: "crypto \<Rightarrow> cfg_libs \<Rightarrow> env \<Rightarrow> bool \<Rightarrow> boot_random \<Rightarrow> files
    \<Rightarrow> (boot_err + (config \<times> string \<times> bool)) \<times> files" where
  "prepare C CL e dirs_ok rnd fs =
     (case Load CL e of
        Inl x \<Rightarrow> (Inl (BootConfig x), fs)
      | Inr pc \<Rightarrow>
          if \<not> dirs_ok then (Inl BootDirs, fs)
          else
            (case load_key (br_key rnd) dirs_ok (cf_SecretsKeyFile pc) fs of
               (Inl x, fs1) \<Rightarrow> (Inl (BootSecrets x), fs1)
             | (Inr key, fs1) \<Rightarrow>
                 (case VerifyKey C key (br_nonce rnd) (cf_SecretsKeyFile pc @ ''.canary'') fs1 of (mismatch, fs2) \<Rightarrow>
                   (case ensureProviderToken C (br_provider rnd) pc fs2 of
                      (Inl x, fs3) \<Rightarrow> (Inl (BootProviderToken x), fs3)
                    | (Inr pc1, fs3) \<Rightarrow>
                        (case ensureEdgeToken C (br_edge rnd) pc1 fs3 of
                           (Inl x, fs4) \<Rightarrow> (Inl (BootEdgeToken x), fs4)
                         | (Inr pc2, fs4) \<Rightarrow>
                             if \<not> cf_TraefikManaged pc2 \<and> (cf_ProviderToken pc2 = [] \<or> cf_EdgeToken pc2 = [])
                             then (Inl BootUngated, fs4)
                             else (Inr (pc2, key, mismatch = None), fs4))))))"

definition settingTrue :: "string \<Rightarrow> db \<Rightarrow> bool \<times> db" where
  "settingTrue key d =
     (case GetSetting key d of (Inl _, d') \<Rightarrow> (False, d') | (Inr v, d') \<Rightarrow> (v = ''true'' \<or> v = ''1'', d'))"

text \<open>The certificate manager's options, from the environment and the stored settings.\<close>

definition acme_options :: "config \<Rightarrow> db \<Rightarrow> acme_manager \<times> db" where
  "acme_options pc d =
     (let (stored, d1) = (if cf_ACMEStaging pc then (True, d) else settingTrue ''acme.staging'' d) in
      case GetSetting ''acme.email'' d1 of (r, d2) \<Rightarrow>
        (\<lparr>am_defaultEmail = (case r of Inr v \<Rightarrow> if v \<noteq> [] then v else cf_ACMEEmail pc | Inl _ \<Rightarrow> cf_ACMEEmail pc),
          am_staging = stored, am_caDirURL = cf_ACMECAURL pc, am_dnsResolvers = cf_ACMEDNSResolvers pc\<rparr>, d2))"

section \<open>A second start finds what the first made\<close>

text \<open>What an operation leaves alone: every other file, and which files can be read and written.\<close>

definition only_path :: "string \<Rightarrow> files \<Rightarrow> files \<Rightarrow> bool" where
  "only_path p fs fs1 \<longleftrightarrow> (\<forall>q. q \<noteq> p \<longrightarrow> mget (fs_content fs1) q = mget (fs_content fs) q)
     \<and> fs_unreadable fs1 = fs_unreadable fs \<and> fs_readonly fs1 = fs_readonly fs"

lemma only_path_refl: "only_path p fs fs"
  by (simp add: only_path_def)

lemma write_only: "WriteFile p c fs = (b, fs1) \<Longrightarrow> only_path p fs fs1"
  by (auto simp: WriteFile_def only_path_def mget_mput split: if_splits)

lemma write_read: "WriteFile p c fs = (True, fs1) \<Longrightarrow> mget (fs_content fs1) p = Some c"
  by (auto simp: WriteFile_def mget_mput split: if_splits)

lemma read_known: "fs_unreadable fs = [] \<Longrightarrow> ReadFile fs p = (case mget (fs_content fs) p of None \<Rightarrow> NotExist | Some c \<Rightarrow> Content c)"
  by (simp add: ReadFile_def split: option.splits)

lemma load_key_effect:
  assumes "load_key r d f fs = (Inr key, fs1)" "fs_unreadable fs = []"
  shows "mget (fs_content fs1) f = Some key" "length key = 32" "only_path f fs fs1"
  using assms
  by (auto simp: load_key_def read_known split: option.splits if_splits prod.splits bool.splits
    dest: write_read write_only intro: only_path_refl)

lemma load_key_again:
  "mget (fs_content fs) f = Some key \<Longrightarrow> length key = 32 \<Longrightarrow> fs_unreadable fs = [] \<Longrightarrow> load_key r d f fs = (Inr key, fs)"
  by (simp add: load_key_def read_known)

text \<open>The laws of the cipher and the encodings that the code relies on.\<close>

definition crypto_laws :: "crypto \<Rightarrow> bool" where
  "crypto_laws C \<longleftrightarrow> (\<forall>key n pt. length n = cy_nonceSize C \<longrightarrow> cy_open C key n (cy_seal C key n pt) = Some pt)
     \<and> (\<forall>raw. cy_decode C (cy_encode C raw) = Some raw \<and> trim_space (cy_encode C raw) = cy_encode C raw)
     \<and> (\<forall>raw. cy_rawurl C raw \<noteq> [] \<and> trim_space (cy_rawurl C raw) = cy_rawurl C raw)"

lemma decrypt_encrypt:
  "crypto_laws C \<Longrightarrow> Encrypt C key (Some n) pt = Inr enc \<Longrightarrow> length n = cy_nonceSize C \<Longrightarrow>
   Decrypt C key (trim_space enc) = Inr pt"
  by (auto simp: crypto_laws_def Encrypt_def Decrypt_def)

lemma verify_effect:
  assumes "VerifyKey C key (Some n) f fs = (r, fs1)" "fs_unreadable fs = []" "fs_readonly fs = []"
    "crypto_laws C" "length n = cy_nonceSize C"
  shows "only_path f fs fs1" "VerifyKey C key n' f fs1 = (r, fs1)"
    "mget (fs_content fs1) f \<noteq> None"
proof -
  have "only_path f fs fs1 \<and> VerifyKey C key n' f fs1 = (r, fs1) \<and> mget (fs_content fs1) f \<noteq> None"
  proof (cases "mget (fs_content fs) f")
    case None
    obtain enc where enc: "Encrypt C key (Some n) canaryPlaintext = Inr enc" by (simp add: Encrypt_def)
    obtain fs2 where w: "WriteFile f enc fs = (True, fs2)" using assms(3) by (simp add: WriteFile_def)
    with None enc assms have "r = None" "fs1 = fs2" by (auto simp: VerifyKey_def read_known)
    moreover have "fs_unreadable fs2 = []" using write_only [OF w] assms(2) by (simp add: only_path_def)
    ultimately show ?thesis
      using write_only [OF w] write_read [OF w] decrypt_encrypt [OF assms(4) enc assms(5)]
      by (simp add: VerifyKey_def read_known)
  next
    case (Some data)
    then show ?thesis
      using assms by (auto simp: VerifyKey_def read_known only_path_refl split: sum.splits)
  qed
  then show "only_path f fs fs1" "VerifyKey C key n' f fs1 = (r, fs1)" "mget (fs_content fs1) f \<noteq> None" by auto
qed

lemma token_effect:
  assumes "resolveToken C r given f fs = (Inr tok, fs1)" "fs_unreadable fs = []" "crypto_laws C"
  shows "tok \<noteq> []" "only_path f fs fs1"
    "given = tok \<or> given = [] \<and> (\<exists>c. mget (fs_content fs1) f = Some c \<and> trim_space c = tok)"
proof -
  have "tok \<noteq> [] \<and> only_path f fs fs1
    \<and> (given = tok \<or> given = [] \<and> (\<exists>c. mget (fs_content fs1) f = Some c \<and> trim_space c = tok))"
    using assms
    by (auto simp: resolveToken_def read_known crypto_laws_def Let_def only_path_refl split: option.splits if_splits prod.splits bool.splits
      dest: write_read write_only)
  then show "tok \<noteq> []" "only_path f fs fs1"
    "given = tok \<or> given = [] \<and> (\<exists>c. mget (fs_content fs1) f = Some c \<and> trim_space c = tok)" by auto
qed

lemma token_again:
  assumes "given = tok \<or> given = [] \<and> (\<exists>c. mget (fs_content fs) f = Some c \<and> trim_space c = tok)"
    "tok \<noteq> []" "fs_unreadable fs = []"
  shows "resolveToken C r given f fs = (Inr tok, fs)"
  using assms by (auto simp: resolveToken_def read_known Let_def)

lemma token_files_fixed:
  "ProviderTokenFile (pc\<lparr>cf_ProviderToken := t\<rparr>) = ProviderTokenFile pc" "EdgeTokenFile (pc\<lparr>cf_ProviderToken := t\<rparr>) = EdgeTokenFile pc"
  by (simp_all add: ProviderTokenFile_def EdgeTokenFile_def)

definition boot_paths :: "config \<Rightarrow> string list" where
  "boot_paths pc = [cf_SecretsKeyFile pc, cf_SecretsKeyFile pc @ ''.canary'', ProviderTokenFile pc, EdgeTokenFile pc]"

lemma only_path_keeps: "only_path p fs fs1 \<Longrightarrow> q \<noteq> p \<Longrightarrow> mget (fs_content fs) q = c \<Longrightarrow> mget (fs_content fs1) q = c"
  by (simp add: only_path_def)

lemma only_path_readable: "only_path p fs fs1 \<Longrightarrow> fs_unreadable fs = [] \<Longrightarrow> fs_unreadable fs1 = []"
  "only_path p fs fs1 \<Longrightarrow> fs_readonly fs = [] \<Longrightarrow> fs_readonly fs1 = []"
  by (simp_all add: only_path_def)

lemma provider_again:
  assumes "ensureProviderToken C r pc fs = (Inr pc1, fs1)" "fs_unreadable fs = []" "crypto_laws C"
  shows "only_path (ProviderTokenFile pc) fs fs1" "\<exists>t. t \<noteq> [] \<and> pc1 = pc\<lparr>cf_ProviderToken := t\<rparr>"
    "only_path q fs1 fs2 \<Longrightarrow> q \<noteq> ProviderTokenFile pc \<Longrightarrow> ensureProviderToken C r' pc fs2 = (Inr pc1, fs2)"
proof -
  obtain t where t: "resolveToken C r (cf_ProviderToken pc) (ProviderTokenFile pc) fs = (Inr t, fs1)"
    and pc1: "pc1 = pc\<lparr>cf_ProviderToken := t\<rparr>"
    using assms(1) by (auto simp: ensureProviderToken_def split: prod.splits sum.splits)
  note eff = token_effect [OF t assms(2,3)]
  show "only_path (ProviderTokenFile pc) fs fs1" by (rule eff(2))
  show "\<exists>t. t \<noteq> [] \<and> pc1 = pc\<lparr>cf_ProviderToken := t\<rparr>" using eff(1) pc1 by blast
  assume o: "only_path q fs1 fs2" "q \<noteq> ProviderTokenFile pc"
  have "fs_unreadable fs2 = []" using o(1) eff(2) assms(2) by (simp add: only_path_def)
  then have "resolveToken C r' (cf_ProviderToken pc) (ProviderTokenFile pc) fs2 = (Inr t, fs2)"
    using eff(1,3) o only_path_keeps [OF o(1)] by (intro token_again) auto
  then show "ensureProviderToken C r' pc fs2 = (Inr pc1, fs2)" by (simp add: ensureProviderToken_def pc1)
qed

lemma edge_again:
  assumes "ensureEdgeToken C r pc fs = (Inr pc1, fs1)" "fs_unreadable fs = []" "crypto_laws C"
  shows "only_path (EdgeTokenFile pc) fs fs1" "\<exists>t. t \<noteq> [] \<and> pc1 = pc\<lparr>cf_EdgeToken := t\<rparr>"
    "ensureEdgeToken C r' pc fs1 = (Inr pc1, fs1)"
proof -
  obtain t where t: "resolveToken C r (cf_EdgeToken pc) (EdgeTokenFile pc) fs = (Inr t, fs1)"
    and pc1: "pc1 = pc\<lparr>cf_EdgeToken := t\<rparr>"
    using assms(1) by (auto simp: ensureEdgeToken_def split: prod.splits sum.splits)
  note eff = token_effect [OF t assms(2,3)]
  show "only_path (EdgeTokenFile pc) fs fs1" by (rule eff(2))
  show "\<exists>t. t \<noteq> [] \<and> pc1 = pc\<lparr>cf_EdgeToken := t\<rparr>" using eff(1) pc1 by blast
  have "fs_unreadable fs1 = []" using eff(2) assms(2) by (simp add: only_path_def)
  then have "resolveToken C r' (cf_EdgeToken pc) (EdgeTokenFile pc) fs1 = (Inr t, fs1)"
    using eff by (intro token_again) auto
  then show "ensureEdgeToken C r' pc fs1 = (Inr pc1, fs1)" by (simp add: ensureEdgeToken_def pc1)
qed

text \<open>The stages of a successful preparation.\<close>

lemma prepare_stages:
  assumes "prepare C CL e d rnd fs = (Inr (pc2, key, m), fs4)"
  obtains pc fs1 r fs2 pc1 fs3 where
    "Load CL e = Inr pc" "load_key (br_key rnd) d (cf_SecretsKeyFile pc) fs = (Inr key, fs1)"
    "VerifyKey C key (br_nonce rnd) (cf_SecretsKeyFile pc @ ''.canary'') fs1 = (r, fs2)" "m = (r = None)"
    "ensureProviderToken C (br_provider rnd) pc fs2 = (Inr pc1, fs3)"
    "ensureEdgeToken C (br_edge rnd) pc1 fs3 = (Inr pc2, fs4)"
  using assms by (auto simp: prepare_def split: sum.splits if_splits prod.splits)

text \<open>
  C29: A restart finds what the first start made: once a start has come through its preparation, the next
  one with the same environment arrives at the same configuration, tokens and key, writes nothing, and
  judges the key the same way, whatever the random source would have given it. In external mode both
  tokens are set.
\<close>

theorem restart_is_stable:
  assumes first: "prepare C CL e True rnd fs = (Inr (pc2, key, m), fs4)"
    and rnd: "br_nonce rnd = Some n" "length n = cy_nonceSize C"
    and laws: "crypto_laws C"
    and disk: "fs_unreadable fs = []" "fs_readonly fs = []"
    and paths: "distinct (boot_paths pc2)"
  shows "prepare C CL e True rnd' fs4 = (Inr (pc2, key, m), fs4) \<and> cf_ProviderToken pc2 \<noteq> [] \<and> cf_EdgeToken pc2 \<noteq> []"
proof -
  obtain pc fs1 r fs2 pc1 fs3 where
    s: "Load CL e = Inr pc" "load_key (br_key rnd) True (cf_SecretsKeyFile pc) fs = (Inr key, fs1)"
      "VerifyKey C key (br_nonce rnd) (cf_SecretsKeyFile pc @ ''.canary'') fs1 = (r, fs2)" "m = (r = None)"
      "ensureProviderToken C (br_provider rnd) pc fs2 = (Inr pc1, fs3)"
      "ensureEdgeToken C (br_edge rnd) pc1 fs3 = (Inr pc2, fs4)"
    using first by (rule prepare_stages)
  note k = load_key_effect [OF s(2) disk(1)]
  note d1 = only_path_readable(1) [OF k(3) disk(1)] only_path_readable(2) [OF k(3) disk(2)]
  note v = verify_effect [OF s(3) [unfolded rnd(1)] d1 laws rnd(2)]
  note d2 = only_path_readable(1) [OF v(1) d1(1)]
  note p = provider_again [OF s(5) d2 laws]
  note d3 = only_path_readable(1) [OF p(1) d2]
  note g = edge_again [OF s(6) d3 laws]
  obtain t u where tu: "pc1 = pc\<lparr>cf_ProviderToken := t\<rparr>" "pc2 = pc1\<lparr>cf_EdgeToken := u\<rparr>" "t \<noteq> []" "u \<noteq> []"
    using p(2) g(2) by blast
  have files: "boot_paths pc2 = [cf_SecretsKeyFile pc, cf_SecretsKeyFile pc @ ''.canary'', ProviderTokenFile pc, EdgeTokenFile pc1]"
    by (simp add: boot_paths_def tu ProviderTokenFile_def EdgeTokenFile_def)
  have d4: "fs_unreadable fs4 = []" using only_path_readable(1) [OF g(1) d3] .
  have "mget (fs_content fs4) (cf_SecretsKeyFile pc) = Some key"
    using k(1) v(1) p(1) g(1) paths unfolding files only_path_def by simp
  then have key2: "load_key (br_key rnd') True (cf_SecretsKeyFile pc) fs4 = (Inr key, fs4)"
    using k(2) d4 by (rule load_key_again)
  have "mget (fs_content fs4) (cf_SecretsKeyFile pc @ ''.canary'') = mget (fs_content fs2) (cf_SecretsKeyFile pc @ ''.canary'')"
    using p(1) g(1) paths unfolding files only_path_def by simp
  then have "ReadFile fs4 (cf_SecretsKeyFile pc @ ''.canary'') = ReadFile fs2 (cf_SecretsKeyFile pc @ ''.canary'')"
    using d2 d4 by (simp add: read_known)
  moreover note v(3)
  ultimately have key3: "VerifyKey C key (br_nonce rnd') (cf_SecretsKeyFile pc @ ''.canary'') fs4 = (r, fs4)"
    using v(2) [of "br_nonce rnd'"] d2 by (auto simp: VerifyKey_def read_known split: sum.splits)
  have "q \<noteq> ProviderTokenFile pc" if "q = EdgeTokenFile pc1" for q using paths that unfolding files by auto
  then have tok2: "ensureProviderToken C (br_provider rnd') pc fs4 = (Inr pc1, fs4)"
    using p(3) [OF g(1)] by blast
  have "prepare C CL e True rnd' fs4 = (Inr (pc2, key, m), fs4)"
    using tu(3,4) unfolding prepare_def by (simp add: s(1,4) key2 key3 tok2 g(3)) (simp add: tu)
  with tu show ?thesis by simp
qed

text \<open>
  A swapped key is noticed: when the stored canary was made with one key and another key cannot open
  it, the check of the other key reports the mismatch and leaves the canary as it is, while the right key
  passes.
\<close>

theorem swapped_key_detected:
  assumes "crypto_laws C" "length n = cy_nonceSize C" "fs_unreadable fs = []" "fs_readonly fs = []"
    and "mget (fs_content fs) f = None"
    and "cy_open C other n (cy_seal C key n canaryPlaintext) = None"
  shows "\<exists>fs1. VerifyKey C key (Some n) f fs = (None, fs1) \<and> VerifyKey C key n' f fs1 = (None, fs1)
    \<and> VerifyKey C other n' f fs1 = (Some KeyMismatch, fs1)"
proof -
  let ?enc = "cy_encode C (n @ cy_seal C key n canaryPlaintext)"
  obtain fs1 where w: "WriteFile f ?enc fs = (True, fs1)" using assms(4) by (simp add: WriteFile_def)
  then have first: "VerifyKey C key (Some n) f fs = (None, fs1)"
    using assms(3,5) by (simp add: VerifyKey_def read_known Encrypt_def)
  have "fs_unreadable fs1 = []" using write_only [OF w] assms(3) by (simp add: only_path_def)
  moreover have "Decrypt C other (trim_space ?enc) = Inl BadCipher"
    using assms(1,2,6) by (simp add: crypto_laws_def Decrypt_def)
  ultimately have "VerifyKey C other n' f fs1 = (Some KeyMismatch, fs1)"
    using write_read [OF w] by (simp add: VerifyKey_def read_known)
  with first verify_effect(2) [OF first assms(3,4,1,2)] show ?thesis by blast
qed

section \<open>A concrete installation\<close>

text \<open>A cipher that prefixes the key's first byte, and encodings that put the text between two letters.\<close>

definition wrap_text :: "string \<Rightarrow> string" where
  "wrap_text raw = ''a'' @ raw @ ''z''"

definition sample_crypto :: crypto where
  "sample_crypto = \<lparr>cy_seal = (\<lambda>key n pt. take 1 key @ pt),
     cy_open = (\<lambda>key n ct. if prefix (take 1 key) ct then Some (drop (length (take 1 key)) ct) else None),
     cy_nonceSize = 1, cy_encode = wrap_text, cy_decode = (\<lambda>s. Some (take (length s - 2) (drop 1 s))), cy_rawurl = wrap_text\<rparr>"

lemma trim_wrap: "trim_space (wrap_text raw) = wrap_text raw"
  by (intro trim_space_printable) (simp_all add: wrap_text_def printable_def)

lemma sample_laws: "crypto_laws sample_crypto"
  by (auto simp: crypto_laws_def sample_crypto_def trim_wrap) (simp_all add: wrap_text_def)

definition sample_random :: boot_random where
  "sample_random = \<lparr>br_key = Some (replicate 32 (CHR ''k'')), br_nonce = Some ''n'', br_provider = Some ''p'', br_edge = Some ''e''\<rparr>"

definition empty_disk :: files where
  "empty_disk = \<lparr>fs_content = [], fs_unreadable = [], fs_readonly = []\<rparr>"

lemma swapped_key_detected_witness:
  "\<exists>fs1. VerifyKey sample_crypto ''old'' (Some ''n'') ''/data/secret.key.canary'' empty_disk = (None, fs1)
    \<and> VerifyKey sample_crypto ''old'' None ''/data/secret.key.canary'' fs1 = (None, fs1)
    \<and> VerifyKey sample_crypto ''new'' None ''/data/secret.key.canary'' fs1 = (Some KeyMismatch, fs1)"
  by (rule swapped_key_detected [OF sample_laws]) (simp_all add: sample_crypto_def empty_disk_def)

lemma default_files:
  "\<exists>c. Load ascii_libs [] = Inr c \<and> cf_ProviderToken c = [] \<and> cf_EdgeToken c = [] \<and> cf_TraefikManaged c
    \<and> cf_DBDriver c = DriverSQLite \<and> cf_RedisURL c = []
    \<and> boot_paths c = [''/data/secret.key'', ''/data/secret.key.canary'', ''/data/provider.token'', ''/data/edge.token'']"
proof -
  have e: "env_string [] k d = d" "envDuration ascii_libs [] k n = n" "envBool [] k b = b" for k d n b
    by (simp_all add: env_string_def envDuration_def envBool_def)
  have none: "parseStreamEntryPoints ascii_libs [] = Inr []" by code_simp
  have adv: "advertise ''XGRESS_PROVIDER_LISTEN'' [] ''127.0.0.1:9000'' = Inr ''http://127.0.0.1:9000''"
    "advertise ''XGRESS_EDGE_LISTEN'' [] ''127.0.0.1:9100'' = Inr ''http://127.0.0.1:9100''" by code_simp+
  have files: "path_join [''/data'', ''secret.key''] = ''/data/secret.key''"
    "path_join [''/data'', ''provider.token''] = ''/data/provider.token''"
    "path_join [''/data'', ''edge.token''] = ''/data/edge.token''" by code_simp+
  show ?thesis
    by (simp add: Load_def Let_def e none adv env_config_def validate_def DriverSQLite_def DriverPostgres_def
      boot_paths_def ProviderTokenFile_def EdgeTokenFile_def files)
qed

lemma sample_prepare:
  "\<exists>pc key m fs. prepare sample_crypto ascii_libs [] True sample_random empty_disk = (Inr (pc, key, m), fs)
    \<and> boot_paths pc = [''/data/secret.key'', ''/data/secret.key.canary'', ''/data/provider.token'', ''/data/edge.token'']
    \<and> cf_DBDriver pc = DriverSQLite \<and> cf_RedisURL pc = [] \<and> cf_TraefikManaged pc"
proof -
  obtain c where c: "Load ascii_libs [] = Inr c" "cf_ProviderToken c = []" "cf_EdgeToken c = []" "cf_TraefikManaged c"
      "cf_DBDriver c = DriverSQLite" "cf_RedisURL c = []"
    and bp: "boot_paths c = [''/data/secret.key'', ''/data/secret.key.canary'', ''/data/provider.token'', ''/data/edge.token'']"
    using default_files by blast
  have paths: "cf_SecretsKeyFile c = ''/data/secret.key''" "ProviderTokenFile c = ''/data/provider.token''"
    "EdgeTokenFile (c\<lparr>cf_ProviderToken := t\<rparr>) = ''/data/edge.token''" for t
    using bp by (simp_all add: boot_paths_def EdgeTokenFile_def)
  let ?k = "replicate 32 (CHR ''k'')"
  let ?d1 = "\<lparr>fs_content = [(''/data/secret.key'', ?k)], fs_unreadable = [], fs_readonly = []\<rparr>"
  let ?can = "(''/data/secret.key.canary'', wrap_text (CHR ''n'' # CHR ''k'' # canaryPlaintext))"
  let ?d2 = "\<lparr>fs_content = [(''/data/secret.key'', ?k), ?can], fs_unreadable = [], fs_readonly = []\<rparr>"
  let ?d3 = "\<lparr>fs_content = [(''/data/secret.key'', ?k), ?can, (''/data/provider.token'', wrap_text ''p'')], fs_unreadable = [], fs_readonly = []\<rparr>"
  have canary: "cf_SecretsKeyFile c @ ''.canary'' = ''/data/secret.key.canary''" by (simp add: paths(1))
  have s1: "load_key (Some ?k) True ''/data/secret.key'' empty_disk = (Inr ?k, ?d1)"
    by (simp add: load_key_def ReadFile_def WriteFile_def empty_disk_def)
  have s2: "VerifyKey sample_crypto ?k (Some ''n'') ''/data/secret.key.canary'' ?d1 = (None, ?d2)"
    by (simp add: VerifyKey_def ReadFile_def WriteFile_def Encrypt_def sample_crypto_def numeral_eq_Suc)
  have s3: "resolveToken sample_crypto (Some ''p'') [] ''/data/provider.token'' ?d2 = (Inr (wrap_text ''p''), ?d3)"
    by (simp add: resolveToken_def ReadFile_def WriteFile_def sample_crypto_def Let_def)
  have "\<exists>fs. resolveToken sample_crypto (Some ''e'') [] ''/data/edge.token'' ?d3 = (Inr (wrap_text ''e''), fs)"
    by (simp add: resolveToken_def ReadFile_def WriteFile_def sample_crypto_def Let_def)
  then obtain d4 where s4: "resolveToken sample_crypto (Some ''e'') [] ''/data/edge.token'' ?d3 = (Inr (wrap_text ''e''), d4)" by blast
  have rnd: "br_key sample_random = Some ?k" "br_nonce sample_random = Some ''n''" "br_provider sample_random = Some ''p''"
    "br_edge sample_random = Some ''e''" by (simp_all add: sample_random_def)
  let ?pc2 = "c\<lparr>cf_ProviderToken := wrap_text ''p'', cf_EdgeToken := wrap_text ''e''\<rparr>"
  have s5: "ensureProviderToken sample_crypto (Some ''p'') c ?d2 = (Inr (c\<lparr>cf_ProviderToken := wrap_text ''p''\<rparr>), ?d3)"
    unfolding ensureProviderToken_def paths(2) c(2) s3 by simp
  have s6: "ensureEdgeToken sample_crypto (Some ''e'') (c\<lparr>cf_ProviderToken := wrap_text ''p''\<rparr>) ?d3 = (Inr ?pc2, d4)"
    using s4 c(3) unfolding ensureEdgeToken_def paths(3) by simp
  have "prepare sample_crypto ascii_libs [] True sample_random empty_disk = (Inr (?pc2, ?k, True), d4)"
    by (simp add: prepare_def c rnd paths(1) s1 s2 s5 s6)
  moreover have "boot_paths ?pc2 = boot_paths c"
    by (simp add: boot_paths_def ProviderTokenFile_def EdgeTokenFile_def)
  ultimately show ?thesis using bp c by (intro exI [of _ ?pc2] exI) auto
qed

lemma restart_is_stable_witness:
  "\<exists>pc key m fs. prepare sample_crypto ascii_libs [] True sample_random empty_disk = (Inr (pc, key, m), fs)
    \<and> prepare sample_crypto ascii_libs [] True \<lparr>br_key = None, br_nonce = None, br_provider = None, br_edge = None\<rparr> fs
        = (Inr (pc, key, m), fs)"
proof -
  obtain pc2 key m fs where p: "prepare sample_crypto ascii_libs [] True sample_random empty_disk = (Inr (pc2, key, m), fs)"
    and b: "boot_paths pc2 = [''/data/secret.key'', ''/data/secret.key.canary'', ''/data/provider.token'', ''/data/edge.token'']"
    using sample_prepare by blast
  have "prepare sample_crypto ascii_libs [] True \<lparr>br_key = None, br_nonce = None, br_provider = None, br_edge = None\<rparr> fs
      = (Inr (pc2, key, m), fs)"
    using restart_is_stable [OF p, of "''n''"] sample_laws b
    by (simp add: sample_random_def sample_crypto_def empty_disk_def)
  with p show ?thesis by blast
qed

end
