(* ===== verification/Startup.thy ===== *)
theory Startup
  imports Migrate Secrets Api EdgeProps Waf
begin

text \<open>
  The process as a whole, \<open>run\<close> of \<open>cmd/xgress/main.go\<close>: how the configuration reaches the engine, the edge
  and the supervisor, which cache is chosen (with the Redis store of \<open>internal/edge/cache.go\<close>), the boot
  up to the listening servers, the shutdown, the directory of external certificates and the background
  loops of \<open>internal/engine\<close>.
\<close>

section \<open>The shared cache\<close>

text \<open>The Redis client is third-party: its reads, with None for any error, and its writes.\<close>

record 'r redis_client =
  rc_Get :: "string \<Rightarrow> gotime \<Rightarrow> 'r \<Rightarrow> string option \<times> 'r"
  rc_Set :: "string \<Rightarrow> string \<Rightarrow> duration \<Rightarrow> gotime \<Rightarrow> 'r \<Rightarrow> 'r"

definition redis_prefix :: string where
  "redis_prefix = ''xgresscache:''"

definition redis_Get :: "'r redis_client \<Rightarrow> string \<Rightarrow> gotime \<Rightarrow> 'r \<Rightarrow> string option \<times> 'r" where
  "redis_Get RC key = rc_Get RC (redis_prefix @ key)"

definition redis_Set :: "'r redis_client \<Rightarrow> string \<Rightarrow> string \<Rightarrow> duration \<Rightarrow> gotime \<Rightarrow> 'r \<Rightarrow> 'r" where
  "redis_Set RC key = rc_Set RC (redis_prefix @ key)"

definition redis_ops :: "'r redis_client \<Rightarrow> 'r cache_ops" where
  "redis_ops RC = \<lparr>co_Get = redis_Get RC, co_Set = redis_Set RC\<rparr>"

text \<open>\<open>parse\<close> is the client's reading of an address.\<close>

definition NewRedisStore :: "(string \<Rightarrow> 'o option) \<Rightarrow> string \<Rightarrow> 'o option" where
  "NewRedisStore parse url = parse (normalizeRedisURL url)"

datatype 'o cache_choice = RedisCache 'o | MemoryCache mem_store

definition cache_name :: "'o cache_choice \<Rightarrow> string" where
  "cache_name c = (case c of RedisCache _ \<Rightarrow> ''redis'' | MemoryCache _ \<Rightarrow> ''in-memory'')"

definition choose_cache :: "(string \<Rightarrow> 'o option) \<Rightarrow> config \<Rightarrow> 'o cache_choice option" where
  "choose_cache parse pc =
     (if cf_RedisURL pc \<noteq> [] then map_option RedisCache (NewRedisStore parse (cf_RedisURL pc))
      else Some (MemoryCache (NewMemStore
        \<lparr>ml_MaxBytes = cf_CacheMaxBytes pc, ml_MaxEntryBytes = cf_CacheMaxEntryBytes pc, ml_MaxEntries = 0\<rparr>)))"

definition CacheBackendName :: "'o cache_choice option \<Rightarrow> string" where
  "CacheBackendName edge = (case edge of None \<Rightarrow> [] | Some c \<Rightarrow> cache_name c)"

section \<open>External certificates\<close>

definition path_ext :: "string \<Rightarrow> string" where
  "path_ext name = (if CHR ''.'' \<in> set name then CHR ''.'' # rev (takeWhile (\<lambda>c. c \<noteq> CHR ''.'') (rev name)) else [])"

text \<open>An entry's pair, None when the loop goes on without one.\<close>

definition external_pair :: "string \<Rightarrow> files \<Rightarrow> string \<Rightarrow> (string \<times> string) option" where
  "external_pair dir fs name =
     (let ext = path_ext name in
      if ext \<noteq> ''.crt'' \<and> ext \<noteq> ''.pem'' then None
      else
        (let keyPath = path_join [dir, trim_suffix name ext @ ''.key''] in
         if ReadFile fs keyPath = NotExist then None
         else
           (case (ReadFile fs (path_join [dir, name]), ReadFile fs keyPath) of
              (Content c, Content k) \<Rightarrow> Some (c, k)
            | _ \<Rightarrow> None)))"

text \<open>\<open>entries\<close> are the names in the directory, None when it cannot be listed.\<close>

definition externalCerts :: "config \<Rightarrow> string list option \<Rightarrow> files \<Rightarrow> (string \<times> string) list" where
  "externalCerts pc entries fs =
     (if cf_ExternalCertsDir pc = [] then []
      else (case entries of
              None \<Rightarrow> []
            | Some names \<Rightarrow> List.map_filter (external_pair (cf_ExternalCertsDir pc) fs) names))"

section \<open>Wiring\<close>

text \<open>
  What \<open>New\<close> and \<open>SetCacheEdge\<close> hand to the engine, with the holder name made of host name and process id.
  The code reads the directory of external certificates anew for every rendering; here its content is a
  field, so a changed directory is another value of the record.
\<close>

definition holder_id :: "string \<Rightarrow> int \<Rightarrow> string" where
  "holder_id host pid = host @ ''-'' @ show_int pid"

definition engine_cfg :: "config \<Rightarrow> string \<Rightarrow> (string \<times> string) list \<Rightarrow> eng_cfg" where
  "engine_cfg pc holder external = \<lparr>
     ec_HTTPEntryPoint = cf_HTTPEntryPoint pc, ec_HTTPSEntryPoint = cf_HTTPSEntryPoint pc,
     ec_WAFDefaultEnabled = cf_WAFDefaultEnabled pc, ec_TraefikManaged = cf_TraefikManaged pc, ec_HasEdge = True,
     ec_ChallengeBackend = cf_ProviderAdvertise pc, ec_CacheBackend = cf_EdgeAdvertise pc,
     ec_CacheToken = cf_EdgeToken pc, ec_HolderID = holder, ec_RenewalLeaseTTL = cf_RenewalLeaseTTL pc,
     ec_ExternalCerts = external\<rparr>"

definition new_engine :: "db \<Rightarrow> env \<Rightarrow> engine" where
  "new_engine d e = \<lparr>en_db = d, en_env = e, en_rendered = None, en_version = 0, en_edgeHosts = [],
     en_edgeFlags = (False, False), en_banHits = [], en_banReload = False, en_banConfig = None, en_recoverLevel = 0,
     en_lastRecovery = [], en_lastRecoveryAt = zero_time, en_wafStatus = (True, []), en_alerts = []\<rparr>"

definition SetWAFResponseFailClosed :: "bool \<Rightarrow> server \<Rightarrow> server" where
  "SetWAFResponseFailClosed v s = s\<lparr>ed_wafRespFailClosed := v\<rparr>"

definition edge_server :: "config \<Rightarrow> server" where
  "edge_server pc = SetWAFResponseFailClosed (cf_WAFResponseFailClosed pc)
     (SetEntryLimit (cf_CacheMaxEntryBytes pc) (new_server (cf_CacheTTL pc) (cf_EdgeToken pc)))"

definition supervisor_opts :: "config \<Rightarrow> sup_opts" where
  "supervisor_opts pc = \<lparr>so_Managed = cf_TraefikManaged pc, so_RestartDrain = cf_RestartDrain pc, so_OnCrashLoop = True\<rparr>"

section \<open>Boot\<close>

text \<open>What the surroundings answer during a start.\<close>

record surroundings =
  sd_dirs :: bool
  sd_random :: boot_random
  sd_opened :: bool
  sd_pinged :: bool
  sd_host :: string
  sd_pid :: int
  sd_externals :: "string list option"
  sd_assets :: bool
  sd_static_io :: "string option"
  sd_start :: start_result
  sd_now :: gotime

text \<open>The firewall's compiler and the decoder of the stored directives.\<close>

record waf_compiler =
  wc_directives :: "string \<Rightarrow> string list"
  wc_build :: "int \<Rightarrow> int \<Rightarrow> string list \<Rightarrow> string option"

datatype listener = EdgeListener | ProviderListener | AdminListener

record 'o running =
  rn_config :: config
  rn_key :: string
  rn_eng_cfg :: eng_cfg
  rn_acme :: acme_manager
  rn_cache :: "'o cache_choice"
  rn_edge :: server
  rn_machine :: machine
  rn_listening :: "listener list"

datatype run_err = RunPrepare boot_err | RunOpen open_err | RunRedis | RunAssets | RunBootstrap string

text \<open>
  From the opened database to the background loops: nothing listens yet. \<open>static\<close> is the content of
  Traefik's static file as the start finds it.
\<close>

definition assemble :: "heal_libs \<Rightarrow> waf_compiler \<Rightarrow> (string \<Rightarrow> 'o option) \<Rightarrow> surroundings \<Rightarrow> env \<Rightarrow> files \<Rightarrow> string option
    \<Rightarrow> config \<Rightarrow> string \<Rightarrow> db \<Rightarrow> run_err + 'o running" where
  "assemble HL WC parse_redis sd e fs static pc key d =
     (let (am, d1) = acme_options pc d;
          cfg = engine_cfg pc (holder_id (sd_host sd) (sd_pid sd)) (externalCerts pc (sd_externals sd) fs) in
      case choose_cache parse_redis pc of
        None \<Rightarrow> Inl RunRedis
      | Some cache \<Rightarrow>
          if \<not> sd_assets sd then Inl RunAssets
          else
            (let waf = RebuildWAF (wc_directives WC) (wc_build WC) DefaultParanoiaLevel DefaultAnomalyThreshold cfg;
                 w = \<lparr>mc_eng = new_engine d1 e, mc_sup = boot (supervisor_opts pc), mc_static = static\<rparr> in
             case Bootstrap HL waf pc cfg (sd_static_io sd) (sd_start sd) (sd_now sd) w of
               (Some x, _) \<Rightarrow> Inl (RunBootstrap x)
             | (None, w1) \<Rightarrow> Inr \<lparr>rn_config = pc, rn_key = key, rn_eng_cfg = cfg, rn_acme = am, rn_cache = cache,
                 rn_edge = edge_server pc, rn_machine = w1, rn_listening = []\<rparr>))"

definition run_boot :: "crypto \<Rightarrow> cfg_libs \<Rightarrow> heal_libs \<Rightarrow> waf_compiler \<Rightarrow> (string \<Rightarrow> 'o option) \<Rightarrow> surroundings \<Rightarrow> env
    \<Rightarrow> string option \<Rightarrow> db \<Rightarrow> files \<times> schema \<Rightarrow> (run_err + 'o running) \<times> (files \<times> schema)" where
  "run_boot C CL HL WC parse_redis sd e static d disk =
     (case prepare C CL e (sd_dirs sd) (sd_random sd) (fst disk) of
        (Inl x, fs) \<Rightarrow> (Inl (RunPrepare x), (fs, snd disk))
      | (Inr (pc, key, key_fits), fs) \<Rightarrow>
          (case Open pc (sd_opened sd) (sd_pinged sd) (snd disk) of
             (Inl x, s) \<Rightarrow> (Inl (RunOpen x), (fs, s))
           | (Inr dia, s) \<Rightarrow> (assemble HL WC parse_redis sd e fs static pc key d, (fs, s))))"

section \<open>Serving and shutting down\<close>

text \<open>Each server starts in its own goroutine; \<open>serve\<close> is one of them starting to listen.\<close>

definition serve :: "listener \<Rightarrow> 'o running \<Rightarrow> 'o running" where
  "serve l rn = (if l \<in> set (rn_listening rn) then rn else rn\<lparr>rn_listening := rn_listening rn @ [l]\<rparr>)"

definition shut :: "listener \<Rightarrow> 'o running \<Rightarrow> 'o running" where
  "shut l rn = rn\<lparr>rn_listening := filter (\<lambda>x. x \<noteq> l) (rn_listening rn)\<rparr>"

text \<open>After a signal or the failure of a server: the servers in order, then Traefik.\<close>

definition shutdown :: "'o running \<Rightarrow> 'o running" where
  "shutdown rn =
     (let rn1 = shut EdgeListener (shut ProviderListener (shut AdminListener rn)) in
      rn1\<lparr>rn_machine := (rn_machine rn1)\<lparr>mc_sup := Stop (mc_sup (rn_machine rn1))\<rparr>\<rparr>)"

text \<open>Why the process stops, and what \<open>run\<close> returns then: no error, whatever the reason.\<close>

datatype stop_reason = SignalReceived | ServerFailed string

definition finish :: "stop_reason \<Rightarrow> 'o running \<Rightarrow> run_err option \<times> 'o running" where
  "finish why rn = (case why of SignalReceived \<Rightarrow> (None, shutdown rn) | ServerFailed x \<Rightarrow> (None, shutdown rn))"

section \<open>Background loops\<close>

text \<open>
  A round of a loop returns or panics, in a state. \<open>goSafe\<close> and \<open>recoverGuard\<close> log a panic and go on after
  the call; what differs is what the call encloses.
\<close>

datatype 's round = Returned 's | Panicked 's

primrec after_round :: "'s round \<Rightarrow> 's" where
  "after_round (Returned s) = s"
| "after_round (Panicked s) = s"

definition recoverGuard :: "('s \<Rightarrow> 's round) \<Rightarrow> 's \<Rightarrow> 's" where
  "recoverGuard f s = after_round (f s)"

text \<open>The scheduler guards each round, the loops of \<open>StartBackground\<close> are guarded as a whole.\<close>

definition scheduler_loop :: "('s \<Rightarrow> 's round) list \<Rightarrow> 's \<Rightarrow> 's" where
  "scheduler_loop rounds s = fold recoverGuard rounds s"

fun safe_loop :: "('s \<Rightarrow> 's round) list \<Rightarrow> 's \<Rightarrow> bool \<times> 's" where
  "safe_loop [] s = (True, s)"
| "safe_loop (f # fs) s = (case f s of Returned s' \<Rightarrow> safe_loop fs s' | Panicked s' \<Rightarrow> (False, s'))"

text \<open>When the renewal loop looks: shortly after the start, then at the interval.\<close>

definition renewal_interval :: "duration \<Rightarrow> duration" where
  "renewal_interval configured = (if configured \<le> 0 then 12 * hour else configured)"

definition renewal_initial :: "duration \<Rightarrow> duration" where
  "renewal_initial configured =
     (let interval = renewal_interval configured in if interval < 30 * second then interval else 30 * second)"

definition renewal_times :: "duration \<Rightarrow> gotime \<Rightarrow> nat \<Rightarrow> gotime list" where
  "renewal_times configured start n =
     map (\<lambda>i. start + renewal_initial configured + int i * renewal_interval configured) [0..<n]"

text \<open>Every hour, expired sessions go.\<close>

definition session_purge_tick :: "gotime \<Rightarrow> engine \<Rightarrow> engine" where
  "session_purge_tick now e = snd (run_db (PurgeExpiredSessions (unix_of now)) e)"

text \<open>A tick of the scheduler's clock: the next full minute.\<close>

definition next_tick :: "gotime \<Rightarrow> gotime" where
  "next_tick now = now div minute * minute + minute"

section \<open>What a started process guarantees\<close>

lemma prepare_tokens:
  assumes "prepare C CL e d rnd fs = (Inr (pc, key, m), fs')" "crypto_laws C"
  shows "cf_ProviderToken pc \<noteq> []" "cf_EdgeToken pc \<noteq> []"
proof -
  have new: "t \<noteq> []" if "resolveToken C r given f fs = (Inr t, fs1)" for r given f fs t fs1
    using that assms(2) by (auto simp: resolveToken_def crypto_laws_def Let_def split: if_splits option.splits prod.splits bool.splits)
  obtain pc0 fs1 r fs2 pc1 fs3 where
    s: "ensureProviderToken C (br_provider rnd) pc0 fs2 = (Inr pc1, fs3)" "ensureEdgeToken C (br_edge rnd) pc1 fs3 = (Inr pc, fs')"
    using assms(1) by (rule prepare_stages)
  from s new show "cf_ProviderToken pc \<noteq> []" "cf_EdgeToken pc \<noteq> []"
    by (auto simp: ensureProviderToken_def ensureEdgeToken_def split: prod.splits sum.splits)
qed

lemma on_engine_static: "on_engine f w = (x, w') \<Longrightarrow> mc_static w' = mc_static w"
  by (auto simp: on_engine_def split: prod.splits)

text \<open>After the static file was synchronised it is, up to the hash, what the configuration says.\<close>

definition static_current :: "heal_libs \<Rightarrow> config \<Rightarrow> string option \<Rightarrow> bool" where
  "static_current HL pc f \<longleftrightarrow> (\<exists>a m y old. RenderStatic (hl_yaml HL) (full_static pc a m) = Inr y
     \<and> f = Some old \<and> hl_hash HL old = hl_hash HL y)"

lemma SyncStatic_current:
  assumes "SyncStatic HL pc io force w = (None, w')"
  shows "static_current HL pc (mc_static w')"
proof -
  obtain a w1 where a: "on_engine (settingBool ''traefik.accessLog'' True) w = (a, w1)" by fastforce
  obtain m w2 where m: "on_engine (settingBool ''traefik.metrics'' True) w1 = (m, w2)" by fastforce
  obtain y where y: "RenderStatic (hl_yaml HL) (full_static pc a m) = Inr y"
    using assms a m by (auto simp: SyncStatic_def split: sum.splits)
  then have "\<exists>old. mc_static w' = Some old \<and> hl_hash HL old = hl_hash HL y"
    using assms a m by (auto simp: SyncStatic_def Let_def split: prod.splits option.splits if_splits)
  with y show ?thesis unfolding static_current_def by blast
qed

lemma Bootstrap_current:
  assumes "Bootstrap HL waf pc cfg io os now w = (None, w')"
  shows "static_current HL pc (mc_static w')"
  using assms
  by (auto simp: Bootstrap_def Let_def split: prod.splits option.splits dest!: SyncStatic_current on_engine_static)

lemma engine_cfg_token: "ec_CacheToken (engine_cfg pc h x) = cf_EdgeToken pc"
  by (simp add: engine_cfg_def)

lemma run_boot_parts:
  assumes "run_boot C CL HL WC parse sd e static d disk = (Inr rn, disk')"
  obtains key m fs cfg w waf where
    "prepare C CL e (sd_dirs sd) (sd_random sd) (fst disk) = (Inr (rn_config rn, key, m), fs)"
    "rn_edge rn = edge_server (rn_config rn)" "ec_CacheToken (rn_eng_cfg rn) = cf_EdgeToken (rn_config rn)"
    "Bootstrap HL waf (rn_config rn) (rn_eng_cfg rn) (sd_static_io sd) (sd_start sd) (sd_now sd) w = (None, rn_machine rn)"
    "rn_listening rn = []"
proof -
  obtain pc key m fs where p: "prepare C CL e (sd_dirs sd) (sd_random sd) (fst disk) = (Inr (pc, key, m), fs)"
    and a: "assemble HL WC parse sd e fs static pc key d = Inr rn"
    using assms by (auto simp: run_boot_def split: prod.splits sum.splits)
  from a have "rn_config rn = pc \<and> rn_edge rn = edge_server pc \<and> ec_CacheToken (rn_eng_cfg rn) = cf_EdgeToken pc
    \<and> (\<exists>waf w. Bootstrap HL waf pc (rn_eng_cfg rn) (sd_static_io sd) (sd_start sd) (sd_now sd) w = (None, rn_machine rn))
    \<and> rn_listening rn = []"
    by (auto simp: assemble_def Let_def engine_cfg_token split: prod.splits option.splits if_splits) (intro exI, assumption)
  with p show thesis using that by blast
qed

lemma edge_server_token: "ed_token (edge_server pc) = cf_EdgeToken pc"
  by (simp add: edge_server_def SetWAFResponseFailClosed_def SetEntryLimit_def new_server_def)

text \<open>The edge as later reloads set it up.\<close>

definition configured_edge :: "(string \<Rightarrow> string) \<Rightarrow> host list \<Rightarrow> coraza_tx option \<Rightarrow> bool \<Rightarrow> bool \<Rightarrow> server \<Rightarrow> server" where
  "configured_edge uni hs tx waf cache s = SetEnabled waf cache (SetHosts uni hs (s\<lparr>ed_waf := tx\<rparr>))"

lemma configured_edge_token: "ed_token (configured_edge uni hs tx waf cache s) = ed_token s"
  by (simp add: configured_edge_def SetEnabled_def SetHosts_def)

text \<open>
  C19: A started process is gated: whatever the environment and the mode, once the boot succeeded both
  tokens are set; the provider endpoint denies every request without the provider token and the edge
  answers 403 to every request without the edge token, while Traefik's static file carries the provider
  token and the renderer gets the token the edge asks for. Before that, nothing listens.
\<close>

theorem booted_is_gated:
  assumes boot: "run_boot C CL HL WC parse sd e static d disk = (Inr rn, disk')"
    and laws: "crypto_laws C"
  shows "(header \<noteq> cf_ProviderToken (rn_config rn)
      \<longrightarrow> handleProvider jparse enc lookup decrypt (cf_ProviderToken (rn_config rn)) header inm eng = Denied)
    \<and> (hget (rq_Header r) EdgeTokenHeader \<noteq> cf_EdgeToken (rn_config rn)
      \<longrightarrow> ServeHTTP EL CO (configured_edge uni hs tx waf cache (rn_edge rn)) now r st = (HttpError 403, st))
    \<and> static_current HL (rn_config rn) (mc_static (rn_machine rn))
    \<and> sg_ProviderToken (full_static (rn_config rn) al ms) = cf_ProviderToken (rn_config rn)
    \<and> cf_ProviderToken (rn_config rn) \<noteq> [] \<and> cf_EdgeToken (rn_config rn) \<noteq> []
    \<and> ec_CacheToken (rn_eng_cfg rn) = ed_token (rn_edge rn) \<and> rn_listening rn = []"
proof -
  obtain key m fs cfg w bw where
    p: "prepare C CL e (sd_dirs sd) (sd_random sd) (fst disk) = (Inr (rn_config rn, key, m), fs)"
      "rn_edge rn = edge_server (rn_config rn)" "ec_CacheToken (rn_eng_cfg rn) = cf_EdgeToken (rn_config rn)"
      "Bootstrap HL bw (rn_config rn) (rn_eng_cfg rn) (sd_static_io sd) (sd_start sd) (sd_now sd) w = (None, rn_machine rn)"
      "rn_listening rn = []"
    using boot by (rule run_boot_parts)
  note tokens = prepare_tokens [OF p(1) laws]
  have tok: "ed_token (configured_edge uni hs tx waf cache (rn_edge rn)) = cf_EdgeToken (rn_config rn)"
    by (simp add: configured_edge_token p(2) edge_server_token)
  have "ServeHTTP EL CO (configured_edge uni hs tx waf cache (rn_edge rn)) now r st = (HttpError 403, st)"
    if "hget (rq_Header r) EdgeTokenHeader \<noteq> cf_EdgeToken (rn_config rn)"
    using that tok tokens(2) by (simp add: ServeHTTP_def)
  then show ?thesis
    using p tokens Bootstrap_current [OF p(4)]
    by (simp add: handleProvider_def edge_server_token full_static_def static_of_def)
qed

section \<open>A concrete start\<close>

lemma on_engine_sup: "on_engine f w = (x, w') \<Longrightarrow> mc_sup w' = mc_sup w"
  by (auto simp: on_engine_def split: prod.splits)

text \<open>Where Traefik does not run yet and files can be written, synchronising the static file succeeds.\<close>

lemma SyncStatic_first:
  assumes "hl_yaml HL = (\<lambda>_. Inr y)" "sp_state (w_sup (mc_sup w)) = StateStopped" "mc_static w = None"
  shows "\<exists>w'. SyncStatic HL pc None False w = (None, w') \<and> mc_sup w' = mc_sup w"
proof -
  obtain a w1 where a: "on_engine (settingBool ''traefik.accessLog'' True) w = (a, w1)" by fastforce
  obtain m w2 where m: "on_engine (settingBool ''traefik.metrics'' True) w1 = (m, w2)" by fastforce
  have "mc_sup w2 = mc_sup w" "mc_static w2 = None"
    using on_engine_sup [OF a] on_engine_sup [OF m] on_engine_static [OF a] on_engine_static [OF m] assms(3) by simp_all
  with a m assms show ?thesis by (auto simp: SyncStatic_def RenderStatic_def Let_def)
qed

lemma Bootstrap_first:
  assumes "hl_yaml HL = (\<lambda>_. Inr y)" "sp_state (w_sup (mc_sup w)) = StateStopped" "mc_static w = None"
  shows "\<exists>w'. Bootstrap HL waf pc cfg None Starts now w = (None, w')"
  using SyncStatic_first [OF assms, of pc]
  by (auto simp: Bootstrap_def Start_def spawnLocked_def Let_def split: prod.splits)

definition quiet :: surroundings where
  "quiet = \<lparr>sd_dirs = True, sd_random = sample_random, sd_opened = True, sd_pinged = True, sd_host = ''box'', sd_pid = 1,
     sd_externals = None, sd_assets = True, sd_static_io = None, sd_start = Starts, sd_now = 0\<rparr>"

definition no_rules :: waf_compiler where
  "no_rules = \<lparr>wc_directives = (\<lambda>_. []), wc_build = (\<lambda>_ _ _. None)\<rparr>"

lemma sample_boot:
  "\<exists>rn disk. run_boot sample_crypto ascii_libs sample_heal no_rules (\<lambda>_. None :: unit option) quiet [] None empty_db
     (empty_disk, fresh_schema) = (Inr rn, disk)"
proof -
  obtain pc key m fs where p: "prepare sample_crypto ascii_libs [] True sample_random empty_disk = (Inr (pc, key, m), fs)"
    "cf_DBDriver pc = DriverSQLite" "cf_RedisURL pc = []" "cf_TraefikManaged pc"
    using sample_prepare by blast
  obtain r s where s: "migrate DialectSQLite migrationsFS fresh_schema = (r, s)" by fastforce
  moreover have "begun fresh_schema" by (simp add: begun_def fresh_schema_def)
  ultimately have "r = None" using migrate_begun by (force simp: fresh_schema_def)
  with s p(2) have o: "Open pc True True fresh_schema = (Inr DialectSQLite, s)" by (simp add: Open_def dialect_of_def)
  obtain am d1 where am: "acme_options pc empty_db = (am, d1)" by fastforce
  let ?cfg = "engine_cfg pc (holder_id ''box'' 1) (externalCerts pc None fs)"
  let ?waf = "RebuildWAF (wc_directives no_rules) (wc_build no_rules) DefaultParanoiaLevel DefaultAnomalyThreshold ?cfg"
  let ?w = "\<lparr>mc_eng = new_engine d1 [], mc_sup = boot (supervisor_opts pc), mc_static = None\<rparr>"
  obtain w where "Bootstrap sample_heal ?waf pc ?cfg None Starts 0 ?w = (None, w)"
    using Bootstrap_first [of sample_heal "[]" ?w ?waf pc ?cfg 0] p(4)
    by (auto simp: sample_heal_def boot_def new_supervisor_def supervisor_opts_def)
  then have "\<exists>rn. assemble sample_heal no_rules (\<lambda>_. None :: unit option) quiet [] fs None pc key empty_db = Inr rn"
    using p(3) by (simp add: assemble_def am quiet_def choose_cache_def Let_def)
  with p(1) o show ?thesis by (auto simp: run_boot_def quiet_def)
qed

lemma booted_is_gated_witness:
  "\<exists>rn disk. run_boot sample_crypto ascii_libs sample_heal no_rules (\<lambda>_. None :: unit option) quiet [] None empty_db
     (empty_disk, fresh_schema) = (Inr rn, disk) \<and> cf_ProviderToken (rn_config rn) \<noteq> []
     \<and> handleProvider (\<lambda>_. None) (\<lambda>_. []) (\<lambda>_. None) (\<lambda>_. None) (cf_ProviderToken (rn_config rn)) [] [] (mc_eng (rn_machine rn)) = Denied"
proof -
  obtain rn disk where b: "run_boot sample_crypto ascii_libs sample_heal no_rules (\<lambda>_. None :: unit option) quiet [] None empty_db
     (empty_disk, fresh_schema) = (Inr rn, disk)" using sample_boot by blast
  then show ?thesis using booted_is_gated [OF b sample_laws] by metis
qed

section \<open>Loops and panics\<close>

text \<open>A round that panics costs the scheduler that round only; it costs a loop guarded as a whole all later rounds.\<close>

lemma scheduler_survives: "scheduler_loop (fs @ f # gs) s = scheduler_loop gs (after_round (f (scheduler_loop fs s)))"
  by (simp add: scheduler_loop_def recoverGuard_def)

lemma safe_loop_append:
  "safe_loop (fs @ gs) s = (case safe_loop fs s of (True, s') \<Rightarrow> safe_loop gs s' | (False, s') \<Rightarrow> (False, s'))"
  by (induction fs s rule: safe_loop.induct) (auto split: round.splits)

lemma safe_loop_dies:
  "safe_loop fs s = (True, s1) \<Longrightarrow> f s1 = Panicked s2 \<Longrightarrow> safe_loop (fs @ f # gs) s = (False, s2)"
  by (simp add: safe_loop_append)

lemma renewal_soon:
  "0 < renewal_initial n \<and> renewal_initial n \<le> renewal_interval n \<and> renewal_initial n \<le> 30 * second"
  by (simp add: renewal_initial_def renewal_interval_def Let_def)

text \<open>A server that cannot listen ends the process without an error.\<close>

lemma server_failure_is_silent: "fst (finish (ServerFailed x) rn) = None"
  by (simp add: finish_def)

lemma shutdown_silent: "rn_listening (shutdown rn) = []"
  using listener.exhaust by (auto simp: shutdown_def shut_def Let_def filter_empty_conv)

end
