(* ===== verification/Serving.thy ===== *)
theory Serving
  imports Features Webcontent Startup
begin

text \<open>
  What stands around the handlers: the wrappers of the admin server and its health report
  (\<open>internal/api/server.go\<close>), the mux Traefik reaches (\<open>ProviderHandler\<close> and the routes \<open>run\<close> adds in
  \<open>cmd/xgress/main.go\<close>), and the client of Traefik's API (\<open>internal/traefikapi/client.go\<close>).
\<close>

section \<open>Traefik's API\<close>

text \<open>The client's base address, empty when it is disabled.\<close>

type_synonym tapi_client = string

definition NewTraefikAPI :: "string \<Rightarrow> tapi_client" where
  "NewTraefikAPI addr = (if addr \<noteq> [] then ''http://'' @ addr else [])"

definition TraefikAPIEnabled :: "tapi_client \<Rightarrow> bool" where
  "TraefikAPIEnabled c \<longleftrightarrow> c \<noteq> []"

text \<open>What a GET comes to: the error of building or sending it, or the status, its text and the body.\<close>

datatype get_outcome = GetFails string | Replied int string "string + string"

definition api_limit :: nat where
  "api_limit = 8388608"

definition ErrDisabled :: string where
  "ErrDisabled = ''traefik API is not enabled''"

definition Raw :: "(string \<Rightarrow> get_outcome) \<Rightarrow> tapi_client \<Rightarrow> string \<Rightarrow> string + string" where
  "Raw get c path =
     (if c = [] then Inl ErrDisabled
      else
        (case get (c @ path) of
           GetFails x \<Rightarrow> Inl x
         | Replied status text body \<Rightarrow>
             (case body of
                Inl x \<Rightarrow> Inl x
              | Inr b \<Rightarrow>
                  if status \<ge> 300 then Inl (''traefik API '' @ path @ '' -> '' @ text) else Inr (take api_limit b))))"

definition Routers :: "(string \<Rightarrow> get_outcome) \<Rightarrow> (string \<Rightarrow> string + api_router list) \<Rightarrow> tapi_client \<Rightarrow> string + api_router list" where
  "Routers get parse c = (case Raw get c ''/api/http/routers'' of Inl x \<Rightarrow> Inl x | Inr b \<Rightarrow> parse b)"

definition Services :: "(string \<Rightarrow> get_outcome) \<Rightarrow> (string \<Rightarrow> string + api_service list) \<Rightarrow> tapi_client \<Rightarrow> string + api_service list" where
  "Services get parse c = (case Raw get c ''/api/http/services'' of Inl x \<Rightarrow> Inl x | Inr b \<Rightarrow> parse b)"

text \<open>The handlers' parameters, made from the client that the engine has for its configured address.\<close>

definition with_traefik :: "config \<Rightarrow> (string \<Rightarrow> get_outcome) \<Rightarrow> (string \<Rightarrow> string + api_router list)
    \<Rightarrow> (string \<Rightarrow> string + api_service list) \<Rightarrow> feat_libs \<Rightarrow> feat_libs" where
  "with_traefik pc get parse_routers parse_services FL =
     (let c = NewTraefikAPI (cf_TraefikAPIListen pc) in
      FL\<lparr>ft_traefik := Raw get c, ft_routers := Routers get parse_routers c, ft_services := Services get parse_services c\<rparr>)"

section \<open>Wrappers\<close>

text \<open>A handler answers or panics, in a state either way.\<close>

datatype ('b, 's) handled = Answered "'b api_reply" 's | Crashed 's

definition recoverer :: "('q \<Rightarrow> 's \<Rightarrow> ('b, 's) handled) \<Rightarrow> 'q \<Rightarrow> 's \<Rightarrow> 'b api_reply \<times> 's" where
  "recoverer h r st = (case h r st of Answered rep st' \<Rightarrow> (rep, st') | Crashed st' \<Rightarrow> (ApiErr 500 ''internal error'', st'))"

definition adminCSP :: string where
  "adminCSP =
     ''default-src '' @ single_quoted ''self'' @ ''; script-src '' @ single_quoted ''self''
     @ ''; style-src '' @ single_quoted ''self'' @ '' '' @ single_quoted ''unsafe-inline''
     @ ''; img-src '' @ single_quoted ''self'' @ '' data:; connect-src '' @ single_quoted ''self''
     @ ''; object-src '' @ single_quoted ''none'' @ ''; base-uri '' @ single_quoted ''none''
     @ ''; frame-ancestors '' @ single_quoted ''none'' @ ''; form-action '' @ single_quoted ''none''"

definition securityHeaders :: "header \<Rightarrow> header" where
  "securityHeaders h =
     hset ''Content-Security-Policy'' adminCSP
       (hset ''Referrer-Policy'' ''same-origin'' (hset ''X-Frame-Options'' ''DENY'' (hset ''X-Content-Type-Options'' ''nosniff'' h)))"

definition maxRequestBody :: nat where
  "maxRequestBody = 16777216"

text \<open>The bytes a handler can read of a body, and whether reading on fails.\<close>

definition bodyLimit :: "string option \<Rightarrow> string \<times> bool" where
  "bodyLimit body =
     (case body of None \<Rightarrow> ([], False) | Some b \<Rightarrow> (take maxRequestBody b, length b > maxRequestBody))"

text \<open>
  The admin server: the recovery is outermost, then the headers, then the limit, then the mux, whose
  handlers get the limited body. Headers set before a panic stay.
\<close>

definition AdminHandler :: "(string \<times> bool \<Rightarrow> 'q \<Rightarrow> 's \<Rightarrow> ('b, 's) handled) \<Rightarrow> string option \<Rightarrow> 'q \<Rightarrow> 's
    \<Rightarrow> header \<times> 'b api_reply \<times> 's" where
  "AdminHandler mux body r st = (securityHeaders [], recoverer (mux (bodyLimit body)) r st)"

record health_report =
  hh_status :: string
  hh_configVersion :: int
  hh_traefik :: sup_status
  hh_recovery :: "nat \<times> string \<times> gotime"
  hh_waf :: "bool \<times> string"

definition handleHealth :: "machine \<Rightarrow> health_report api_reply" where
  "handleHealth w =
     ApiOk 200 \<lparr>hh_status = ''ok'', hh_configVersion = en_version (mc_eng w), hh_traefik = Status (w_sup (mc_sup w)),
       hh_recovery = RecoveryState (mc_eng w), hh_waf = en_wafStatus (mc_eng w)\<rparr>"

section \<open>The mux Traefik reaches\<close>

datatype provider_answer =
  Provided provider_reply | Healthy | KeyAuthorization "string option" | Content web_reply | MethodNotAllowed | AddSlash | NoRoute

definition read_method :: "string \<Rightarrow> bool" where
  "read_method verb \<longleftrightarrow> verb = ''GET'' \<or> verb = ''HEAD''"

text \<open>\<open>ProviderHandler\<close>: two routes for GET.\<close>

definition ProviderHandler :: "(string \<Rightarrow> string \<Rightarrow> provider_reply) \<Rightarrow> string \<Rightarrow> string \<Rightarrow> string \<Rightarrow> string \<Rightarrow> provider_answer" where
  "ProviderHandler provide verb path token_header if_none_match =
     (if path = ''/api/provider'' then (if read_method verb then Provided (provide token_header if_none_match) else MethodNotAllowed)
      else if path = ''/healthz'' then (if read_method verb then Healthy else MethodNotAllowed)
      else NoRoute)"

definition DefaultPath :: string where "DefaultPath = ''/__xgress/default''"
definition BannedPath :: string where "BannedPath = ''/__xgress/banned''"
definition ChallengePath :: string where "ChallengePath = ''/.well-known/acme-challenge/''"

text \<open>The routes \<open>Register\<close> adds; the error path is a subtree.\<close>

definition web_mux :: "bool \<Rightarrow> string \<Rightarrow> db \<Rightarrow> (web_reply \<times> db) option" where
  "web_mux hijack path d =
     (if path = DefaultPath then Some (handleDefault hijack d)
      else if has_prefix path ErrorPath then Some (handleError path d)
      else if path = BannedPath then Some (handleBanned, d)
      else None)"

definition provider_mux :: "(string \<Rightarrow> string \<Rightarrow> provider_reply) \<Rightarrow> responder \<Rightarrow> bool \<Rightarrow> string \<Rightarrow> string \<Rightarrow> string \<Rightarrow> string
    \<Rightarrow> db \<Rightarrow> provider_answer \<times> db" where
  "provider_mux provide resp hijack verb path token_header if_none_match d =
     (if path = ''/api/provider'' \<or> path = ''/healthz''
      then (ProviderHandler provide verb path token_header if_none_match, d)
      else if has_prefix path ChallengePath then (KeyAuthorization (serve_challenge resp path), d)
      else (case web_mux hijack path d of Some (rep, d') \<Rightarrow> (Content rep, d')
         | None \<Rightarrow> (if path @ ''/'' = ChallengePath \<or> path @ ''/'' = ErrorPath then AddSlash else NoRoute, d)))"

section \<open>What the routes promise\<close>

lemma traefik_disabled:
  "cf_TraefikAPIListen pc = [] \<Longrightarrow>
   proxyTraefik (with_traefik pc get pr ps FL) path u st = (ApiErr 503 (''Traefik API unavailable: '' @ ErrDisabled), st)"
  by (simp add: proxyTraefik_def with_traefik_def Let_def NewTraefikAPI_def Raw_def)

text \<open>No answer of more than the limit is kept, whatever Traefik sends.\<close>

lemma Raw_bounded: "Raw get c path = Inr b \<Longrightarrow> length b \<le> api_limit"
  by (auto simp: Raw_def split: if_splits get_outcome.splits sum.splits)

lemma bodyLimit_bounded: "length (fst (bodyLimit body)) \<le> maxRequestBody"
  by (simp add: bodyLimit_def split: option.splits)

text \<open>A challenge is answered from its presentation to its clean-up, by the server every other path of which is elsewhere.\<close>

lemma challenge_route:
  "provider_mux provide resp hijack verb (ChallengePath @ token) th inm d = (KeyAuthorization (mget resp token), d)"
  by (simp add: provider_mux_def ChallengePath_def serve_challenge_def trim_prefix_def)

lemma challenge_lifetime:
  "provider_mux provide (Present domain token key resp) hijack verb (ChallengePath @ token) th inm d = (KeyAuthorization (Some key), d)"
  "provider_mux provide (CleanUp domain token key resp) hijack verb (ChallengePath @ token) th inm d = (KeyAuthorization None, d)"
  by (simp_all add: challenge_route Present_def CleanUp_def)

text \<open>Only \<open>/api/provider\<close> asks for the document, so key material is never behind another path.\<close>

lemma provided_path: "fst (provider_mux provide resp hijack verb path th inm d) = Provided x \<Longrightarrow> path = ''/api/provider'' \<and> x = provide th inm"
  by (auto simp: provider_mux_def ProviderHandler_def split: if_splits option.splits)

text \<open>The renderer sends banned addresses to a path the mux answers with the page for them.\<close>

lemma banned_route: "provider_mux provide resp hijack verb BannedPath th inm d = (Content (Page 403 BannedHTML), d)"
  by (simp add: provider_mux_def BannedPath_def ChallengePath_def web_mux_def DefaultPath_def ErrorPath_def handleBanned_def)

text \<open>What Traefik's errors middleware asks for: the renderer's query with the status filled in.\<close>

definition error_query :: "host \<Rightarrow> nat \<Rightarrow> string" where
  "error_query h status = ''/__xgress/error/'' @ h_ID h @ ''/'' @ show_nat status"

lemma error_query_route:
  assumes "CHR ''/'' \<notin> set (h_ID h)" "status < 2 ^ 63" "GetHost (h_ID h) d = (Inr g, d')"
  shows "provider_mux provide resp hijack verb (error_query h status) th inm d =
    (Content (case find (\<lambda>ep. statusMatches (ep_Status ep) (int status)) (h_ErrorPages g) of
        Some ep \<Rightarrow> writeStatusPage (int status) (ep_HTML ep) | None \<Rightarrow> writeStatusPage (int status) []), d')"
proof -
  have "handleError (error_query h status) d =
    (case find (\<lambda>ep. statusMatches (ep_Status ep) (int status)) (h_ErrorPages g) of
        Some ep \<Rightarrow> writeStatusPage (int status) (ep_HTML ep) | None \<Rightarrow> writeStatusPage (int status) [], d')"
    using assms
    by (simp add: handleError_def error_query_def ErrorPath_def trim_prefix_def split_first_append atoiDefault_show split: option.splits)
  then show ?thesis
    by (simp add: provider_mux_def error_query_def ChallengePath_def web_mux_def DefaultPath_def ErrorPath_def BannedPath_def)
qed

end
