(* ===== verification/Catalogs.thy ===== *)
theory Catalogs
  imports Models
begin

text \<open>
  The two tables behind the guided forms of the user interface: the DNS providers with the environment
  variables lego reads (\<open>internal/acme/catalog.go\<close>) and the middleware types with their parameters
  (\<open>internal/traefikcfg/catalog.go\<close>). An omitted field of a Go literal is its zero value.
\<close>

section \<open>DNS providers\<close>

datatype dns_field =
  DNSField (df_Key: string) (df_Label: string) (df_Secret: bool) (df_Optional: bool) (df_Help: string)

datatype dns_provider_spec =
  DNSProviderSpec (ds_Code: string) (ds_Label: string) (ds_Docs: string) (ds_Fields: "dns_field list")

definition DNSProviderCatalog :: "dns_provider_spec list" where
  "DNSProviderCatalog =
     [DNSProviderSpec ''cloudflare'' ''Cloudflare'' ''https://go-acme.github.io/lego/dns/cloudflare/''
        [DNSField ''CF_DNS_API_TOKEN'' ''API Token'' True False ''Scoped token with Zone:DNS:Edit. Recommended.''],
      DNSProviderSpec ''route53'' ''AWS Route 53'' ''https://go-acme.github.io/lego/dns/route53/''
        [DNSField ''AWS_ACCESS_KEY_ID'' ''Access Key ID'' True False [],
         DNSField ''AWS_SECRET_ACCESS_KEY'' ''Secret Access Key'' True False [],
         DNSField ''AWS_REGION'' ''Region'' False True ''e.g. us-east-1'',
         DNSField ''AWS_HOSTED_ZONE_ID'' ''Hosted Zone ID'' False True []],
      DNSProviderSpec ''gcloud'' ''Google Cloud DNS'' ''https://go-acme.github.io/lego/dns/gcloud/''
        [DNSField ''GCE_PROJECT'' ''GCP Project ID'' False False [],
         DNSField ''GCE_SERVICE_ACCOUNT'' ''Service Account JSON'' True False ''Full service-account JSON contents.''],
      DNSProviderSpec ''azuredns'' ''Azure DNS'' ''https://go-acme.github.io/lego/dns/azuredns/''
        [DNSField ''AZURE_CLIENT_ID'' ''Client ID'' False False [],
         DNSField ''AZURE_CLIENT_SECRET'' ''Client Secret'' True False [],
         DNSField ''AZURE_TENANT_ID'' ''Tenant ID'' False False [],
         DNSField ''AZURE_SUBSCRIPTION_ID'' ''Subscription ID'' False False [],
         DNSField ''AZURE_RESOURCE_GROUP'' ''Resource Group'' False True []],
      DNSProviderSpec ''digitalocean'' ''DigitalOcean'' ''https://go-acme.github.io/lego/dns/digitalocean/''
        [DNSField ''DO_AUTH_TOKEN'' ''API Token'' True False []],
      DNSProviderSpec ''hetzner'' ''Hetzner'' ''https://go-acme.github.io/lego/dns/hetzner/''
        [DNSField ''HETZNER_API_KEY'' ''API Key'' True False []],
      DNSProviderSpec ''gandiv5'' ''Gandi (LiveDNS)'' ''https://go-acme.github.io/lego/dns/gandiv5/''
        [DNSField ''GANDIV5_PERSONAL_ACCESS_TOKEN'' ''Personal Access Token'' True False []],
      DNSProviderSpec ''godaddy'' ''GoDaddy'' ''https://go-acme.github.io/lego/dns/godaddy/''
        [DNSField ''GODADDY_API_KEY'' ''API Key'' True False [],
         DNSField ''GODADDY_API_SECRET'' ''API Secret'' True False []],
      DNSProviderSpec ''namecheap'' ''Namecheap'' ''https://go-acme.github.io/lego/dns/namecheap/''
        [DNSField ''NAMECHEAP_API_USER'' ''API User'' False False [],
         DNSField ''NAMECHEAP_API_KEY'' ''API Key'' True False []],
      DNSProviderSpec ''namedotcom'' ''Name.com'' ''https://go-acme.github.io/lego/dns/namedotcom/''
        [DNSField ''NAMECOM_USERNAME'' ''Username'' False False [],
         DNSField ''NAMECOM_API_TOKEN'' ''API Token'' True False []],
      DNSProviderSpec ''linode'' ''Linode (Akamai)'' ''https://go-acme.github.io/lego/dns/linode/''
        [DNSField ''LINODE_TOKEN'' ''API Token'' True False []],
      DNSProviderSpec ''vultr'' ''Vultr'' ''https://go-acme.github.io/lego/dns/vultr/''
        [DNSField ''VULTR_API_KEY'' ''API Key'' True False []],
      DNSProviderSpec ''ovh'' ''OVH'' ''https://go-acme.github.io/lego/dns/ovh/''
        [DNSField ''OVH_ENDPOINT'' ''Endpoint'' False False ''e.g. ovh-eu'',
         DNSField ''OVH_APPLICATION_KEY'' ''Application Key'' True False [],
         DNSField ''OVH_APPLICATION_SECRET'' ''Application Secret'' True False [],
         DNSField ''OVH_CONSUMER_KEY'' ''Consumer Key'' True False []],
      DNSProviderSpec ''dnsimple'' ''DNSimple'' ''https://go-acme.github.io/lego/dns/dnsimple/''
        [DNSField ''DNSIMPLE_OAUTH_TOKEN'' ''OAuth Token'' True False []],
      DNSProviderSpec ''desec'' ''deSEC'' ''https://go-acme.github.io/lego/dns/desec/''
        [DNSField ''DESEC_TOKEN'' ''API Token'' True False []],
      DNSProviderSpec ''duckdns'' ''DuckDNS'' ''https://go-acme.github.io/lego/dns/duckdns/''
        [DNSField ''DUCKDNS_TOKEN'' ''Token'' True False []],
      DNSProviderSpec ''porkbun'' ''Porkbun'' ''https://go-acme.github.io/lego/dns/porkbun/''
        [DNSField ''PORKBUN_API_KEY'' ''API Key'' True False [],
         DNSField ''PORKBUN_SECRET_API_KEY'' ''Secret API Key'' True False []],
      DNSProviderSpec ''bunny'' ''Bunny.net'' ''https://go-acme.github.io/lego/dns/bunny/''
        [DNSField ''BUNNY_API_KEY'' ''API Key'' True False []],
      DNSProviderSpec ''njalla'' ''Njalla'' ''https://go-acme.github.io/lego/dns/njalla/''
        [DNSField ''NJALLA_TOKEN'' ''Token'' True False []],
      DNSProviderSpec ''netcup'' ''Netcup'' ''https://go-acme.github.io/lego/dns/netcup/''
        [DNSField ''NETCUP_CUSTOMER_NUMBER'' ''Customer Number'' False False [],
         DNSField ''NETCUP_API_KEY'' ''API Key'' True False [],
         DNSField ''NETCUP_API_PASSWORD'' ''API Password'' True False []],
      DNSProviderSpec ''inwx'' ''INWX'' ''https://go-acme.github.io/lego/dns/inwx/''
        [DNSField ''INWX_USERNAME'' ''Username'' False False [],
         DNSField ''INWX_PASSWORD'' ''Password'' True False []],
      DNSProviderSpec ''scaleway'' ''Scaleway'' ''https://go-acme.github.io/lego/dns/scaleway/''
        [DNSField ''SCW_ACCESS_KEY'' ''Access Key'' False False [],
         DNSField ''SCW_SECRET_KEY'' ''Secret Key'' True False []],
      DNSProviderSpec ''exoscale'' ''Exoscale'' ''https://go-acme.github.io/lego/dns/exoscale/''
        [DNSField ''EXOSCALE_API_KEY'' ''API Key'' True False [],
         DNSField ''EXOSCALE_API_SECRET'' ''API Secret'' True False []],
      DNSProviderSpec ''transip'' ''TransIP'' ''https://go-acme.github.io/lego/dns/transip/''
        [DNSField ''TRANSIP_ACCOUNT_NAME'' ''Account Name'' False False [],
         DNSField ''TRANSIP_PRIVATE_KEY_PATH'' ''Private Key Path'' False False ''Path to the private key inside the container.''],
      DNSProviderSpec ''pdns'' ''PowerDNS'' ''https://go-acme.github.io/lego/dns/pdns/''
        [DNSField ''PDNS_API_URL'' ''API URL'' False False [],
         DNSField ''PDNS_API_KEY'' ''API Key'' True False []],
      DNSProviderSpec ''rfc2136'' ''RFC2136 (dynamic DNS)'' ''https://go-acme.github.io/lego/dns/rfc2136/''
        [DNSField ''RFC2136_NAMESERVER'' ''Nameserver'' False False ''host:port'',
         DNSField ''RFC2136_TSIG_KEY'' ''TSIG Key Name'' False False [],
         DNSField ''RFC2136_TSIG_SECRET'' ''TSIG Secret'' True False [],
         DNSField ''RFC2136_TSIG_ALGORITHM'' ''TSIG Algorithm'' False True ''e.g. hmac-sha256.'']]"

section \<open>Middlewares\<close>

text \<open>The example is the value whose JSON the interface shows.\<close>

datatype catalog_field = CatalogField (kf_Key: string) (kf_Label: string) (kf_Type: string) (kf_Help: string)

datatype catalog_entry =
  CatalogEntry (ke_Type: string) (ke_Label: string) (ke_Description: string) (ke_Example: json) (ke_Fields: "catalog_field list")

definition MiddlewareCatalog :: "catalog_entry list" where
  "MiddlewareCatalog =
     [CatalogEntry ''basicAuth'' ''Basic Auth''
        ''HTTP Basic authentication. Enter username + password; xgress hashes it for you.''
        (JObj [(''users'', JArr [JStr ''admin:$apr1$...''])])
        [CatalogField ''users'' ''Users'' ''users'' ''Username + password; the password is bcrypt-hashed automatically.''],
      CatalogEntry ''ipAllowList'' ''IP Allow List''
        ''Allow only the given client source ranges (CIDR).''
        (JObj [(''sourceRange'', JArr [JStr ''10.0.0.0/8'', JStr ''192.168.0.0/16''])])
        [CatalogField ''sourceRange'' ''Allowed ranges (CIDR)'' ''list'' ''One CIDR per line, e.g. 10.0.0.0/8''],
      CatalogEntry ''rateLimit'' ''Rate Limit''
        ''Token-bucket rate limiting (average requests/s with burst).''
        (JObj [(''average'', JNum ''100''), (''burst'', JNum ''50'')])
        [CatalogField ''average'' ''Average req/s'' ''number'' [],
         CatalogField ''burst'' ''Burst'' ''number'' []],
      CatalogEntry ''compress'' ''Compress''
        ''gzip/brotli/zstd response compression.''
        (JObj [])
        [],
      CatalogEntry ''headers'' ''Headers / Security''
        ''Add or override request/response headers; HSTS, frame deny, etc.''
        (JObj [(''stsSeconds'', JNum ''31536000''), (''stsIncludeSubdomains'', JBool True), (''frameDeny'', JBool True), (''contentTypeNosniff'', JBool True), (''browserXssFilter'', JBool True)])
        [],
      CatalogEntry ''forwardAuth'' ''Forward Auth''
        ''Delegate authentication to an external service (Authelia, Authentik).''
        (JObj [(''address'', JStr ''http://authelia:9091/api/verify?rd=https://auth.example.com''), (''trustForwardHeader'', JBool True), (''authResponseHeaders'', JArr [JStr ''Remote-User'', JStr ''Remote-Groups''])])
        [CatalogField ''address'' ''Auth service URL'' ''text'' [],
         CatalogField ''trustForwardHeader'' ''Trust X-Forwarded-* headers'' ''bool'' [],
         CatalogField ''authResponseHeaders'' ''Forward response headers'' ''list'' []],
      CatalogEntry ''redirectScheme'' ''Redirect Scheme''
        (''Redirect to another scheme (e.g. http'' @ [CHR 0xE2] @ [CHR 0x86] @ [CHR 0x92] @ ''https).'')
        (JObj [(''scheme'', JStr ''https''), (''permanent'', JBool True)])
        [CatalogField ''scheme'' ''Scheme'' ''text'' ''e.g. https'',
         CatalogField ''permanent'' ''Permanent (308)'' ''bool'' []],
      CatalogEntry ''redirectRegex'' ''Redirect Regex''
        ''Redirect using a regex match/replacement on the URL.''
        (JObj [(''regex'', JStr (''^https?://example'' @ [CHR 0x5C] @ ''.com/(.*)'')), (''replacement'', JStr ''https://www.example.com/${1}''), (''permanent'', JBool True)])
        [],
      CatalogEntry ''stripPrefix'' ''Strip Prefix''
        ''Remove path prefixes before forwarding to the backend.''
        (JObj [(''prefixes'', JArr [JStr ''/api''])])
        [CatalogField ''prefixes'' ''Prefixes to strip'' ''list'' []],
      CatalogEntry ''addPrefix'' ''Add Prefix''
        ''Prepend a path prefix before forwarding to the backend.''
        (JObj [(''prefix'', JStr ''/api'')])
        [CatalogField ''prefix'' ''Prefix'' ''text'' []],
      CatalogEntry ''buffering'' ''Buffering''
        ''Buffer request/response bodies with size limits.''
        (JObj [(''maxRequestBodyBytes'', JNum ''10485760'')])
        [CatalogField ''maxRequestBodyBytes'' ''Max request body (bytes)'' ''number'' []],
      CatalogEntry ''inFlightReq'' ''In-Flight Requests''
        ''Limit the number of simultaneous in-flight requests.''
        (JObj [(''amount'', JNum ''100'')])
        [CatalogField ''amount'' ''Max concurrent requests'' ''number'' []]]"

section \<open>What the forms rely on\<close>

text \<open>The input widget of a field and the JSON value it produces.\<close>

fun widget_fits :: "string \<Rightarrow> json \<Rightarrow> bool" where
  "widget_fits ty (JStr _) = (ty = ''text'')"
| "widget_fits ty (JNum _) = (ty = ''number'')"
| "widget_fits ty (JBool _) = (ty = ''bool'')"
| "widget_fits ty (JArr _) = (ty = ''list'' \<or> ty = ''users'')"
| "widget_fits ty _ = False"

fun example_value :: "json \<Rightarrow> string \<Rightarrow> json option" where
  "example_value (JObj kvs) k = map_of kvs k"
| "example_value _ k = None"

definition form_fits :: "catalog_entry \<Rightarrow> bool" where
  "form_fits e = list_all (\<lambda>f. case example_value (ke_Example e) (kf_Key f) of Some v \<Rightarrow> widget_fits (kf_Type f) v | None \<Rightarrow> False)
     (ke_Fields e)"

text \<open>A guided form offers only parameters the entry's example has, each with the widget of its kind.\<close>

lemma catalog_forms_fit: "list_all form_fits MiddlewareCatalog"
  by code_simp

lemma catalog_types_distinct: "distinct (map ke_Type MiddlewareCatalog)"
  by code_simp

text \<open>A provider is found by its code, and a form asks for each variable once and for none of xgress' own.\<close>

lemma dns_codes_distinct: "distinct (map ds_Code DNSProviderCatalog)"
  by code_simp

lemma dns_keys_sound:
  "list_all (\<lambda>s. distinct (map df_Key (ds_Fields s))
     \<and> list_all (\<lambda>f. df_Key f \<noteq> [] \<and> \<not> has_prefix (df_Key f) ''XGRESS_'') (ds_Fields s)) DNSProviderCatalog"
  by code_simp

end
